theory Spec2Isabelle
  imports Main "HOL-Library.Word"
begin

section \<open>Values, errors and checked arithmetic\<close>

text \<open>
  Addresses are 160-bit words. A \<open>uint256\<close> is a natural number below \<open>2 ^ 256\<close>; the
  contracts are compiled with Solidity 0.8, so every \<open>+\<close>, \<open>-\<close>, \<open>*\<close> and \<open>/\<close> (and the
  SafeMath wrappers around them) reverts instead of wrapping. A revert is the \<open>Inl\<close> branch
  of the result: it carries the reason and no state, since the transaction leaves the
  state it started from.
\<close>

type_synonym address = "160 word"

definition MAX_UINT256 :: nat where
  "MAX_UINT256 = 2 ^ 256 - 1"

datatype error =
    KYCRequired                  \<comment> \<open>"KYC verification required"\<close>
  | RecipientNotKYC              \<comment> \<open>"Recipient must be KYC verified"\<close>
  | NotPropertyOwner             \<comment> \<open>"Not the property owner"\<close>
  | PropertyDoesNotExist         \<comment> \<open>"Property does not exist"\<close>
  | NotOwner                     \<comment> \<open>"Ownable: caller is not the owner"\<close>
  | TokenNotActive               \<comment> \<open>"Token is not active"\<close>
  | Paused                       \<comment> \<open>"Pausable: paused"\<close>
  | NotPaused                    \<comment> \<open>"Pausable: not paused"\<close>
  | ZeroTokenAmount              \<comment> \<open>"Token amount must be greater than 0"\<close>
  | ZeroPrice                    \<comment> \<open>"Price must be greater than 0"\<close>
  | ZeroTotalValue               \<comment> \<open>"Total value must be greater than 0"\<close>
  | ZeroTokenPrice               \<comment> \<open>"Token price must be greater than 0"\<close>
  | NoBalanceToWithdraw          \<comment> \<open>"No balance to withdraw"\<close>
  | NewOwnerIsZero               \<comment> \<open>"Ownable: new owner is the zero address"\<close>
  | NotEnoughTokens              \<comment> \<open>"Not enough tokens available"\<close>
  | InsufficientPayment          \<comment> \<open>"Insufficient payment"\<close>
  | InsufficientTokenBalance     \<comment> \<open>"Insufficient token balance"\<close>
  | InsufficientContractBalance  \<comment> \<open>"Insufficient contract balance"\<close>
  | ZeroRentAmount               \<comment> \<open>"Rent amount must be greater than 0"\<close>
  | TokenNotRegistered           \<comment> \<open>"Fractional token not registered"\<close>
  | InvalidTokenAddress          \<comment> \<open>"Invalid token address"\<close>
  | DistributionCompletedAlready \<comment> \<open>"Distribution already completed"\<close>
  | AlreadyClaimed               \<comment> \<open>"Already claimed"\<close>
  | NoDistributionAvailable      \<comment> \<open>"No distribution available"\<close>
  | PlatformFeeTooHigh           \<comment> \<open>"Platform fee too high"\<close>
  | ManagementFeeTooHigh         \<comment> \<open>"Management fee too high"\<close>
  | ERC20FromZero                \<comment> \<open>"ERC20: transfer from the zero address"\<close>
  | ERC20ToZero                  \<comment> \<open>"ERC20: transfer to the zero address"\<close>
  | ERC20ExceedsBalance          \<comment> \<open>"ERC20: transfer amount exceeds balance"\<close>
  | ERC20InsufficientAllowance   \<comment> \<open>"ERC20: insufficient allowance"\<close>
  | ERC20MintToZero              \<comment> \<open>"ERC20: mint to the zero address"\<close>
  | ERC20ApproveZero             \<comment> \<open>"ERC20: approve from/to the zero address"\<close>
  | ArithmeticPanic              \<comment> \<open>overflow, underflow or division by zero\<close>
  | CallerLacksFunds             \<comment> \<open>the caller cannot pay the value sent with the call\<close>
  | EtherTransferFailed          \<comment> \<open>\<open>payable(x).transfer\<close> reverted\<close>
  | NoContractAtAddress          \<comment> \<open>external call to an address without the expected code\<close>

definition checked_add :: "nat \<Rightarrow> nat \<Rightarrow> error + nat" where
  "checked_add a b = (if a + b \<le> MAX_UINT256 then Inr (a + b) else Inl ArithmeticPanic)"

definition checked_sub :: "nat \<Rightarrow> nat \<Rightarrow> error + nat" where
  "checked_sub a b = (if b \<le> a then Inr (a - b) else Inl ArithmeticPanic)"

definition checked_mul :: "nat \<Rightarrow> nat \<Rightarrow> error + nat" where
  "checked_mul a b = (if a * b \<le> MAX_UINT256 then Inr (a * b) else Inl ArithmeticPanic)"

definition checked_div :: "nat \<Rightarrow> nat \<Rightarrow> error + nat" where
  "checked_div a b = (if b = 0 then Inl ArithmeticPanic else Inr (a div b))"

section \<open>The chain: PropertyNFT, ether balances\<close>

text \<open>
  The part of \<open>PropertyNFT\<close> that the two contracts call: the KYC table, \<open>getProperty\<close>
  (of which \<open>propertyOwner\<close> and \<open>totalValue\<close> are read), \<open>updateAvailableTokens\<close> and
  \<open>updateProperty\<close>. \<open>property_exists\<close> is ERC721's \<open>_exists\<close>.
\<close>

record PropertyNFT =
  nft_owner :: address
  nft_paused :: bool
  kycVerified :: "address \<Rightarrow> bool"
  property_exists :: "nat \<Rightarrow> bool"
  propertyOwner :: "nat \<Rightarrow> address"
  totalValue :: "nat \<Rightarrow> nat"
  availableTokens :: "nat \<Rightarrow> nat"
  tokenPrice :: "nat \<Rightarrow> nat"

definition getProperty_owner :: "nat \<Rightarrow> PropertyNFT \<Rightarrow> error + address" where
  "getProperty_owner tokenId n =
     (if \<not> property_exists n tokenId then Inl PropertyDoesNotExist
      else Inr (propertyOwner n tokenId))"

definition getProperty_totalValue :: "nat \<Rightarrow> PropertyNFT \<Rightarrow> error + nat" where
  "getProperty_totalValue tokenId n =
     (if \<not> property_exists n tokenId then Inl PropertyDoesNotExist
      else Inr (totalValue n tokenId))"

definition updateProperty :: "address \<Rightarrow> nat \<Rightarrow> nat \<Rightarrow> nat \<Rightarrow> PropertyNFT \<Rightarrow> error + PropertyNFT" where
  "updateProperty sender tokenId newTotalValue newTokenPrice n =
     (if \<not> propertyOwner n tokenId = sender then Inl NotPropertyOwner
      else if nft_paused n then Inl Paused
      else if \<not> property_exists n tokenId then Inl PropertyDoesNotExist
      else if \<not> newTotalValue > 0 then Inl ZeroTotalValue
      else if \<not> newTokenPrice > 0 then Inl ZeroTokenPrice
      else Inr (n\<lparr>totalValue := (totalValue n)(tokenId := newTotalValue),
                  tokenPrice := (tokenPrice n)(tokenId := newTokenPrice)\<rparr>))"

definition updateAvailableTokens :: "address \<Rightarrow> nat \<Rightarrow> nat \<Rightarrow> PropertyNFT \<Rightarrow> error + PropertyNFT" where
  "updateAvailableTokens sender tokenId newAvailableTokens n =
     (if nft_owner n \<noteq> sender then Inl NotOwner
      else if \<not> property_exists n tokenId then Inl PropertyDoesNotExist
      else Inr (n\<lparr>availableTokens := (availableTokens n)(tokenId := newAvailableTokens)\<rparr>))"

text \<open>
  What every contract sees of the chain: the PropertyNFT contract, the ether balance of
  every address, and whether an address accepts a plain ether transfer
  (\<open>payable(x).transfer\<close> reverts when the recipient's code rejects it).
\<close>

record chain =
  nft :: PropertyNFT
  eth :: "address \<Rightarrow> nat"
  canReceive :: "address \<Rightarrow> bool"

definition move_eth :: "address \<Rightarrow> address \<Rightarrow> nat \<Rightarrow> (address \<Rightarrow> nat) \<Rightarrow> (address \<Rightarrow> nat)" where
  "move_eth src dst v e = (let e1 = e(src := e src - v) in e1(dst := e1 dst + v))"

definition pay_transfer :: "address \<Rightarrow> address \<Rightarrow> nat \<Rightarrow> 'a chain_scheme \<Rightarrow> error + 'a chain_scheme" where
  \<comment> \<open>\<open>payable(dst).transfer(v)\<close> executed by the contract at \<open>src\<close>\<close>
  "pay_transfer src dst v w =
     (if eth w src < v \<or> \<not> canReceive w dst then Inl EtherTransferFailed
      else Inr (w\<lparr>eth := move_eth src dst v (eth w)\<rparr>))"

definition receive_value :: "address \<Rightarrow> address \<Rightarrow> nat \<Rightarrow> 'a chain_scheme \<Rightarrow> error + 'a chain_scheme" where
  \<comment> \<open>\<open>msg.value\<close> of a payable call, credited to the callee before its code runs\<close>
  "receive_value sender callee v w =
     (if eth w sender < v then Inl CallerLacksFunds
      else Inr (w\<lparr>eth := move_eth sender callee v (eth w)\<rparr>))"

section \<open>FractionalToken\<close>

record TokenInfo =
  totalSupply :: nat
  availableSupply :: nat
  pricePerToken :: nat
  isActive :: bool
  createdAt :: nat

record Investment =
  investor :: address
  amount :: nat
  timestamp :: nat
  investedPricePerToken :: nat

text \<open>
  The storage of one FractionalToken contract. \<open>ft_self\<close> is \<open>address(this)\<close>;
  \<open>balances\<close>, \<open>allowances\<close> and \<open>erc20_totalSupply\<close> are the storage of the inherited
  ERC20, \<open>ft_owner\<close> that of Ownable and \<open>ft_paused\<close> that of Pausable.
\<close>

record FractionalToken =
  ft_self :: address
  ft_owner :: address
  ft_paused :: bool
  balances :: "address \<Rightarrow> nat"
  allowances :: "address \<Rightarrow> address \<Rightarrow> nat"
  erc20_totalSupply :: nat
  propertyId :: nat
  tokenInfo :: TokenInfo
  investments :: "address \<Rightarrow> Investment list"
  investors :: "address list"
  isInvestor :: "address \<Rightarrow> bool"
  totalInvested :: nat

record ft_world = chain +
  tok :: FractionalToken

subsection \<open>The inherited ERC20\<close>

definition balanceOf :: "FractionalToken \<Rightarrow> address \<Rightarrow> nat" where
  "balanceOf s a = balances s a"

definition ERC20_mint :: "address \<Rightarrow> nat \<Rightarrow> FractionalToken \<Rightarrow> error + FractionalToken" where
  \<comment> \<open>Modelled from the spec: \<open>ERC20._mint\<close> of the imported OpenZeppelin library, which is
      not under src/. Issuance creates the whole supply once, credited to the account.\<close>
  "ERC20_mint account amt s =
     (if account = 0 then Inl ERC20MintToZero
      else case checked_add (erc20_totalSupply s) amt of
        Inl e \<Rightarrow> Inl e
      | Inr t \<Rightarrow> Inr (s\<lparr>erc20_totalSupply := t,
                        balances := (balances s)(account := balances s account + amt)\<rparr>))"

definition ERC20_transfer :: "address \<Rightarrow> address \<Rightarrow> nat \<Rightarrow> FractionalToken \<Rightarrow> error + FractionalToken" where
  \<comment> \<open>Modelled from the spec: \<open>ERC20._transfer\<close> of the imported OpenZeppelin library, which
      is not under src/. It debits and credits atomically and rejects on insufficient
      balance; the credit cannot overflow, the balances summing to the supply.\<close>
  "ERC20_transfer src dst amt s =
     (if src = 0 then Inl ERC20FromZero
      else if dst = 0 then Inl ERC20ToZero
      else if balances s src < amt then Inl ERC20ExceedsBalance
      else Inr (s\<lparr>balances :=
                   (let b = (balances s)(src := balances s src - amt) in b(dst := b dst + amt))\<rparr>))"

definition ERC20_spendAllowance :: "address \<Rightarrow> address \<Rightarrow> nat \<Rightarrow> FractionalToken \<Rightarrow> error + FractionalToken" where
  \<comment> \<open>Modelled from the spec: \<open>ERC20._spendAllowance\<close> of the imported OpenZeppelin library,
      which is not under src/. An unlimited allowance is not decremented.\<close>
  "ERC20_spendAllowance holder spender amt s =
     (if allowances s holder spender = MAX_UINT256 then Inr s
      else if allowances s holder spender < amt then Inl ERC20InsufficientAllowance
      else Inr (s\<lparr>allowances :=
                   (allowances s)(holder := (allowances s holder)(spender := allowances s holder spender - amt))\<rparr>))"

definition approve :: "address \<Rightarrow> address \<Rightarrow> nat \<Rightarrow> ft_world \<Rightarrow> error + ft_world" where
  \<comment> \<open>Modelled from the spec: \<open>ERC20.approve\<close> of the imported OpenZeppelin library, which
      FractionalToken inherits unchanged.\<close>
  "approve sender spender amt w =
     (let s = tok w in
      if sender = 0 \<or> spender = 0 then Inl ERC20ApproveZero
      else Inr (w\<lparr>tok := s\<lparr>allowances :=
                   (allowances s)(sender := (allowances s sender)(spender := amt))\<rparr>\<rparr>))"

subsection \<open>Constructor\<close>

definition constructor_FractionalToken ::
  "address \<Rightarrow> address \<Rightarrow> nat \<Rightarrow> nat \<Rightarrow> nat \<Rightarrow> nat \<Rightarrow> error + FractionalToken" where
  "constructor_FractionalToken self deployer now pid supply price =
     ERC20_mint self supply
       \<lparr>ft_self = self, ft_owner = deployer, ft_paused = False,
        balances = (\<lambda>_. 0), allowances = (\<lambda>_ _. 0), erc20_totalSupply = 0,
        propertyId = pid,
        tokenInfo = \<lparr>totalSupply = supply, availableSupply = supply, pricePerToken = price,
                     isActive = True, createdAt = now\<rparr>,
        investments = (\<lambda>_. []), investors = [], isInvestor = (\<lambda>_. False),
        totalInvested = 0\<rparr>"

subsection \<open>purchaseTokens\<close>

definition record_investment :: "address \<Rightarrow> nat \<Rightarrow> nat \<Rightarrow> FractionalToken \<Rightarrow> FractionalToken" where
  \<comment> \<open>the investment log entry and the registration of a first-time investor\<close>
  "record_investment sender tokenAmount now s =
     (let s1 = s\<lparr>investments := (investments s)(sender := investments s sender @
                   [\<lparr>investor = sender, amount = tokenAmount, timestamp = now,
                     investedPricePerToken = pricePerToken (tokenInfo s)\<rparr>])\<rparr>
      in if \<not> isInvestor s1 sender
         then s1\<lparr>investors := investors s1 @ [sender], isInvestor := (isInvestor s1)(sender := True)\<rparr>
         else s1)"

definition purchaseTokens :: "address \<Rightarrow> nat \<Rightarrow> nat \<Rightarrow> nat \<Rightarrow> ft_world \<Rightarrow> error + ft_world" where
  "purchaseTokens sender msg_value now tokenAmount w0 =
     (case receive_value sender (ft_self (tok w0)) msg_value w0 of
        Inl e \<Rightarrow> Inl e
      | Inr w \<Rightarrow>
         (let s = tok w in
          if \<not> kycVerified (nft w) sender then Inl KYCRequired
          else if \<not> isActive (tokenInfo s) then Inl TokenNotActive
          else if ft_paused s then Inl Paused
          else if \<not> tokenAmount > 0 then Inl ZeroTokenAmount
          else if \<not> tokenAmount \<le> availableSupply (tokenInfo s) then Inl NotEnoughTokens
          else (case checked_mul tokenAmount (pricePerToken (tokenInfo s)) of
            Inl e \<Rightarrow> Inl e
          | Inr totalCost \<Rightarrow>
             (if \<not> msg_value \<ge> totalCost then Inl InsufficientPayment
              else
                (let s1 = s\<lparr>tokenInfo := (tokenInfo s)\<lparr>availableSupply :=
                             availableSupply (tokenInfo s) - tokenAmount\<rparr>\<rparr>
                 in (case ERC20_transfer (ft_self s1) sender tokenAmount s1 of
                   Inl e \<Rightarrow> Inl e
                 | Inr s2 \<Rightarrow>
                    (let s3 = record_investment sender tokenAmount now s2
                     in (case checked_add (totalInvested s3) totalCost of
                       Inl e \<Rightarrow> Inl e
                     | Inr ti \<Rightarrow>
                        (let s4 = s3\<lparr>totalInvested := ti\<rparr>
                         in (case updateAvailableTokens (ft_self s4) (propertyId s4)
                                   (availableSupply (tokenInfo s4)) (nft w) of
                           Inl e \<Rightarrow> Inl e
                         | Inr n \<Rightarrow>
                            (let w1 = w\<lparr>nft := n, tok := s4\<rparr>
                             in if msg_value > totalCost
                                then pay_transfer (ft_self s4) sender (msg_value - totalCost) w1
                                else Inr w1)))))))))))"

subsection \<open>sellTokens\<close>

definition sellTokens :: "address \<Rightarrow> nat \<Rightarrow> ft_world \<Rightarrow> error + ft_world" where
  "sellTokens sender tokenAmount w =
     (let s = tok w in
      if \<not> kycVerified (nft w) sender then Inl KYCRequired
      else if ft_paused s then Inl Paused
      else if \<not> tokenAmount > 0 then Inl ZeroTokenAmount
      else if \<not> balanceOf s sender \<ge> tokenAmount then Inl InsufficientTokenBalance
      else (case checked_mul tokenAmount (pricePerToken (tokenInfo s)) of
        Inl e \<Rightarrow> Inl e
      | Inr totalReceived \<Rightarrow>
         (if \<not> eth w (ft_self s) \<ge> totalReceived then Inl InsufficientContractBalance
          else (case ERC20_transfer sender (ft_self s) tokenAmount s of
            Inl e \<Rightarrow> Inl e
          | Inr s1 \<Rightarrow>
             (case checked_add (availableSupply (tokenInfo s1)) tokenAmount of
                Inl e \<Rightarrow> Inl e
              | Inr av \<Rightarrow>
                 (let s2 = s1\<lparr>tokenInfo := (tokenInfo s1)\<lparr>availableSupply := av\<rparr>\<rparr>
                  in (case pay_transfer (ft_self s2) sender totalReceived (w\<lparr>tok := s2\<rparr>) of
                    Inl e \<Rightarrow> Inl e
                  | Inr w1 \<Rightarrow>
                     (case updateAvailableTokens (ft_self s2) (propertyId s2)
                             (availableSupply (tokenInfo s2)) (nft w1) of
                        Inl e \<Rightarrow> Inl e
                      | Inr n \<Rightarrow> Inr (w1\<lparr>nft := n\<rparr>)))))))))"

subsection \<open>transfer, transferFrom, status, pause, queries\<close>

definition transfer :: "address \<Rightarrow> address \<Rightarrow> nat \<Rightarrow> ft_world \<Rightarrow> error + ft_world" where
  "transfer sender dst amt w =
     (if \<not> kycVerified (nft w) sender then Inl KYCRequired
      else if \<not> kycVerified (nft w) dst then Inl RecipientNotKYC
      else case ERC20_transfer sender dst amt (tok w) of
        Inl e \<Rightarrow> Inl e
      | Inr s \<Rightarrow> Inr (w\<lparr>tok := s\<rparr>))"

definition transferFrom :: "address \<Rightarrow> address \<Rightarrow> address \<Rightarrow> nat \<Rightarrow> ft_world \<Rightarrow> error + ft_world" where
  "transferFrom sender src dst amt w =
     (if \<not> kycVerified (nft w) sender then Inl KYCRequired
      else if \<not> kycVerified (nft w) dst then Inl RecipientNotKYC
      else case ERC20_spendAllowance src sender amt (tok w) of
        Inl e \<Rightarrow> Inl e
      | Inr s1 \<Rightarrow>
          (case ERC20_transfer src dst amt s1 of
            Inl e \<Rightarrow> Inl e
          | Inr s \<Rightarrow> Inr (w\<lparr>tok := s\<rparr>)))"

definition setTokenStatus :: "address \<Rightarrow> bool \<Rightarrow> ft_world \<Rightarrow> error + ft_world" where
  "setTokenStatus sender active w =
     (case getProperty_owner (propertyId (tok w)) (nft w) of
        Inl e \<Rightarrow> Inl e
      | Inr po \<Rightarrow>
          if po \<noteq> sender then Inl NotPropertyOwner
          else Inr (w\<lparr>tok := (tok w)\<lparr>tokenInfo := (tokenInfo (tok w))\<lparr>isActive := active\<rparr>\<rparr>\<rparr>))"

definition pause_token :: "address \<Rightarrow> ft_world \<Rightarrow> error + ft_world" where
  "pause_token sender w =
     (if ft_owner (tok w) \<noteq> sender then Inl NotOwner
      else if ft_paused (tok w) then Inl Paused
      else Inr (w\<lparr>tok := (tok w)\<lparr>ft_paused := True\<rparr>\<rparr>))"

definition updatePrice :: "address \<Rightarrow> nat \<Rightarrow> ft_world \<Rightarrow> error + ft_world" where
  "updatePrice sender newPrice w =
     (case getProperty_owner (propertyId (tok w)) (nft w) of
        Inl e \<Rightarrow> Inl e
      | Inr po \<Rightarrow>
         (if po \<noteq> sender then Inl NotPropertyOwner
          else if \<not> newPrice > 0 then Inl ZeroPrice
          else
            (let s = (tok w)\<lparr>tokenInfo := (tokenInfo (tok w))\<lparr>pricePerToken := newPrice\<rparr>\<rparr>
             in (case getProperty_totalValue (propertyId s) (nft w) of
               Inl e \<Rightarrow> Inl e
             | Inr tv \<Rightarrow>
                (case updateProperty (ft_self s) (propertyId s) tv newPrice (nft w) of
                   Inl e \<Rightarrow> Inl e
                 | Inr n \<Rightarrow> Inr (w\<lparr>nft := n, tok := s\<rparr>))))))"

definition withdrawBalance :: "address \<Rightarrow> ft_world \<Rightarrow> error + ft_world" where
  "withdrawBalance sender w =
     (case getProperty_owner (propertyId (tok w)) (nft w) of
        Inl e \<Rightarrow> Inl e
      | Inr po \<Rightarrow>
         (if po \<noteq> sender then Inl NotPropertyOwner
          else if \<not> eth w (ft_self (tok w)) > 0 then Inl NoBalanceToWithdraw
          else pay_transfer (ft_self (tok w)) sender (eth w (ft_self (tok w))) w))"

definition emergencyWithdraw_token :: "address \<Rightarrow> ft_world \<Rightarrow> error + ft_world" where
  "emergencyWithdraw_token sender w =
     (if ft_owner (tok w) \<noteq> sender then Inl NotOwner
      else if \<not> eth w (ft_self (tok w)) > 0 then Inl NoBalanceToWithdraw
      else pay_transfer (ft_self (tok w)) (ft_owner (tok w)) (eth w (ft_self (tok w))) w)"

definition transferOwnership_token :: "address \<Rightarrow> address \<Rightarrow> ft_world \<Rightarrow> error + ft_world" where
  \<comment> \<open>Modelled from the spec: \<open>Ownable.transferOwnership\<close> of the imported OpenZeppelin
      library; only the platform operator, the owner, may call it.\<close>
  "transferOwnership_token sender newOwner w =
     (if ft_owner (tok w) \<noteq> sender then Inl NotOwner
      else if \<not> newOwner \<noteq> 0 then Inl NewOwnerIsZero
      else Inr (w\<lparr>tok := (tok w)\<lparr>ft_owner := newOwner\<rparr>\<rparr>))"

definition renounceOwnership_token :: "address \<Rightarrow> ft_world \<Rightarrow> error + ft_world" where
  \<comment> \<open>Modelled from the spec: \<open>Ownable.renounceOwnership\<close> of the imported OpenZeppelin
      library; only the platform operator, the owner, may call it.\<close>
  "renounceOwnership_token sender w =
     (if ft_owner (tok w) \<noteq> sender then Inl NotOwner
      else Inr (w\<lparr>tok := (tok w)\<lparr>ft_owner := 0\<rparr>\<rparr>))"

definition getOwnershipPercentage :: "FractionalToken \<Rightarrow> address \<Rightarrow> error + nat" where
  "getOwnershipPercentage s a =
     (let investorBalance = balanceOf s a in
      if investorBalance = 0 \<or> totalSupply (tokenInfo s) = 0 then Inr 0
      else case checked_mul investorBalance 10000 of
        Inl e \<Rightarrow> Inl e
      | Inr p \<Rightarrow> checked_div p (totalSupply (tokenInfo s)))"

definition getInvestors :: "FractionalToken \<Rightarrow> address list" where
  "getInvestors s = investors s"

definition getInvestorCount :: "FractionalToken \<Rightarrow> nat" where
  "getInvestorCount s = length (investors s)"

definition unpause_token :: "address \<Rightarrow> ft_world \<Rightarrow> error + ft_world" where
  "unpause_token sender w =
     (if ft_owner (tok w) \<noteq> sender then Inl NotOwner
      else if \<not> ft_paused (tok w) then Inl NotPaused
      else Inr (w\<lparr>tok := (tok w)\<lparr>ft_paused := False\<rparr>\<rparr>))"

section \<open>RentDistribution\<close>

record Distribution =
  dist_propertyId :: nat
  fractionalTokenAddress :: address
  dist_totalRentCollected :: nat
  distributionDate :: nat
  totalTokensAtDistribution :: nat
  isCompleted :: bool
  investorDistributions :: "address \<Rightarrow> nat"
  claimed :: "address \<Rightarrow> bool"
  dist_investors :: "address list"
  totalDistributed :: nat
  platformFee :: nat
  propertyOwnerFee :: nat

datatype event =
    RentDeposited nat nat address
  | DistributionCreated nat nat nat nat
  | RentDistributed nat address nat
  | DistributionCompleted nat nat
  | FeesUpdated nat nat

text \<open>
  The storage of the RentDistribution contract: \<open>rd_self\<close> is \<open>address(this)\<close>,
  \<open>rd_owner\<close> the Ownable owner, \<open>rd_paused\<close> the Pausable flag. The \<open>nonReentrant\<close>
  guard is always open when a transaction starts, and no callee of these functions calls
  back (a plain ether transfer forwards 2300 gas), so it never fires and is left out.
\<close>

record RentDistribution =
  rd_self :: address
  rd_owner :: address
  rd_paused :: bool
  distributions :: "nat \<Rightarrow> Distribution"
  distributionCounter :: nat
  platformFeePercentage :: nat
  managementFeePercentage :: nat
  propertyToToken :: "nat \<Rightarrow> address"
  totalRentCollected :: "nat \<Rightarrow> nat"

record rd_world = chain +
  tokenAt :: "address \<Rightarrow> FractionalToken option"
  rd :: RentDistribution

definition empty_Distribution :: Distribution where
  \<comment> \<open>a storage slot never written: every field zero\<close>
  "empty_Distribution =
     \<lparr>dist_propertyId = 0, fractionalTokenAddress = 0, dist_totalRentCollected = 0,
      distributionDate = 0, totalTokensAtDistribution = 0, isCompleted = False,
      investorDistributions = (\<lambda>_. 0), claimed = (\<lambda>_. False), dist_investors = [],
      totalDistributed = 0, platformFee = 0, propertyOwnerFee = 0\<rparr>"

definition constructor_RentDistribution :: "address \<Rightarrow> address \<Rightarrow> RentDistribution" where
  "constructor_RentDistribution self deployer =
     \<lparr>rd_self = self, rd_owner = deployer, rd_paused = False,
      distributions = (\<lambda>_. empty_Distribution), distributionCounter = 0,
      platformFeePercentage = 250, managementFeePercentage = 500,
      propertyToToken = (\<lambda>_. 0), totalRentCollected = (\<lambda>_. 0)\<rparr>"

definition registerFractionalToken :: "address \<Rightarrow> nat \<Rightarrow> address \<Rightarrow> rd_world \<Rightarrow> error + rd_world" where
  "registerFractionalToken sender pid tokenAddress w =
     (if rd_owner (rd w) \<noteq> sender then Inl NotOwner
      else if \<not> tokenAddress \<noteq> 0 then Inl InvalidTokenAddress
      else Inr (w\<lparr>rd := (rd w)\<lparr>propertyToToken := (propertyToToken (rd w))(pid := tokenAddress)\<rparr>\<rparr>))"

definition onlyPropertyOwner :: "nat \<Rightarrow> address \<Rightarrow> PropertyNFT \<Rightarrow> error option" where
  \<comment> \<open>the modifier: \<open>None\<close> when the caller passes\<close>
  "onlyPropertyOwner pid sender n =
     (case getProperty_owner pid n of
        Inl e \<Rightarrow> Some e
      | Inr po \<Rightarrow> if po = sender then None else Some NotPropertyOwner)"

subsection \<open>depositRent\<close>

definition depositRent :: "address \<Rightarrow> nat \<Rightarrow> nat \<Rightarrow> rd_world \<Rightarrow> error + rd_world \<times> event list" where
  "depositRent sender msg_value pid w0 =
     (case receive_value sender (rd_self (rd w0)) msg_value w0 of
        Inl e \<Rightarrow> Inl e
      | Inr w \<Rightarrow>
         (case onlyPropertyOwner pid sender (nft w) of
            Some e \<Rightarrow> Inl e
          | None \<Rightarrow>
             (if rd_paused (rd w) then Inl Paused
              else if \<not> msg_value > 0 then Inl ZeroRentAmount
              else if \<not> propertyToToken (rd w) pid \<noteq> 0 then Inl TokenNotRegistered
              else (case checked_add (totalRentCollected (rd w) pid) msg_value of
                Inl e \<Rightarrow> Inl e
              | Inr t \<Rightarrow>
                  Inr (w\<lparr>rd := (rd w)\<lparr>totalRentCollected := (totalRentCollected (rd w))(pid := t)\<rparr>\<rparr>,
                       [RentDeposited pid msg_value sender])))))"

subsection \<open>createDistribution\<close>

definition compute_fees :: "nat \<Rightarrow> nat \<Rightarrow> nat \<Rightarrow> error + nat \<times> nat \<times> nat" where
  \<comment> \<open>the three SafeMath lines: platform fee, management fee, distribution amount\<close>
  "compute_fees rentAmount platformBP managementBP =
     (case checked_mul rentAmount platformBP of
        Inl e \<Rightarrow> Inl e
      | Inr p \<Rightarrow>
         (case checked_div p 10000 of
            Inl e \<Rightarrow> Inl e
          | Inr platformFee_v \<Rightarrow>
             (case checked_mul rentAmount managementBP of
                Inl e \<Rightarrow> Inl e
              | Inr m \<Rightarrow>
                 (case checked_div m 10000 of
                    Inl e \<Rightarrow> Inl e
                  | Inr managementFee_v \<Rightarrow>
                     (case checked_sub rentAmount platformFee_v of
                        Inl e \<Rightarrow> Inl e
                      | Inr r \<Rightarrow>
                         (case checked_sub r managementFee_v of
                            Inl e \<Rightarrow> Inl e
                          | Inr distributionAmount \<Rightarrow>
                              Inr (platformFee_v, managementFee_v, distributionAmount)))))))"

fun allocate_shares :: "nat \<Rightarrow> FractionalToken \<Rightarrow> address list \<Rightarrow> Distribution \<Rightarrow> error + Distribution" where
  "allocate_shares distributionAmount t [] d = Inr d"
| "allocate_shares distributionAmount t (a # as) d =
     (let investorBalance = balanceOf t a in
      if investorBalance > 0 then
        (case checked_mul distributionAmount investorBalance of
           Inl e \<Rightarrow> Inl e
         | Inr p \<Rightarrow>
            (case checked_div p (totalTokensAtDistribution d) of
               Inl e \<Rightarrow> Inl e
             | Inr investorShare \<Rightarrow>
                 allocate_shares distributionAmount t as
                   (d\<lparr>investorDistributions := (investorDistributions d)(a := investorShare)\<rparr>)))
      else allocate_shares distributionAmount t as d)"

definition transfer_fees :: "nat \<Rightarrow> nat \<Rightarrow> nat \<Rightarrow> rd_world \<Rightarrow> error + rd_world" where
  "transfer_fees pid platformFee_v managementFee_v w =
     (case (if platformFee_v > 0
            then pay_transfer (rd_self (rd w)) (rd_owner (rd w)) platformFee_v w
            else Inr w) of
        Inl e \<Rightarrow> Inl e
      | Inr w1 \<Rightarrow>
         (case getProperty_owner pid (nft w1) of
            Inl e \<Rightarrow> Inl e
          | Inr po \<Rightarrow>
              if managementFee_v > 0
              then pay_transfer (rd_self (rd w1)) po managementFee_v w1
              else Inr w1))"

definition createDistribution :: "address \<Rightarrow> nat \<Rightarrow> nat \<Rightarrow> nat \<Rightarrow> rd_world \<Rightarrow> error + rd_world \<times> event list" where
  "createDistribution sender now pid rentAmount w =
     (case onlyPropertyOwner pid sender (nft w) of
        Some e \<Rightarrow> Inl e
      | None \<Rightarrow>
         (if rd_paused (rd w) then Inl Paused
          else if \<not> rentAmount > 0 then Inl ZeroRentAmount
          else if \<not> eth w (rd_self (rd w)) \<ge> rentAmount then Inl InsufficientContractBalance
          else if \<not> propertyToToken (rd w) pid \<noteq> 0 then Inl TokenNotRegistered
          else (case compute_fees rentAmount (platformFeePercentage (rd w))
                       (managementFeePercentage (rd w)) of
            Inl e \<Rightarrow> Inl e
          | Inr (platformFee_v, managementFee_v, distributionAmount) \<Rightarrow>
             (case checked_add (distributionCounter (rd w)) 1 of
                Inl e \<Rightarrow> Inl e
              | Inr counter \<Rightarrow>
                 (case tokenAt w (propertyToToken (rd w) pid) of
                    None \<Rightarrow> Inl NoContractAtAddress
                  | Some fractionalToken \<Rightarrow>
                     (let distributionId = distributionCounter (rd w);
                          d = (distributions (rd w) distributionId)
                                \<lparr>dist_propertyId := pid,
                                 fractionalTokenAddress := propertyToToken (rd w) pid,
                                 dist_totalRentCollected := rentAmount,
                                 distributionDate := now,
                                 totalTokensAtDistribution := erc20_totalSupply fractionalToken,
                                 isCompleted := False,
                                 platformFee := platformFee_v,
                                 propertyOwnerFee := managementFee_v,
                                 dist_investors := getInvestors fractionalToken\<rparr>
                      in (case allocate_shares distributionAmount fractionalToken
                                 (getInvestors fractionalToken) d of
                        Inl e \<Rightarrow> Inl e
                      | Inr d1 \<Rightarrow>
                         (case transfer_fees pid platformFee_v managementFee_v
                                 (w\<lparr>rd := (rd w)\<lparr>distributionCounter := counter,
                                        distributions := (distributions (rd w))(distributionId := d1)\<rparr>\<rparr>) of
                            Inl e \<Rightarrow> Inl e
                          | Inr w1 \<Rightarrow>
                              Inr (w1, [DistributionCreated distributionId pid distributionAmount
                                          (length (getInvestors fractionalToken))])))))))))"

subsection \<open>Completion check, claimDistribution, batchDistribute\<close>

fun allClaimed_loop :: "Distribution \<Rightarrow> address list \<Rightarrow> bool" where
  "allClaimed_loop d [] = True"
| "allClaimed_loop d (a # as) =
     (if investorDistributions d a > 0 \<and> \<not> claimed d a then False
      else allClaimed_loop d as)"

definition checkDistributionCompletion :: "nat \<Rightarrow> RentDistribution \<Rightarrow> RentDistribution \<times> event list" where
  "checkDistributionCompletion distributionId r =
     (let d = distributions r distributionId;
          allClaimed = allClaimed_loop d (dist_investors d)
      in if allClaimed \<and> \<not> isCompleted d
         then (r\<lparr>distributions := (distributions r)(distributionId := d\<lparr>isCompleted := True\<rparr>)\<rparr>,
               [DistributionCompleted distributionId (totalDistributed d)])
         else (r, []))"

definition claimDistribution :: "address \<Rightarrow> nat \<Rightarrow> rd_world \<Rightarrow> error + rd_world \<times> event list" where
  "claimDistribution sender distributionId w =
     (let d = distributions (rd w) distributionId in
      if rd_paused (rd w) then Inl Paused
      else if \<not> \<not> isCompleted d then Inl DistributionCompletedAlready
      else if \<not> \<not> claimed d sender then Inl AlreadyClaimed
      else (let amt = investorDistributions d sender in
        if \<not> amt > 0 then Inl NoDistributionAvailable
        else (case checked_add (totalDistributed d) amt of
          Inl e \<Rightarrow> Inl e
        | Inr td \<Rightarrow>
           (let d1 = d\<lparr>claimed := (claimed d)(sender := True), totalDistributed := td\<rparr>;
                w1 = w\<lparr>rd := (rd w)\<lparr>distributions := (distributions (rd w))(distributionId := d1)\<rparr>\<rparr>
            in (case pay_transfer (rd_self (rd w1)) sender amt w1 of
              Inl e \<Rightarrow> Inl e
            | Inr w2 \<Rightarrow>
               (let (r, evs) = checkDistributionCompletion distributionId (rd w2)
                in Inr (w2\<lparr>rd := r\<rparr>, RentDistributed distributionId sender amt # evs)))))))"

fun batch_loop :: "nat \<Rightarrow> address list \<Rightarrow> rd_world \<Rightarrow> error + rd_world \<times> event list" where
  "batch_loop distributionId [] w = Inr (w, [])"
| "batch_loop distributionId (a # as) w =
     (let d = distributions (rd w) distributionId in
      if \<not> claimed d a then
        (let amt = investorDistributions d a in
         if amt > 0 then
           (case checked_add (totalDistributed d) amt of
              Inl e \<Rightarrow> Inl e
            | Inr td \<Rightarrow>
               (let d1 = d\<lparr>claimed := (claimed d)(a := True), totalDistributed := td\<rparr>;
                    w1 = w\<lparr>rd := (rd w)\<lparr>distributions := (distributions (rd w))(distributionId := d1)\<rparr>\<rparr>
                in (case pay_transfer (rd_self (rd w1)) a amt w1 of
                  Inl e \<Rightarrow> Inl e
                | Inr w2 \<Rightarrow>
                   (case batch_loop distributionId as w2 of
                      Inl e \<Rightarrow> Inl e
                    | Inr (w3, evs) \<Rightarrow> Inr (w3, RentDistributed distributionId a amt # evs)))))
         else batch_loop distributionId as w)
      else batch_loop distributionId as w)"

definition batchDistribute :: "address \<Rightarrow> nat \<Rightarrow> rd_world \<Rightarrow> error + rd_world \<times> event list" where
  "batchDistribute sender distributionId w =
     (let d = distributions (rd w) distributionId in
      if rd_owner (rd w) \<noteq> sender then Inl NotOwner
      else if rd_paused (rd w) then Inl Paused
      else if \<not> \<not> isCompleted d then Inl DistributionCompletedAlready
      else (case batch_loop distributionId (dist_investors d) w of
        Inl e \<Rightarrow> Inl e
      | Inr (w1, evs) \<Rightarrow>
         (let (r, evs') = checkDistributionCompletion distributionId (rd w1)
          in Inr (w1\<lparr>rd := r\<rparr>, evs @ evs'))))"

subsection \<open>Fees, pause, queries\<close>

definition updateFees :: "address \<Rightarrow> nat \<Rightarrow> nat \<Rightarrow> rd_world \<Rightarrow> error + rd_world \<times> event list" where
  "updateFees sender platformBP managementBP w =
     (if rd_owner (rd w) \<noteq> sender then Inl NotOwner
      else if \<not> platformBP \<le> 1000 then Inl PlatformFeeTooHigh
      else if \<not> managementBP \<le> 2000 then Inl ManagementFeeTooHigh
      else Inr (w\<lparr>rd := (rd w)\<lparr>platformFeePercentage := platformBP,
                               managementFeePercentage := managementBP\<rparr>\<rparr>,
                [FeesUpdated platformBP managementBP]))"

definition pause_rd :: "address \<Rightarrow> rd_world \<Rightarrow> error + rd_world" where
  "pause_rd sender w =
     (if rd_owner (rd w) \<noteq> sender then Inl NotOwner
      else if rd_paused (rd w) then Inl Paused
      else Inr (w\<lparr>rd := (rd w)\<lparr>rd_paused := True\<rparr>\<rparr>))"

definition emergencyWithdraw_rd :: "address \<Rightarrow> rd_world \<Rightarrow> error + rd_world" where
  "emergencyWithdraw_rd sender w =
     (if rd_owner (rd w) \<noteq> sender then Inl NotOwner
      else if \<not> eth w (rd_self (rd w)) > 0 then Inl NoBalanceToWithdraw
      else pay_transfer (rd_self (rd w)) (rd_owner (rd w)) (eth w (rd_self (rd w))) w)"

definition transferOwnership_rd :: "address \<Rightarrow> address \<Rightarrow> rd_world \<Rightarrow> error + rd_world" where
  \<comment> \<open>Modelled from the spec: \<open>Ownable.transferOwnership\<close> of the imported OpenZeppelin
      library; only the platform operator, the owner, may call it.\<close>
  "transferOwnership_rd sender newOwner w =
     (if rd_owner (rd w) \<noteq> sender then Inl NotOwner
      else if \<not> newOwner \<noteq> 0 then Inl NewOwnerIsZero
      else Inr (w\<lparr>rd := (rd w)\<lparr>rd_owner := newOwner\<rparr>\<rparr>))"

definition renounceOwnership_rd :: "address \<Rightarrow> rd_world \<Rightarrow> error + rd_world" where
  \<comment> \<open>Modelled from the spec: \<open>Ownable.renounceOwnership\<close> of the imported OpenZeppelin
      library; only the platform operator, the owner, may call it.\<close>
  "renounceOwnership_rd sender w =
     (if rd_owner (rd w) \<noteq> sender then Inl NotOwner
      else Inr (w\<lparr>rd := (rd w)\<lparr>rd_owner := 0\<rparr>\<rparr>))"

definition getInvestorDistribution :: "RentDistribution \<Rightarrow> nat \<Rightarrow> address \<Rightarrow> nat \<times> bool" where
  "getInvestorDistribution r distributionId a =
     (investorDistributions (distributions r distributionId) a,
      claimed (distributions r distributionId) a)"

definition getDistributionInvestors :: "RentDistribution \<Rightarrow> nat \<Rightarrow> address list" where
  "getDistributionInvestors r distributionId = dist_investors (distributions r distributionId)"

definition unpause_rd :: "address \<Rightarrow> rd_world \<Rightarrow> error + rd_world" where
  "unpause_rd sender w =
     (if rd_owner (rd w) \<noteq> sender then Inl NotOwner
      else if \<not> rd_paused (rd w) then Inl NotPaused
      else Inr (w\<lparr>rd := (rd w)\<lparr>rd_paused := False\<rparr>\<rparr>))"

section \<open>Transactions and reachable states\<close>

text \<open>
  A transaction is one external call of a public function. The caller of a transaction
  is never the called contract itself: neither contract calls its own public functions.
  Between two transactions the rest of the chain may change in any way (KYC entries,
  ether balances, the state of other contracts). ERC20's \<open>increaseAllowance\<close> and
  \<open>decreaseAllowance\<close> set the caller's own allowance as \<open>approve\<close> does with the
  resulting amount, and are covered by it.
\<close>

datatype ft_call =
    Purchase address nat nat nat
  | Sell address nat
  | Transfer address address nat
  | TransferFrom address address address nat
  | Approve address address nat
  | SetTokenStatus address bool
  | UpdatePrice address nat
  | WithdrawBalance address
  | EmergencyWithdrawToken address
  | PauseToken address
  | UnpauseToken address
  | TransferOwnershipToken address address
  | RenounceOwnershipToken address

fun ft_exec :: "ft_call \<Rightarrow> ft_world \<Rightarrow> error + ft_world" where
  "ft_exec (Purchase sender msg_value now tokenAmount) w = purchaseTokens sender msg_value now tokenAmount w"
| "ft_exec (Sell sender tokenAmount) w = sellTokens sender tokenAmount w"
| "ft_exec (Transfer sender dst amt) w = transfer sender dst amt w"
| "ft_exec (TransferFrom sender src dst amt) w = transferFrom sender src dst amt w"
| "ft_exec (Approve sender spender amt) w = approve sender spender amt w"
| "ft_exec (SetTokenStatus sender active) w = setTokenStatus sender active w"
| "ft_exec (UpdatePrice sender newPrice) w = updatePrice sender newPrice w"
| "ft_exec (WithdrawBalance sender) w = withdrawBalance sender w"
| "ft_exec (EmergencyWithdrawToken sender) w = emergencyWithdraw_token sender w"
| "ft_exec (PauseToken sender) w = pause_token sender w"
| "ft_exec (UnpauseToken sender) w = unpause_token sender w"
| "ft_exec (TransferOwnershipToken sender newOwner) w = transferOwnership_token sender newOwner w"
| "ft_exec (RenounceOwnershipToken sender) w = renounceOwnership_token sender w"

fun ft_sender :: "ft_call \<Rightarrow> address" where
  "ft_sender (Purchase sender _ _ _) = sender"
| "ft_sender (Sell sender _) = sender"
| "ft_sender (Transfer sender _ _) = sender"
| "ft_sender (TransferFrom sender _ _ _) = sender"
| "ft_sender (Approve sender _ _) = sender"
| "ft_sender (SetTokenStatus sender _) = sender"
| "ft_sender (UpdatePrice sender _) = sender"
| "ft_sender (WithdrawBalance sender) = sender"
| "ft_sender (EmergencyWithdrawToken sender) = sender"
| "ft_sender (PauseToken sender) = sender"
| "ft_sender (UnpauseToken sender) = sender"
| "ft_sender (TransferOwnershipToken sender _) = sender"
| "ft_sender (RenounceOwnershipToken sender) = sender"

fun ft_recipient :: "ft_call \<Rightarrow> address option" where
  "ft_recipient (Transfer _ dst _) = Some dst"
| "ft_recipient (TransferFrom _ _ dst _) = Some dst"
| "ft_recipient _ = None"

text \<open>
  \<open>ft_step toContract\<close> is one step of a FractionalToken world. With
  \<open>toContract = False\<close> the ERC20 transfers whose recipient is the token contract's own
  address are left out.
\<close>

inductive ft_step :: "bool \<Rightarrow> ft_world \<Rightarrow> ft_world \<Rightarrow> bool"
  for toContract :: bool where
  ft_environment: "ft_step toContract w (w\<lparr>nft := n, eth := e, canReceive := c\<rparr>)"
| ft_transaction:
    "ft_sender c \<noteq> ft_self (tok w) \<Longrightarrow>
     toContract \<or> ft_recipient c \<noteq> Some (ft_self (tok w)) \<Longrightarrow>
     ft_exec c w = Inr w' \<Longrightarrow> ft_step toContract w w'"

inductive ft_reachable :: "bool \<Rightarrow> nat \<Rightarrow> ft_world \<Rightarrow> bool"
  for toContract :: bool and minted :: nat where
  ft_deployed:
    "constructor_FractionalToken self deployer now pid minted price = Inr s \<Longrightarrow>
     ft_reachable toContract minted \<lparr>nft = n, eth = e, canReceive = c, tok = s\<rparr>"
| ft_stepped:
    "ft_reachable toContract minted w \<Longrightarrow> ft_step toContract w w' \<Longrightarrow>
     ft_reachable toContract minted w'"

datatype rd_call =
    Register address nat address
  | Deposit address nat nat
  | Create address nat nat nat
  | Claim address nat
  | Batch address nat
  | UpdateFees address nat nat
  | EmergencyWithdrawRD address
  | PauseRD address
  | UnpauseRD address
  | TransferOwnershipRD address address
  | RenounceOwnershipRD address

fun rd_exec :: "rd_call \<Rightarrow> rd_world \<Rightarrow> error + rd_world \<times> event list" where
  "rd_exec (Register sender pid tokenAddress) w =
     (case registerFractionalToken sender pid tokenAddress w of
        Inl e \<Rightarrow> Inl e | Inr w' \<Rightarrow> Inr (w', []))"
| "rd_exec (Deposit sender msg_value pid) w = depositRent sender msg_value pid w"
| "rd_exec (Create sender now pid rentAmount) w = createDistribution sender now pid rentAmount w"
| "rd_exec (Claim sender distributionId) w = claimDistribution sender distributionId w"
| "rd_exec (Batch sender distributionId) w = batchDistribute sender distributionId w"
| "rd_exec (UpdateFees sender platformBP managementBP) w = updateFees sender platformBP managementBP w"
| "rd_exec (PauseRD sender) w =
     (case pause_rd sender w of Inl e \<Rightarrow> Inl e | Inr w' \<Rightarrow> Inr (w', []))"
| "rd_exec (UnpauseRD sender) w =
     (case unpause_rd sender w of Inl e \<Rightarrow> Inl e | Inr w' \<Rightarrow> Inr (w', []))"
| "rd_exec (EmergencyWithdrawRD sender) w =
     (case emergencyWithdraw_rd sender w of Inl e \<Rightarrow> Inl e | Inr w' \<Rightarrow> Inr (w', []))"
| "rd_exec (TransferOwnershipRD sender newOwner) w =
     (case transferOwnership_rd sender newOwner w of Inl e \<Rightarrow> Inl e | Inr w' \<Rightarrow> Inr (w', []))"
| "rd_exec (RenounceOwnershipRD sender) w =
     (case renounceOwnership_rd sender w of Inl e \<Rightarrow> Inl e | Inr w' \<Rightarrow> Inr (w', []))"

inductive rd_step :: "rd_world \<Rightarrow> rd_world \<Rightarrow> bool" where
  rd_environment: "rd_step w (w\<lparr>nft := n, eth := e, canReceive := c, tokenAt := ts\<rparr>)"
| rd_transaction: "rd_exec c w = Inr (w', evs) \<Longrightarrow> rd_step w w'"

inductive rd_reachable :: "rd_world \<Rightarrow> bool" where
  rd_deployed:
    "rd_reachable \<lparr>nft = n, eth = e, canReceive = c, tokenAt = ts,
                   rd = constructor_RentDistribution self deployer\<rparr>"
| rd_stepped: "rd_reachable w \<Longrightarrow> rd_step w w' \<Longrightarrow> rd_reachable w'"

section \<open>The properties\<close>

subsection \<open>Share supply\<close>

definition holderBalances :: "FractionalToken \<Rightarrow> nat" where
  \<comment> \<open>the shares held by everyone but the contract itself\<close>
  "holderBalances s = sum (balances s) (UNIV - {ft_self s})"

definition conservation :: "FractionalToken \<Rightarrow> bool" where
  "conservation s \<longleftrightarrow>
     holderBalances s + availableSupply (tokenInfo s) = totalSupply (tokenInfo s)"

definition erc20_inv :: "FractionalToken \<Rightarrow> bool" where
  \<comment> \<open>the balances sum to the minted supply; the investor registry has no duplicates\<close>
  "erc20_inv s \<longleftrightarrow>
     sum (balances s) UNIV = erc20_totalSupply s \<and>
     distinct (investors s) \<and>
     (\<forall>a. isInvestor s a = (a \<in> set (investors s)))"

definition ft_inv :: "FractionalToken \<Rightarrow> bool" where
  \<comment> \<open>the unsold shares are exactly the contract's own balance\<close>
  "ft_inv s \<longleftrightarrow>
     erc20_inv s \<and>
     erc20_totalSupply s = totalSupply (tokenInfo s) \<and>
     balances s (ft_self s) = availableSupply (tokenInfo s) \<and>
     (\<forall>x. allowances s (ft_self s) x = 0) \<and>
     ft_self s \<noteq> 0"

subsection \<open>Distributions\<close>

definition netAmount :: "Distribution \<Rightarrow> nat" where
  \<comment> \<open>the amount to distribute: the contract emits it in \<open>DistributionCreated\<close> and
      stores only the gross amount and the two fees\<close>
  "netAmount d = dist_totalRentCollected d - platformFee d - propertyOwnerFee d"

definition allocated :: "Distribution \<Rightarrow> nat" where
  "allocated d = sum_list (map (investorDistributions d) (dist_investors d))"

definition dust :: "Distribution \<Rightarrow> nat" where
  "dust d = netAmount d - allocated d"

definition holders_with_allocation :: "Distribution \<Rightarrow> address list" where
  "holders_with_allocation d = filter (\<lambda>a. investorDistributions d a > 0) (dist_investors d)"

definition holders_with_balance :: "FractionalToken \<Rightarrow> address list" where
  "holders_with_balance t = filter (\<lambda>a. balanceOf t a > 0) (investors t)"

definition registered_shares :: "FractionalToken \<Rightarrow> nat" where
  \<comment> \<open>the shares held by the registered investors\<close>
  "registered_shares t = sum_list (map (balanceOf t) (investors t))"

definition all_allocations_claimed :: "Distribution \<Rightarrow> bool" where
  "all_allocations_claimed d \<longleftrightarrow> (\<forall>a. investorDistributions d a > 0 \<longrightarrow> claimed d a)"

definition dist_inv :: "Distribution \<Rightarrow> bool" where
  \<comment> \<open>only listed investors have an allocation\<close>
  "dist_inv d \<longleftrightarrow> (\<forall>a. investorDistributions d a > 0 \<longrightarrow> a \<in> set (dist_investors d))"

definition rd_inv :: "RentDistribution \<Rightarrow> bool" where
  \<comment> \<open>created distributions are well formed; the slots from the counter on are unwritten,
      but for the completion flag that \<open>batchDistribute\<close> sets on any id\<close>
  "rd_inv r \<longleftrightarrow>
     (\<forall>i. dist_inv (distributions r i)) \<and>
     (\<forall>i. distributionCounter r \<le> i \<longrightarrow>
        (distributions r i)\<lparr>isCompleted := False\<rparr> = empty_Distribution)"

definition paid_to :: "address \<Rightarrow> nat \<Rightarrow> event list \<Rightarrow> nat list" where
  \<comment> \<open>the amounts of the \<open>RentDistributed\<close> events of a distribution for one investor\<close>
  "paid_to a distributionId evs =
     concat (map (\<lambda>ev. case ev of
        RentDistributed i b v \<Rightarrow> if i = distributionId \<and> b = a then [v] else []
      | _ \<Rightarrow> []) evs)"

section \<open>Concrete worlds\<close>

text \<open>
  Property 0 has 1000 shares at 2 wei each; property 7 belongs to a second manager. The token contract owns the
  PropertyNFT contract, as \<open>updateAvailableTokens\<close> demands of its caller.
\<close>

definition addr_operator :: address where "addr_operator = 1"
definition addr_manager :: address where "addr_manager = 2"
definition addr_manager2 :: address where "addr_manager2 = 3"
definition addr_A :: address where "addr_A = 10"
definition addr_B :: address where "addr_B = 11"
definition addr_rent :: address where "addr_rent = 16"
definition addr_token :: address where "addr_token = 32"

definition scn_nft :: PropertyNFT where
  "scn_nft = \<lparr>nft_owner = addr_token, nft_paused = False,
              kycVerified = (\<lambda>a. a = addr_A \<or> a = addr_B),
              property_exists = (\<lambda>p. p = 0 \<or> p = 7),
              propertyOwner = (\<lambda>p. if p = 0 then addr_manager else addr_manager2),
              totalValue = (\<lambda>_. 2000),
              availableTokens = (\<lambda>_. 1000),
              tokenPrice = (\<lambda>_. 2)\<rparr>"

definition scn_eth :: "address \<Rightarrow> nat" where
  "scn_eth = (\<lambda>a. if a = addr_A \<or> a = addr_B \<or> a = addr_manager \<or> a = addr_manager2
                  then 5000 else 0)"

definition scn_deployed :: ft_world where
  "scn_deployed = \<lparr>nft = scn_nft, eth = scn_eth, canReceive = (\<lambda>_. True),
                   tok = projr (constructor_FractionalToken addr_token addr_operator 0 0 1000 2)\<rparr>"

definition scn_A600 :: ft_world where
  \<comment> \<open>A has bought 600 shares\<close>
  "scn_A600 = projr (purchaseTokens addr_A 1200 100 600 scn_deployed)"

definition scn_sold_out :: ft_world where
  \<comment> \<open>then B has bought the other 400\<close>
  "scn_sold_out = projr (purchaseTokens addr_B 800 200 400 scn_A600)"

definition scn_A100 :: ft_world where
  \<comment> \<open>A has bought 100 shares, 900 are unsold\<close>
  "scn_A100 = projr (purchaseTokens addr_A 200 100 100 scn_deployed)"

definition scn_contract_kyc :: ft_world where
  \<comment> \<open>the address of the token contract itself gets a KYC entry\<close>
  "scn_contract_kyc =
     scn_sold_out\<lparr>nft := (nft scn_sold_out)\<lparr>kycVerified :=
                      (\<lambda>a. a = addr_A \<or> a = addr_B \<or> a = addr_token)\<rparr>,
                   eth := eth scn_sold_out, canReceive := canReceive scn_sold_out\<rparr>"

definition scn_sent_to_contract :: ft_world where
  \<comment> \<open>then A transfers 50 shares to the token contract\<close>
  "scn_sent_to_contract = projr (transfer addr_A addr_token 50 scn_contract_kyc)"

definition snapshot :: "Distribution \<Rightarrow> Distribution" where
  \<comment> \<open>what a distribution keeps for life: everything but the claim bookkeeping\<close>
  "snapshot d = d\<lparr>claimed := (\<lambda>_. False), totalDistributed := 0, isCompleted := False\<rparr>"

text \<open>
  The RentDistribution contract beside a token in state \<open>t\<close>: deployed by the operator,
  the token registered for property 0, and 1000 wei of rent deposited by the manager.
\<close>

definition scn_rent_deployed :: "FractionalToken \<Rightarrow> rd_world" where
  "scn_rent_deployed t =
     \<lparr>nft = scn_nft, eth = scn_eth, canReceive = (\<lambda>_. True),
      tokenAt = (\<lambda>a. if a = addr_token then Some t else None),
      rd = constructor_RentDistribution addr_rent addr_operator\<rparr>"

definition scn_registered :: "FractionalToken \<Rightarrow> rd_world" where
  "scn_registered t = projr (registerFractionalToken addr_operator 0 addr_token (scn_rent_deployed t))"

definition scn_funded :: "FractionalToken \<Rightarrow> rd_world" where
  "scn_funded t = fst (projr (depositRent addr_manager 1000 0 (scn_registered t)))"

definition scnA_created :: rd_world where
  \<comment> \<open>Scenario A: a distribution of 1000 when A holds 600 and B holds 400\<close>
  "scnA_created =
     fst (projr (createDistribution addr_manager 300 0 1000 (scn_funded (tok scn_sold_out))))"

definition scnA_claimedA :: rd_world where
  "scnA_claimedA = fst (projr (claimDistribution addr_A 0 scnA_created))"

definition scnA_claimedAB :: rd_world where
  "scnA_claimedAB = fst (projr (claimDistribution addr_B 0 scnA_claimedA))"

definition scnU_created :: rd_world where
  \<comment> \<open>a distribution of 1000 when A holds 100 shares and 900 are unsold\<close>
  "scnU_created =
     fst (projr (createDistribution addr_manager 300 0 1000 (scn_funded (tok scn_A100))))"

definition scnS_created :: rd_world where
  \<comment> \<open>a distribution of 1 wei when A holds 600 and B holds 400\<close>
  "scnS_created =
     fst (projr (createDistribution addr_manager 300 0 1 (scn_funded (tok scn_sold_out))))"

definition scnA_batched :: rd_world where
  \<comment> \<open>Scenario A, where after A's claim the operator runs \<open>batchDistribute\<close>\<close>
  "scnA_batched = fst (projr (batchDistribute addr_operator 0 scnA_claimedA))"

definition scnA_batch_all :: rd_world where
  \<comment> \<open>Scenario A, where nobody has claimed and the operator runs \<open>batchDistribute\<close>\<close>
  "scnA_batch_all = fst (projr (batchDistribute addr_operator 0 scnA_created))"

definition scn_paused :: ft_world where
  \<comment> \<open>the sold-out token, paused by its owner\<close>
  "scn_paused = projr (pause_token addr_operator scn_sold_out)"

definition scn_rd_paused :: rd_world where
  \<comment> \<open>Scenario A after creation, the RentDistribution contract paused by its owner\<close>
  "scn_rd_paused = projr (pause_rd addr_operator scnA_created)"

definition scn_inactive :: ft_world where
  \<comment> \<open>the sold-out token, set inactive by the property owner\<close>
  "scn_inactive = projr (setTokenStatus addr_manager False scn_sold_out)"

definition scn_sold_inactive :: ft_world where
  \<comment> \<open>then A sells 10 shares back\<close>
  "scn_sold_inactive = projr (sellTokens addr_A 10 scn_inactive)"

text \<open>
  Two properties: property 0 with the sold-out token, property 7 (owned by the second
  manager) with a token of its own, of 500 shares at 3 wei, all bought by B while that
  token contract owned the PropertyNFT contract. Rent is deposited for property 0 only.
\<close>

definition addr_token2 :: address where "addr_token2 = 33"

definition scn2_token_deployed :: ft_world where
  "scn2_token_deployed =
     \<lparr>nft = scn_nft\<lparr>nft_owner := addr_token2\<rparr>, eth = scn_eth, canReceive = (\<lambda>_. True),
      tok = projr (constructor_FractionalToken addr_token2 addr_operator 0 7 500 3)\<rparr>"

definition scn2_token_sold :: ft_world where
  "scn2_token_sold = projr (purchaseTokens addr_B 1500 100 500 scn2_token_deployed)"

definition scn2_token :: FractionalToken where
  "scn2_token = tok scn2_token_sold"

definition scn2_deployed :: rd_world where
  "scn2_deployed =
     \<lparr>nft = scn_nft, eth = scn_eth, canReceive = (\<lambda>_. True),
      tokenAt = (\<lambda>a. if a = addr_token then Some (tok scn_sold_out)
                      else if a = addr_token2 then Some scn2_token else None),
      rd = constructor_RentDistribution addr_rent addr_operator\<rparr>"

definition scn2_registered0 :: rd_world where
  "scn2_registered0 = projr (registerFractionalToken addr_operator 0 addr_token scn2_deployed)"

definition scn2_registered :: rd_world where
  "scn2_registered = projr (registerFractionalToken addr_operator 7 addr_token2 scn2_registered0)"

definition scn2_funded :: rd_world where
  "scn2_funded = fst (projr (depositRent addr_manager 1000 0 scn2_registered))"

definition scn2_created :: rd_world where
  \<comment> \<open>the owner of property 7 distributes 1000\<close>
  "scn2_created = fst (projr (createDistribution addr_manager2 300 7 1000 scn2_funded))"

definition scn2_claimed :: rd_world where
  \<comment> \<open>and B claims its allocation\<close>
  "scn2_claimed = fst (projr (claimDistribution addr_B 0 scn2_created))"

definition scn_drained :: ft_world where
  \<comment> \<open>the sold-out token after the ether of the contract has been withdrawn\<close>
  "scn_drained =
     scn_sold_out\<lparr>nft := nft scn_sold_out, eth := (eth scn_sold_out)(addr_token := 0),
                  canReceive := canReceive scn_sold_out\<rparr>"

definition with_totalRentCollected :: "(nat \<Rightarrow> nat) \<Rightarrow> rd_world \<Rightarrow> rd_world" where
  \<comment> \<open>the same world with another per-property table of rent collected\<close>
  "with_totalRentCollected f w = w\<lparr>rd := (rd w)\<lparr>totalRentCollected := f\<rparr>\<rparr>"

definition scn_precompleted :: rd_world where
  \<comment> \<open>\<open>batchDistribute\<close> run on id 0 before any distribution exists\<close>
  "scn_precompleted = fst (projr (batchDistribute addr_operator 0 (scn_funded (tok scn_sold_out))))"

definition scn_precompleted_created :: rd_world where
  \<comment> \<open>then distribution 0 is created\<close>
  "scn_precompleted_created =
     fst (projr (createDistribution addr_manager 300 0 1000 scn_precompleted))"

definition scn_precompleted_batched :: rd_world where
  \<comment> \<open>then \<open>batchDistribute\<close> is run on it\<close>
  "scn_precompleted_batched =
     fst (projr (batchDistribute addr_operator 0 scn_precompleted_created))"

definition scn_sold_back :: ft_world where
  \<comment> \<open>the sold-out token after A has sold 50 shares back\<close>
  "scn_sold_back = projr (sellTokens addr_A 50 scn_sold_out)"

section \<open>FractionalToken: the share supply\<close>

subsection \<open>Sums of balances\<close>

lemma sum_fun_upd_nat:
  fixes f :: "'a \<Rightarrow> nat"
  assumes "finite A" "x \<in> A"
  shows "sum (f(x := v)) A = sum f (A - {x}) + v"
proof -
  have "sum (f(x := v)) A = (f(x := v)) x + sum (f(x := v)) (A - {x})"
    using assms by (rule sum.remove)
  also have "sum (f(x := v)) (A - {x}) = sum f (A - {x})"
    by (rule sum.cong) auto
  finally show ?thesis by simp
qed

lemma sum_split_nat:
  fixes f :: "'a \<Rightarrow> nat"
  assumes "finite A" "x \<in> A"
  shows "sum f A = sum f (A - {x}) + f x"
  using sum.remove [OF assms, of f] by simp

lemma sum_move_nat:
  fixes f :: "'a \<Rightarrow> nat"
  assumes "finite A" "x \<in> A" "y \<in> A" "amt \<le> f x"
  shows "sum ((f(x := f x - amt))(y := (f(x := f x - amt)) y + amt)) A = sum f A"
proof -
  let ?g = "f(x := f x - amt)"
  have g: "sum ?g A + amt = sum f A"
    using sum_fun_upd_nat [OF assms(1,2), of f "f x - amt"] sum_split_nat [OF assms(1,2), of f] assms(4)
    by simp
  have "sum (?g(y := ?g y + amt)) A = sum ?g (A - {y}) + (?g y + amt)"
    by (rule sum_fun_upd_nat [OF assms(1,3)])
  also have "\<dots> = sum ?g A + amt"
    using sum_split_nat [OF assms(1,3), of ?g] by simp
  finally show ?thesis using g by simp
qed

subsection \<open>The token operations, step by step\<close>

lemma ERC20_transfer_fields:
  assumes "ERC20_transfer src dst amt s = Inr s'"
  shows "s' = s\<lparr>balances := balances s'\<rparr>" "amt \<le> balances s src" "src \<noteq> 0" "dst \<noteq> 0"
    "balances s' = ((balances s)(src := balances s src - amt))
              (dst := ((balances s)(src := balances s src - amt)) dst + amt)"
  using assms by (auto simp: ERC20_transfer_def Let_def split: if_splits)

lemma ERC20_transfer_sum:
  assumes "ERC20_transfer src dst amt s = Inr s'"
  shows "sum (balances s') UNIV = sum (balances s) UNIV"
  unfolding ERC20_transfer_fields(5) [OF assms]
  by (rule sum_move_nat) (use ERC20_transfer_fields(2) [OF assms] in auto)

lemma ERC20_transfer_erc20_inv:
  assumes "ERC20_transfer src dst amt s = Inr s'" "erc20_inv s"
  shows "erc20_inv s'"
proof -
  have s': "s' = s\<lparr>balances := balances s'\<rparr>" by (rule ERC20_transfer_fields(1) [OF assms(1)])
  show ?thesis
    using assms(2) ERC20_transfer_sum [OF assms(1)]
    by (subst s') (simp add: erc20_inv_def)
qed

lemma ERC20_spendAllowance_fields:
  assumes "ERC20_spendAllowance holder spender amt s = Inr s'"
  shows "s' = s\<lparr>allowances := allowances s'\<rparr>"
    "allowances s holder spender \<noteq> MAX_UINT256 \<Longrightarrow> amt \<le> allowances s holder spender"
    "\<And>x. allowances s holder x = 0 \<Longrightarrow> allowances s' holder x = 0"
    "\<And>h x. h \<noteq> holder \<Longrightarrow> allowances s' h x = allowances s h x"
  using assms by (auto simp: ERC20_spendAllowance_def split: if_splits)

lemma record_investment_fields:
  "ft_self (record_investment sender amt now s) = ft_self s"
  "balances (record_investment sender amt now s) = balances s"
  "allowances (record_investment sender amt now s) = allowances s"
  "erc20_totalSupply (record_investment sender amt now s) = erc20_totalSupply s"
  "tokenInfo (record_investment sender amt now s) = tokenInfo s"
  by (simp_all add: record_investment_def Let_def)

lemma record_investment_erc20_inv:
  "erc20_inv s \<Longrightarrow> erc20_inv (record_investment sender amt now s)"
  by (auto simp: erc20_inv_def record_investment_def Let_def)

lemma pay_transfer_tok: "pay_transfer a b v w = Inr w' \<Longrightarrow> tok w' = tok w"
  by (auto simp: pay_transfer_def split: if_splits)

lemma receive_value_tok: "receive_value a b v w = Inr w' \<Longrightarrow> tok w' = tok w"
  by (auto simp: receive_value_def split: if_splits)

lemma purchaseTokens_tok:
  assumes "purchaseTokens sender v now amt w = Inr w'"
  shows "\<exists>s2 ti. amt \<le> availableSupply (tokenInfo (tok w)) \<and>
           ERC20_transfer (ft_self (tok w)) sender amt
             ((tok w)\<lparr>tokenInfo := (tokenInfo (tok w))\<lparr>availableSupply :=
                 availableSupply (tokenInfo (tok w)) - amt\<rparr>\<rparr>) = Inr s2 \<and>
           tok w' = (record_investment sender amt now s2)\<lparr>totalInvested := ti\<rparr>"
  using assms
  by (auto simp: purchaseTokens_def Let_def dest!: receive_value_tok pay_transfer_tok
      split: sum.splits if_splits)

lemma sellTokens_tok:
  assumes "sellTokens sender amt w = Inr w'"
  shows "\<exists>s1. ERC20_transfer sender (ft_self (tok w)) amt (tok w) = Inr s1 \<and>
           tok w' = s1\<lparr>tokenInfo := (tokenInfo s1)\<lparr>availableSupply :=
                 availableSupply (tokenInfo s1) + amt\<rparr>\<rparr>"
  using assms
  by (auto simp: sellTokens_def Let_def checked_add_def dest!: pay_transfer_tok
      split: sum.splits if_splits)

lemma transfer_tok:
  assumes "transfer sender dst amt w = Inr w'"
  shows "ERC20_transfer sender dst amt (tok w) = Inr (tok w')"
  using assms by (auto simp: transfer_def split: sum.splits if_splits)

lemma transferFrom_tok:
  assumes "transferFrom sender src dst amt w = Inr w'"
  shows "\<exists>s1. ERC20_spendAllowance src sender amt (tok w) = Inr s1 \<and>
           ERC20_transfer src dst amt s1 = Inr (tok w')"
  using assms by (auto simp: transferFrom_def split: sum.splits if_splits)

subsection \<open>The ERC20 invariant holds in every reachable state\<close>

lemma erc20_inv_upd:
  "erc20_inv (s\<lparr>tokenInfo := ti\<rparr>) = erc20_inv s"
  "erc20_inv (s\<lparr>totalInvested := n\<rparr>) = erc20_inv s"
  "erc20_inv (s\<lparr>allowances := al\<rparr>) = erc20_inv s"
  "erc20_inv (s\<lparr>ft_paused := p\<rparr>) = erc20_inv s"
  "erc20_inv (s\<lparr>ft_owner := o'\<rparr>) = erc20_inv s"
  by (simp_all add: erc20_inv_def)

lemma ft_exec_erc20_inv:
  assumes "ft_exec c w = Inr w'" "erc20_inv (tok w)"
  shows "erc20_inv (tok w')"
proof (cases c)
  case (Purchase sender v now amt)
  with assms(1) obtain s2 ti where
    t: "ERC20_transfer (ft_self (tok w)) sender amt
             ((tok w)\<lparr>tokenInfo := (tokenInfo (tok w))\<lparr>availableSupply :=
                 availableSupply (tokenInfo (tok w)) - amt\<rparr>\<rparr>) = Inr s2"
    and w': "tok w' = (record_investment sender amt now s2)\<lparr>totalInvested := ti\<rparr>"
    using purchaseTokens_tok by fastforce
  have "erc20_inv s2"
    by (rule ERC20_transfer_erc20_inv [OF t]) (simp add: erc20_inv_upd assms(2))
  then show ?thesis by (simp add: w' erc20_inv_upd record_investment_erc20_inv)
next
  case (Sell sender amt)
  with assms(1) obtain s1 where
    t: "ERC20_transfer sender (ft_self (tok w)) amt (tok w) = Inr s1"
    and w': "tok w' = s1\<lparr>tokenInfo := (tokenInfo s1)\<lparr>availableSupply :=
                 availableSupply (tokenInfo s1) + amt\<rparr>\<rparr>"
    using sellTokens_tok by fastforce
  show ?thesis using ERC20_transfer_erc20_inv [OF t assms(2)] by (simp add: w' erc20_inv_upd)
next
  case (Transfer sender dst amt)
  with assms(1) have "ERC20_transfer sender dst amt (tok w) = Inr (tok w')"
    using transfer_tok by simp
  then show ?thesis using assms(2) by (rule ERC20_transfer_erc20_inv)
next
  case (TransferFrom sender src dst amt)
  with assms(1) obtain s1 where
    a: "ERC20_spendAllowance src sender amt (tok w) = Inr s1"
    and t: "ERC20_transfer src dst amt s1 = Inr (tok w')"
    using transferFrom_tok by fastforce
  have "erc20_inv s1"
    using assms(2) by (subst ERC20_spendAllowance_fields(1) [OF a]) (simp add: erc20_inv_upd)
  with t show ?thesis by (rule ERC20_transfer_erc20_inv)
next
  case (Approve sender spender amt)
  with assms show ?thesis
    by (auto simp: approve_def Let_def erc20_inv_upd split: if_splits)
next
  case (SetTokenStatus sender active)
  with assms show ?thesis
    by (auto simp: setTokenStatus_def erc20_inv_upd split: if_splits sum.splits)
next
  case (PauseToken sender)
  with assms show ?thesis
    by (auto simp: pause_token_def erc20_inv_upd split: if_splits)
next
  case (UnpauseToken sender)
  with assms show ?thesis
    by (auto simp: unpause_token_def erc20_inv_upd split: if_splits)
next
  case (UpdatePrice sender newPrice)
  with assms show ?thesis
    by (auto simp: updatePrice_def Let_def erc20_inv_upd split: if_splits sum.splits)
next
  case (WithdrawBalance sender)
  with assms show ?thesis
    by (auto simp: withdrawBalance_def split: if_splits sum.splits dest!: pay_transfer_tok)
next
  case (EmergencyWithdrawToken sender)
  with assms show ?thesis
    by (auto simp: emergencyWithdraw_token_def split: if_splits dest!: pay_transfer_tok)
next
  case (TransferOwnershipToken sender newOwner)
  with assms show ?thesis
    by (auto simp: transferOwnership_token_def erc20_inv_upd split: if_splits)
next
  case (RenounceOwnershipToken sender)
  with assms show ?thesis
    by (auto simp: renounceOwnership_token_def erc20_inv_upd split: if_splits)
qed

lemma constructor_FractionalToken_fields:
  assumes "constructor_FractionalToken self deployer now pid minted price = Inr s"
  shows "self \<noteq> 0" "ft_self s = self" "balances s = (\<lambda>_. 0)(self := minted)"
    "erc20_totalSupply s = minted" "allowances s = (\<lambda>_ _. 0)" "investors s = []"
    "isInvestor s = (\<lambda>_. False)"
    "tokenInfo s = \<lparr>totalSupply = minted, availableSupply = minted, pricePerToken = price,
                     isActive = True, createdAt = now\<rparr>"
    "ft_paused s = False" "ft_owner s = deployer" "propertyId s = pid"
  using assms
  by (auto simp: constructor_FractionalToken_def ERC20_mint_def checked_add_def
      split: if_splits)

lemma sum_single_nat:
  fixes v :: nat
  shows "sum ((\<lambda>_. 0)(x := v)) (UNIV :: address set) = v"
  using sum_fun_upd_nat [of UNIV x "\<lambda>_. 0::nat" v] by simp

lemma constructor_FractionalToken_inv:
  assumes "constructor_FractionalToken self deployer now pid minted price = Inr s"
  shows "ft_inv s" "totalSupply (tokenInfo s) = minted"
  using constructor_FractionalToken_fields [OF assms]
  by (simp_all add: ft_inv_def erc20_inv_def sum_single_nat)

lemma ft_reachable_erc20_inv:
  assumes "ft_reachable toContract minted w"
  shows "erc20_inv (tok w)"
  using assms
proof (induction rule: ft_reachable.induct)
  case (ft_deployed self deployer now pid price s n e c)
  then show ?case using constructor_FractionalToken_inv(1) by (simp add: ft_inv_def)
next
  case (ft_stepped w w')
  from ft_stepped(2,3) show ?case
    by (cases rule: ft_step.cases) (auto intro: ft_exec_erc20_inv)
qed

subsection \<open>Conservation of the share supply\<close>

lemma ft_inv_conservation: "ft_inv s \<Longrightarrow> conservation s"
  unfolding ft_inv_def erc20_inv_def conservation_def holderBalances_def
  using sum_split_nat [of UNIV "ft_self s" "balances s"] by simp

lemma ft_inv_upd:
  "ft_inv (s\<lparr>totalInvested := n\<rparr>) = ft_inv s"
  "ft_inv (s\<lparr>ft_paused := p\<rparr>) = ft_inv s"
  "ft_inv (s\<lparr>tokenInfo := (tokenInfo s)\<lparr>isActive := b\<rparr>\<rparr>) = ft_inv s"
  "ft_inv (s\<lparr>tokenInfo := (tokenInfo s)\<lparr>pricePerToken := q\<rparr>\<rparr>) = ft_inv s"
  "ft_inv (s\<lparr>ft_owner := o'\<rparr>) = ft_inv s"
  by (simp_all add: ft_inv_def erc20_inv_def)

lemma record_investment_ft_inv:
  "ft_inv s \<Longrightarrow> ft_inv (record_investment sender amt now s)"
  by (simp add: ft_inv_def record_investment_fields record_investment_erc20_inv)

lemma ERC20_transfer_inv_out:
  assumes inv: "ft_inv s" and amt: "amt \<le> availableSupply (tokenInfo s)"
    and ne: "dst \<noteq> ft_self s"
    and t: "ERC20_transfer (ft_self s) dst amt
             (s\<lparr>tokenInfo := (tokenInfo s)\<lparr>availableSupply := availableSupply (tokenInfo s) - amt\<rparr>\<rparr>) = Inr s'"
  shows "ft_inv s'" "totalSupply (tokenInfo s') = totalSupply (tokenInfo s)" "ft_self s' = ft_self s"
proof -
  let ?s1 = "s\<lparr>tokenInfo := (tokenInfo s)\<lparr>availableSupply := availableSupply (tokenInfo s) - amt\<rparr>\<rparr>"
  note f = ERC20_transfer_fields [OF t]
  have sm: "sum (balances s') UNIV = sum (balances s) UNIV"
    using ERC20_transfer_sum [OF t] by simp
  have s': "s' = ?s1\<lparr>balances := balances s'\<rparr>" by (rule f(1))
  have self: "balances s' (ft_self s) = balances s (ft_self s) - amt"
    using f(5) ne by simp
  show "ft_inv s'"
    using inv sm self ne
    by (subst s') (simp add: ft_inv_def erc20_inv_def)
  show "totalSupply (tokenInfo s') = totalSupply (tokenInfo s)" by (subst s') simp
  show "ft_self s' = ft_self s" by (subst s') simp
qed

lemma ERC20_transfer_inv_in:
  assumes inv: "ft_inv s" and ne: "src \<noteq> ft_self s"
    and t: "ERC20_transfer src (ft_self s) amt s = Inr s1"
  shows "ft_inv (s1\<lparr>tokenInfo := (tokenInfo s1)\<lparr>availableSupply :=
                 availableSupply (tokenInfo s1) + amt\<rparr>\<rparr>)"
    "totalSupply (tokenInfo s1) = totalSupply (tokenInfo s)" "ft_self s1 = ft_self s"
proof -
  note f = ERC20_transfer_fields [OF t]
  have sm: "sum (balances s1) UNIV = sum (balances s) UNIV"
    using ERC20_transfer_sum [OF t] by simp
  have s1: "s1 = s\<lparr>balances := balances s1\<rparr>" by (rule f(1))
  have self: "balances s1 (ft_self s) = balances s (ft_self s) + amt"
    using f(5) ne by simp
  show "ft_inv (s1\<lparr>tokenInfo := (tokenInfo s1)\<lparr>availableSupply :=
                 availableSupply (tokenInfo s1) + amt\<rparr>\<rparr>)"
    using inv sm self ne
    by (subst s1, subst (2) s1, subst (3) s1) (simp add: ft_inv_def erc20_inv_def)
  show "totalSupply (tokenInfo s1) = totalSupply (tokenInfo s)"
    by (subst s1) simp
  show "ft_self s1 = ft_self s" by (subst s1) simp
qed

lemma ERC20_transfer_inv_between:
  assumes inv: "ft_inv s" and ne: "dst \<noteq> ft_self s"
    and src: "src = ft_self s \<longrightarrow> amt = 0"
    and t: "ERC20_transfer src dst amt s = Inr s'"
  shows "ft_inv s'" "totalSupply (tokenInfo s') = totalSupply (tokenInfo s)" "ft_self s' = ft_self s"
proof -
  note f = ERC20_transfer_fields [OF t]
  have sm: "sum (balances s') UNIV = sum (balances s) UNIV"
    using ERC20_transfer_sum [OF t] by simp
  have s': "s' = s\<lparr>balances := balances s'\<rparr>" by (rule f(1))
  have self: "balances s' (ft_self s) = balances s (ft_self s)"
    using f(5) ne src by auto
  show "ft_inv s'"
    using inv sm self ne
    by (subst s') (simp add: ft_inv_def erc20_inv_def)
  show "totalSupply (tokenInfo s') = totalSupply (tokenInfo s)" by (subst s') simp
  show "ft_self s' = ft_self s" by (subst s') simp
qed

lemma ERC20_spendAllowance_ft_inv:
  assumes a: "ERC20_spendAllowance holder spender amt s = Inr s1" and inv: "ft_inv s"
  shows "ft_inv s1" "totalSupply (tokenInfo s1) = totalSupply (tokenInfo s)" "ft_self s1 = ft_self s"
    "holder = ft_self s \<longrightarrow> amt = 0"
proof -
  note f = ERC20_spendAllowance_fields [OF a]
  have s1: "s1 = s\<lparr>allowances := allowances s1\<rparr>" by (rule f(1))
  have z: "\<forall>x. allowances s (ft_self s) x = 0" using inv by (simp add: ft_inv_def)
  have "\<forall>x. allowances s1 (ft_self s) x = 0"
  proof (cases "holder = ft_self s")
    case True
    then show ?thesis using f(3) z by simp
  next
    case False
    then show ?thesis using f(4) z by simp
  qed
  then show "ft_inv s1"
    using inv by (subst s1) (simp add: ft_inv_def erc20_inv_def)
  show "totalSupply (tokenInfo s1) = totalSupply (tokenInfo s)" by (subst s1) simp
  show "ft_self s1 = ft_self s" by (subst s1) simp
  show "holder = ft_self s \<longrightarrow> amt = 0"
    using f(2) z by (auto simp: MAX_UINT256_def)
qed

lemma ft_exec_ft_inv:
  assumes ex: "ft_exec c w = Inr w'" and inv: "ft_inv (tok w)"
    and snd: "ft_sender c \<noteq> ft_self (tok w)"
    and rcp: "ft_recipient c \<noteq> Some (ft_self (tok w))"
  shows "ft_inv (tok w') \<and> totalSupply (tokenInfo (tok w')) = totalSupply (tokenInfo (tok w))"
proof (cases c)
  case (Purchase sender v now amt)
  with ex obtain s2 ti where
    le: "amt \<le> availableSupply (tokenInfo (tok w))" and
    t: "ERC20_transfer (ft_self (tok w)) sender amt
             ((tok w)\<lparr>tokenInfo := (tokenInfo (tok w))\<lparr>availableSupply :=
                 availableSupply (tokenInfo (tok w)) - amt\<rparr>\<rparr>) = Inr s2"
    and w': "tok w' = (record_investment sender amt now s2)\<lparr>totalInvested := ti\<rparr>"
    using purchaseTokens_tok by fastforce
  from snd Purchase have ne: "sender \<noteq> ft_self (tok w)" by simp
  note r = ERC20_transfer_inv_out [OF inv le ne t]
  show ?thesis
    by (simp add: w' ft_inv_upd record_investment_ft_inv record_investment_fields r)
next
  case (Sell sender amt)
  with ex obtain s1 where
    t: "ERC20_transfer sender (ft_self (tok w)) amt (tok w) = Inr s1"
    and w': "tok w' = s1\<lparr>tokenInfo := (tokenInfo s1)\<lparr>availableSupply :=
                 availableSupply (tokenInfo s1) + amt\<rparr>\<rparr>"
    using sellTokens_tok by fastforce
  from snd Sell have ne: "sender \<noteq> ft_self (tok w)" by simp
  note r = ERC20_transfer_inv_in [OF inv ne t]
  show ?thesis by (simp add: w' r)
next
  case (Transfer sender dst amt)
  with ex have t: "ERC20_transfer sender dst amt (tok w) = Inr (tok w')"
    using transfer_tok by simp
  from snd rcp Transfer have ne: "dst \<noteq> ft_self (tok w)" "sender = ft_self (tok w) \<longrightarrow> amt = 0"
    by simp_all
  show ?thesis using ERC20_transfer_inv_between [OF inv ne t] by simp
next
  case (TransferFrom sender src dst amt)
  with ex obtain s1 where
    a: "ERC20_spendAllowance src sender amt (tok w) = Inr s1"
    and t: "ERC20_transfer src dst amt s1 = Inr (tok w')"
    using transferFrom_tok by fastforce
  note r = ERC20_spendAllowance_ft_inv [OF a inv]
  from rcp TransferFrom r have ne: "dst \<noteq> ft_self s1" "src = ft_self s1 \<longrightarrow> amt = 0"
    by simp_all
  show ?thesis using ERC20_transfer_inv_between [OF r(1) ne t] r by simp
next
  case (Approve sender spender amt)
  with ex snd inv show ?thesis
    by (auto simp: approve_def Let_def ft_inv_def erc20_inv_def split: if_splits)
next
  case (SetTokenStatus sender active)
  with ex inv show ?thesis
    by (auto simp: setTokenStatus_def ft_inv_upd split: if_splits sum.splits)
next
  case (PauseToken sender)
  with ex inv show ?thesis
    by (auto simp: pause_token_def ft_inv_upd split: if_splits)
next
  case (UnpauseToken sender)
  with ex inv show ?thesis
    by (auto simp: unpause_token_def ft_inv_upd split: if_splits)
next
  case (UpdatePrice sender newPrice)
  with ex inv show ?thesis
    by (auto simp: updatePrice_def Let_def ft_inv_upd split: if_splits sum.splits)
next
  case (WithdrawBalance sender)
  with ex inv show ?thesis
    by (auto simp: withdrawBalance_def split: if_splits sum.splits dest!: pay_transfer_tok)
next
  case (EmergencyWithdrawToken sender)
  with ex inv show ?thesis
    by (auto simp: emergencyWithdraw_token_def split: if_splits dest!: pay_transfer_tok)
next
  case (TransferOwnershipToken sender newOwner)
  with ex inv show ?thesis
    by (auto simp: transferOwnership_token_def ft_inv_upd split: if_splits)
next
  case (RenounceOwnershipToken sender)
  with ex inv show ?thesis
    by (auto simp: renounceOwnership_token_def ft_inv_upd split: if_splits)
qed

lemma ft_reachable_ft_inv:
  assumes "ft_reachable False minted w"
  shows "ft_inv (tok w) \<and> totalSupply (tokenInfo (tok w)) = minted"
  using assms
proof (induction rule: ft_reachable.induct)
  case (ft_deployed self deployer now pid price s n e c)
  then show ?case using constructor_FractionalToken_inv by simp
next
  case (ft_stepped w w')
  from ft_stepped(2,3) show ?case
    by (cases rule: ft_step.cases) (use ft_exec_ft_inv in auto)
qed

subsection \<open>Evaluating the concrete worlds\<close>

lemmas scn_defs = addr_operator_def addr_manager_def addr_manager2_def addr_A_def addr_B_def
  addr_rent_def addr_token_def addr_token2_def scn_nft_def scn_eth_def

lemmas arith_defs = checked_add_def checked_mul_def checked_sub_def checked_div_def
  MAX_UINT256_def

lemmas ft_defs = constructor_FractionalToken_def ERC20_mint_def ERC20_transfer_def
  purchaseTokens_def sellTokens_def transfer_def balanceOf_def
  setTokenStatus_def pause_token_def getProperty_owner_def
  receive_value_def pay_transfer_def move_eth_def record_investment_def
  updateAvailableTokens_def Let_def

lemma scn_deployed_tok:
  "constructor_FractionalToken addr_token addr_operator 0 0 1000 2 = Inr (tok scn_deployed)"
  by (simp add: scn_deployed_def ft_defs arith_defs scn_defs)

lemma scn_A600_eq: "purchaseTokens addr_A 1200 100 600 scn_deployed = Inr scn_A600"
  by (simp add: scn_A600_def scn_deployed_def ft_defs arith_defs scn_defs)

lemma scn_A600_self: "ft_self (tok scn_A600) = addr_token"
  by (simp add: scn_A600_def scn_deployed_def ft_defs arith_defs scn_defs)

lemma scn_sold_out_eq: "purchaseTokens addr_B 800 200 400 scn_A600 = Inr scn_sold_out"
  by (simp add: scn_sold_out_def scn_A600_def scn_deployed_def ft_defs arith_defs scn_defs)

lemma scn_sold_out_self: "ft_self (tok scn_sold_out) = addr_token"
  by (simp add: scn_sold_out_def scn_A600_def scn_deployed_def ft_defs arith_defs scn_defs)

lemma scn_A100_eq: "purchaseTokens addr_A 200 100 100 scn_deployed = Inr scn_A100"
  by (simp add: scn_A100_def scn_deployed_def ft_defs arith_defs scn_defs)

lemma scn_sent_to_contract_eq:
  "transfer addr_A addr_token 50 scn_contract_kyc = Inr scn_sent_to_contract"
  by (simp add: scn_sent_to_contract_def scn_contract_kyc_def scn_sold_out_def scn_A600_def
      scn_deployed_def ft_defs arith_defs scn_defs)

lemma scn_sent_to_contract_tok:
  "ft_self (tok scn_sent_to_contract) = addr_token"
  "balances (tok scn_sent_to_contract) addr_token = 50"
  "balances (tok scn_sent_to_contract) addr_A = 550"
  "balances (tok scn_sent_to_contract) addr_B = 400"
  "erc20_totalSupply (tok scn_sent_to_contract) = 1000"
  "availableSupply (tokenInfo (tok scn_sent_to_contract)) = 0"
  "totalSupply (tokenInfo (tok scn_sent_to_contract)) = 1000"
  by (simp_all add: scn_sent_to_contract_def scn_contract_kyc_def scn_sold_out_def scn_A600_def
      scn_deployed_def ft_defs arith_defs scn_defs)

lemma scn_deployed_reachable: "ft_reachable b 1000 scn_deployed"
  unfolding scn_deployed_def
  by (rule ft_deployed) (use scn_deployed_tok in \<open>simp add: scn_deployed_def\<close>)

lemma scn_A600_reachable: "ft_reachable b 1000 scn_A600"
proof (rule ft_stepped [OF scn_deployed_reachable])
  show "ft_step b scn_deployed scn_A600"
    by (rule ft_transaction [where c = "Purchase addr_A 1200 100 600"])
       (simp_all add: scn_A600_eq, simp add: scn_deployed_def ft_defs arith_defs scn_defs)
qed

lemma scn_sold_out_reachable: "ft_reachable b 1000 scn_sold_out"
proof (rule ft_stepped [OF scn_A600_reachable])
  show "ft_step b scn_A600 scn_sold_out"
    by (rule ft_transaction [where c = "Purchase addr_B 800 200 400"])
       (simp_all add: scn_sold_out_eq scn_A600_self, simp add: scn_defs)
qed

lemma scn_sent_to_contract_reachable: "ft_reachable True 1000 scn_sent_to_contract"
proof -
  have "ft_step True scn_sold_out scn_contract_kyc"
    unfolding scn_contract_kyc_def by (rule ft_environment)
  then have r: "ft_reachable True 1000 scn_contract_kyc"
    by (rule ft_stepped [OF scn_sold_out_reachable])
  have "ft_step True scn_contract_kyc scn_sent_to_contract"
    by (rule ft_transaction [where c = "Transfer addr_A addr_token 50"])
       (simp_all add: scn_sent_to_contract_eq, simp add: scn_contract_kyc_def scn_sold_out_self scn_defs)
  then show ?thesis by (rule ft_stepped [OF r])
qed

subsection \<open>The share supply is conserved, but for transfers to the contract\<close>

text \<open>
  In every state reachable from the constructor by transactions of the token contract,
  the ERC20 transfers whose recipient is the token contract itself left out, the shares
  held by the holders plus \<open>availableSupply\<close> equal \<open>totalSupply\<close>, and \<open>totalSupply\<close> is
  still the amount minted by the constructor: the constructor, \<open>purchaseTokens\<close> and
  \<open>sellTokens\<close> keep \<open>availableSupply\<close> equal to the contract's own share balance.
\<close>

lemma conservation_without_transfers_to_contract:
  assumes "ft_reachable False minted w"
  shows "conservation (tok w) \<and> totalSupply (tokenInfo (tok w)) = minted"
  using ft_reachable_ft_inv [OF assms] ft_inv_conservation by simp

lemma conservation_at_sold_out:
  "ft_reachable False 1000 scn_sold_out \<and>
   conservation (tok scn_sold_out) \<and> totalSupply (tokenInfo (tok scn_sold_out)) = 1000"
  using conservation_without_transfers_to_contract [OF scn_sold_out_reachable [of False]]
    scn_sold_out_reachable [of False] by simp

lemma scn_sold_back_eq: "sellTokens addr_A 50 scn_sold_out = Inr scn_sold_back"
  by (simp add: scn_sold_back_def scn_sold_out_def scn_A600_def scn_deployed_def ft_defs
      arith_defs scn_defs)

lemma scn_sold_back_tok:
  "balances (tok scn_sold_back) addr_token = 50"
  "balances (tok scn_sold_back) addr_A = 550"
  "availableSupply (tokenInfo (tok scn_sold_back)) = 50"
  by (simp_all add: scn_sold_back_def scn_sold_out_def scn_A600_def scn_deployed_def ft_defs
      arith_defs scn_defs)

lemma scn_sold_back_conservation: "conservation (tok scn_sold_back)"
proof -
  have "ft_step False scn_sold_out scn_sold_back"
    by (rule ft_transaction [where c = "Sell addr_A 50"])
       (simp_all add: scn_sold_back_eq scn_sold_out_self, simp add: scn_defs)
  then have "ft_reachable False 1000 scn_sold_back"
    by (rule ft_stepped [OF scn_sold_out_reachable])
  then show ?thesis using conservation_without_transfers_to_contract by blast
qed

lemma scn_sent_to_contract_locked:
  "purchaseTokens addr_B 100 400 50 scn_sent_to_contract = Inl NotEnoughTokens"
  by (simp add: scn_sent_to_contract_def scn_contract_kyc_def scn_sold_out_def scn_A600_def
      scn_deployed_def ft_defs arith_defs scn_defs)

text \<open>
  C1. The code breaks the conservation of the share supply: \<open>transfer\<close> (and
  \<open>transferFrom\<close>) accept the token contract's own address as recipient, once that
  address has a KYC entry, and move the shares into the contract's balance without the
  credit of \<open>availableSupply\<close> that \<open>sellTokens\<close> makes for the same movement. In a
  reachable state, after A has sent 50 of its 600 shares to the contract, the holders have
  950 shares and none is available, of 1000; the 50 shares cannot be bought again. Had A
  sold the 50 shares back, 50 would be available and the supply conserved.
\<close>

theorem transfer_to_contract_breaks_conservation:
  "ft_reachable True 1000 scn_sent_to_contract \<and>
   conservation (tok scn_contract_kyc) \<and>
   transfer addr_A addr_token 50 scn_contract_kyc = Inr scn_sent_to_contract \<and>
   balances (tok scn_sent_to_contract) addr_token = 50 \<and>
   holderBalances (tok scn_sent_to_contract) = 950 \<and>
   availableSupply (tokenInfo (tok scn_sent_to_contract)) = 0 \<and>
   totalSupply (tokenInfo (tok scn_sent_to_contract)) = 1000 \<and>
   \<not> conservation (tok scn_sent_to_contract) \<and>
   purchaseTokens addr_B 100 400 50 scn_sent_to_contract = Inl NotEnoughTokens \<and>
   sellTokens addr_A 50 scn_sold_out = Inr scn_sold_back \<and>
   balances (tok scn_sold_back) addr_token = 50 \<and>
   availableSupply (tokenInfo (tok scn_sold_back)) = 50 \<and>
   conservation (tok scn_sold_back)"
proof -
  have "erc20_inv (tok scn_sent_to_contract)"
    by (rule ft_reachable_erc20_inv [OF scn_sent_to_contract_reachable])
  then have "sum (balances (tok scn_sent_to_contract)) UNIV = 1000"
    by (simp add: erc20_inv_def scn_sent_to_contract_tok)
  then have h: "holderBalances (tok scn_sent_to_contract) = 950"
    using sum_split_nat [of UNIV addr_token "balances (tok scn_sent_to_contract)"]
    by (simp add: holderBalances_def scn_sent_to_contract_tok)
  have k: "conservation (tok scn_contract_kyc)"
    using conservation_at_sold_out by (simp add: scn_contract_kyc_def)
  show ?thesis
    using h k scn_sent_to_contract_reachable scn_sold_back_conservation
    by (simp add: conservation_def scn_sent_to_contract_tok scn_sent_to_contract_eq
        scn_sent_to_contract_locked scn_sold_back_eq scn_sold_back_tok)
qed

section \<open>RentDistribution: what each function does\<close>

lemma pay_transfer_rd:
  assumes "pay_transfer a b v w = Inr w'"
  shows "rd w' = rd w" "nft w' = nft w" "tokenAt w' = tokenAt w" "canReceive w' = canReceive w"
    "eth w' = move_eth a b v (eth w)" "v \<le> eth w a"
  using assms by (auto simp: pay_transfer_def split: if_splits)

lemma transfer_fees_rd:
  assumes "transfer_fees pid pf mf w = Inr w'"
  shows "rd w' = rd w" "nft w' = nft w" "tokenAt w' = tokenAt w" "canReceive w' = canReceive w"
  using assms
  by (auto simp: transfer_fees_def pay_transfer_def split: if_splits sum.splits)

lemma compute_fees_Inr:
  assumes "compute_fees g p m = Inr (pf, mf, net)"
  shows "pf = g * p div 10000" "mf = g * m div 10000" "pf + mf + net = g" "net = g - pf - mf"
proof -
  from assms have pf: "pf = g * p div 10000" and mf: "mf = g * m div 10000"
    and le1: "pf \<le> g" and le2: "mf \<le> g - pf" and net: "net = g - pf - mf"
    by (auto simp: compute_fees_def checked_mul_def checked_div_def checked_sub_def
        split: if_splits sum.splits)
  show "pf = g * p div 10000" by (rule pf)
  show "mf = g * m div 10000" by (rule mf)
  show "net = g - pf - mf" by (rule net)
  show "pf + mf + net = g" using le1 le2 net by arith
qed

lemma allocate_shares_fields:
  assumes "allocate_shares net t as d = Inr d'"
  shows "d' = d\<lparr>investorDistributions := investorDistributions d'\<rparr>"
  using assms
proof (induction as arbitrary: d)
  case Nil
  then show ?case by simp
next
  case (Cons a as)
  show ?case
  proof (cases "balanceOf t a > 0")
    case True
    with Cons.prems obtain share where
      r: "allocate_shares net t as (d\<lparr>investorDistributions := (investorDistributions d)(a := share)\<rparr>) = Inr d'"
      by (auto simp: Let_def split: sum.splits)
    from Cons.IH [OF r] show ?thesis
      by (metis (no_types, lifting) Distribution.surjective Distribution.update_convs(7))
  next
    case False
    with Cons.prems have "allocate_shares net t as d = Inr d'" by (simp add: Let_def)
    then show ?thesis by (rule Cons.IH)
  qed
qed

lemma allocate_shares_values:
  assumes "allocate_shares net t as d = Inr d'"
  shows "investorDistributions d' a =
           (if a \<in> set as \<and> balanceOf t a > 0
            then net * balanceOf t a div totalTokensAtDistribution d
            else investorDistributions d a)"
  using assms
proof (induction as arbitrary: d)
  case Nil
  then show ?case by simp
next
  case (Cons b as)
  show ?case
  proof (cases "balanceOf t b > 0")
    case True
    with Cons.prems obtain share where
      sh: "share = net * balanceOf t b div totalTokensAtDistribution d"
      and r: "allocate_shares net t as (d\<lparr>investorDistributions := (investorDistributions d)(b := share)\<rparr>) = Inr d'"
      by (auto simp: Let_def checked_mul_def checked_div_def split: sum.splits if_splits)
    from Cons.IH [OF r] sh True show ?thesis by auto
  next
    case False
    with Cons.prems have "allocate_shares net t as d = Inr d'" by (simp add: Let_def)
    from Cons.IH [OF this] False show ?thesis by auto
  qed
qed

lemma allocate_shares_denominator:
  assumes "allocate_shares net t as d = Inr d'" "a \<in> set as" "balanceOf t a > 0"
  shows "totalTokensAtDistribution d > 0"
  using assms
proof (induction as arbitrary: d)
  case Nil
  then show ?case by simp
next
  case (Cons b as)
  show ?case
  proof (cases "balanceOf t b > 0")
    case True
    with Cons.prems(1) show ?thesis
      by (auto simp: Let_def checked_div_def split: sum.splits if_splits)
  next
    case False
    with Cons.prems have "allocate_shares net t as d = Inr d'" "a \<in> set as"
      by (auto simp: Let_def)
    then show ?thesis using Cons.IH Cons.prems(3) by blast
  qed
qed

lemma createDistribution_Inr:
  assumes "createDistribution sender now pid g w = Inr (w', evs)"
  obtains pf mf net t d1 where
    "onlyPropertyOwner pid sender (nft w) = None" "\<not> rd_paused (rd w)" "g > 0"
    "g \<le> eth w (rd_self (rd w))" "propertyToToken (rd w) pid \<noteq> 0"
    "compute_fees g (platformFeePercentage (rd w)) (managementFeePercentage (rd w)) = Inr (pf, mf, net)"
    "distributionCounter (rd w) + 1 \<le> MAX_UINT256"
    "tokenAt w (propertyToToken (rd w) pid) = Some t"
    "allocate_shares net t (getInvestors t)
       ((distributions (rd w) (distributionCounter (rd w)))
          \<lparr>dist_propertyId := pid,
           fractionalTokenAddress := propertyToToken (rd w) pid,
           dist_totalRentCollected := g,
           distributionDate := now,
           totalTokensAtDistribution := erc20_totalSupply t,
           isCompleted := False,
           platformFee := pf,
           propertyOwnerFee := mf,
           dist_investors := getInvestors t\<rparr>) = Inr d1"
    "transfer_fees pid pf mf
       (w\<lparr>rd := (rd w)\<lparr>distributionCounter := distributionCounter (rd w) + 1,
            distributions := (distributions (rd w))(distributionCounter (rd w) := d1)\<rparr>\<rparr>) = Inr w'"
    "evs = [DistributionCreated (distributionCounter (rd w)) pid net (length (getInvestors t))]"
  using assms
  by (auto simp: createDistribution_def Let_def checked_add_def
      split: option.splits if_splits sum.splits prod.splits)

lemma createDistribution_rd:
  assumes "createDistribution sender now pid g w = Inr (w', evs)"
  obtains d1 where
    "rd w' = (rd w)\<lparr>distributionCounter := distributionCounter (rd w) + 1,
            distributions := (distributions (rd w))(distributionCounter (rd w) := d1)\<rparr>"
  using assms by (elim createDistribution_Inr) (auto dest: transfer_fees_rd)

lemma allClaimed_loop_iff:
  "allClaimed_loop d as \<longleftrightarrow> (\<forall>a \<in> set as. investorDistributions d a > 0 \<longrightarrow> claimed d a)"
  by (induction as) auto

lemma isCompleted_upd_same: "isCompleted d = b \<Longrightarrow> d\<lparr>isCompleted := b\<rparr> = d"
  by (cases d) auto

lemma checkDistributionCompletion_fst:
  "fst (checkDistributionCompletion i r) =
     r\<lparr>distributions := (distributions r)(i := (distributions r i)\<lparr>isCompleted :=
          isCompleted (distributions r i) \<or>
          allClaimed_loop (distributions r i) (dist_investors (distributions r i))\<rparr>)\<rparr>"
  by (auto simp: checkDistributionCompletion_def Let_def isCompleted_upd_same)

lemma checkDistributionCompletion_completed:
  "isCompleted (distributions r i) \<Longrightarrow> checkDistributionCompletion i r = (r, [])"
  by (simp add: checkDistributionCompletion_def Let_def)

lemma claimDistribution_Inr:
  assumes "claimDistribution sender i w = Inr (w', evs)"
  obtains w1 w2 where
    "\<not> rd_paused (rd w)" "\<not> isCompleted (distributions (rd w) i)"
    "\<not> claimed (distributions (rd w) i) sender"
    "investorDistributions (distributions (rd w) i) sender > 0"
    "w1 = w\<lparr>rd := (rd w)\<lparr>distributions := (distributions (rd w))(i :=
             (distributions (rd w) i)\<lparr>claimed := (claimed (distributions (rd w) i))(sender := True),
                totalDistributed := totalDistributed (distributions (rd w) i) +
                  investorDistributions (distributions (rd w) i) sender\<rparr>)\<rparr>\<rparr>"
    "pay_transfer (rd_self (rd w)) sender (investorDistributions (distributions (rd w) i) sender) w1 = Inr w2"
    "w' = w2\<lparr>rd := fst (checkDistributionCompletion i (rd w2))\<rparr>"
    "evs = RentDistributed i sender (investorDistributions (distributions (rd w) i) sender) #
             snd (checkDistributionCompletion i (rd w2))"
  using assms
  by (auto simp: claimDistribution_def Let_def checked_add_def
      split: if_splits sum.splits prod.splits)

lemma batch_loop_chain:
  assumes "batch_loop i as w = Inr (w', evs)"
  shows "nft w' = nft w \<and> tokenAt w' = tokenAt w \<and> canReceive w' = canReceive w"
  using assms
proof (induction as arbitrary: w evs)
  case Nil
  then show ?case by simp
next
  case (Cons a as)
  show ?case
  proof (cases "\<not> claimed (distributions (rd w) i) a \<and> investorDistributions (distributions (rd w) i) a > 0")
    case True
    with Cons.prems obtain w2 evs2 td where
      p: "pay_transfer (rd_self (rd w)) a (investorDistributions (distributions (rd w) i) a)
            (w\<lparr>rd := (rd w)\<lparr>distributions := (distributions (rd w))(i :=
               (distributions (rd w) i)\<lparr>claimed := (claimed (distributions (rd w) i))(a := True),
                  totalDistributed := td\<rparr>)\<rparr>\<rparr>) = Inr w2"
      and r: "batch_loop i as w2 = Inr (w', evs2)"
      by (auto simp: Let_def split: sum.splits prod.splits)
    from Cons.IH [OF r] pay_transfer_rd [OF p] show ?thesis by simp
  next
    case False
    with Cons.prems have "batch_loop i as w = Inr (w', evs)"
      by (auto simp: Let_def split: if_splits)
    then show ?thesis by (rule Cons.IH)
  qed
qed

lemma batch_loop_rd:
  assumes "batch_loop i as w = Inr (w', evs)"
  shows "rd w' = (rd w)\<lparr>distributions := (distributions (rd w))(i :=
           (distributions (rd w) i)\<lparr>claimed := claimed (distributions (rd w') i),
              totalDistributed := totalDistributed (distributions (rd w') i)\<rparr>)\<rparr>"
  using assms
proof (induction as arbitrary: w evs)
  case Nil
  then show ?case by simp
next
  case (Cons a as)
  show ?case
  proof (cases "\<not> claimed (distributions (rd w) i) a \<and> investorDistributions (distributions (rd w) i) a > 0")
    case True
    with Cons.prems obtain w2 evs2 td where
      p: "pay_transfer (rd_self (rd w)) a (investorDistributions (distributions (rd w) i) a)
            (w\<lparr>rd := (rd w)\<lparr>distributions := (distributions (rd w))(i :=
               (distributions (rd w) i)\<lparr>claimed := (claimed (distributions (rd w) i))(a := True),
                  totalDistributed := td\<rparr>)\<rparr>\<rparr>) = Inr w2"
      and r: "batch_loop i as w2 = Inr (w', evs2)"
      by (auto simp: Let_def split: sum.splits prod.splits)
    have w2: "rd w2 = (rd w)\<lparr>distributions := (distributions (rd w))(i :=
               (distributions (rd w) i)\<lparr>claimed := (claimed (distributions (rd w) i))(a := True),
                  totalDistributed := td\<rparr>)\<rparr>"
      using pay_transfer_rd(1) [OF p] by simp
    show ?thesis by (subst Cons.IH [OF r]) (simp add: w2)
  next
    case False
    with Cons.prems have "batch_loop i as w = Inr (w', evs)"
      by (auto simp: Let_def split: if_splits)
    then show ?thesis by (rule Cons.IH)
  qed
qed

lemma batch_loop_claimed:
  assumes "batch_loop i as w = Inr (w', evs)"
  shows "claimed (distributions (rd w') i) a \<longleftrightarrow>
           claimed (distributions (rd w) i) a \<or>
           (a \<in> set as \<and> investorDistributions (distributions (rd w) i) a > 0)"
  using assms
proof (induction as arbitrary: w evs)
  case Nil
  then show ?case by simp
next
  case (Cons b as)
  show ?case
  proof (cases "\<not> claimed (distributions (rd w) i) b \<and> investorDistributions (distributions (rd w) i) b > 0")
    case True
    with Cons.prems obtain w2 evs2 td where
      p: "pay_transfer (rd_self (rd w)) b (investorDistributions (distributions (rd w) i) b)
            (w\<lparr>rd := (rd w)\<lparr>distributions := (distributions (rd w))(i :=
               (distributions (rd w) i)\<lparr>claimed := (claimed (distributions (rd w) i))(b := True),
                  totalDistributed := td\<rparr>)\<rparr>\<rparr>) = Inr w2"
      and r: "batch_loop i as w2 = Inr (w', evs2)"
      by (auto simp: Let_def split: sum.splits prod.splits)
    have w2: "rd w2 = (rd w)\<lparr>distributions := (distributions (rd w))(i :=
               (distributions (rd w) i)\<lparr>claimed := (claimed (distributions (rd w) i))(b := True),
                  totalDistributed := td\<rparr>)\<rparr>"
      using pay_transfer_rd(1) [OF p] by simp
    show ?thesis using True by (subst Cons.IH [OF r]) (auto simp: w2)
  next
    case False
    with Cons.prems have "batch_loop i as w = Inr (w', evs)"
      by (auto simp: Let_def split: if_splits)
    from Cons.IH [OF this] False show ?thesis by auto
  qed
qed

lemma batch_loop_paid:
  assumes "batch_loop i as w = Inr (w', evs)"
  shows "paid_to a i evs =
           (if a \<in> set as \<and> \<not> claimed (distributions (rd w) i) a \<and>
               investorDistributions (distributions (rd w) i) a > 0
            then [investorDistributions (distributions (rd w) i) a] else [])"
  using assms
proof (induction as arbitrary: w evs)
  case Nil
  then show ?case by (simp add: paid_to_def)
next
  case (Cons b as)
  show ?case
  proof (cases "\<not> claimed (distributions (rd w) i) b \<and> investorDistributions (distributions (rd w) i) b > 0")
    case True
    with Cons.prems obtain w2 evs2 td where
      p: "pay_transfer (rd_self (rd w)) b (investorDistributions (distributions (rd w) i) b)
            (w\<lparr>rd := (rd w)\<lparr>distributions := (distributions (rd w))(i :=
               (distributions (rd w) i)\<lparr>claimed := (claimed (distributions (rd w) i))(b := True),
                  totalDistributed := td\<rparr>)\<rparr>\<rparr>) = Inr w2"
      and r: "batch_loop i as w2 = Inr (w', evs2)"
      and evs: "evs = RentDistributed i b (investorDistributions (distributions (rd w) i) b) # evs2"
      by (auto simp: Let_def split: sum.splits prod.splits)
    have w2: "rd w2 = (rd w)\<lparr>distributions := (distributions (rd w))(i :=
               (distributions (rd w) i)\<lparr>claimed := (claimed (distributions (rd w) i))(b := True),
                  totalDistributed := td\<rparr>)\<rparr>"
      using pay_transfer_rd(1) [OF p] by simp
    have "paid_to a i evs =
            (if b = a then [investorDistributions (distributions (rd w) i) b] else []) @ paid_to a i evs2"
      by (simp add: evs paid_to_def)
    then show ?thesis using True by (subst (asm) Cons.IH [OF r]) (auto simp: w2)
  next
    case False
    with Cons.prems have "batch_loop i as w = Inr (w', evs)"
      by (auto simp: Let_def split: if_splits)
    from Cons.IH [OF this] False show ?thesis by auto
  qed
qed

lemma batchDistribute_Inr:
  assumes "batchDistribute sender i w = Inr (w', evs)"
  obtains w1 evs1 where
    "rd_owner (rd w) = sender" "\<not> rd_paused (rd w)" "\<not> isCompleted (distributions (rd w) i)"
    "batch_loop i (dist_investors (distributions (rd w) i)) w = Inr (w1, evs1)"
    "w' = w1\<lparr>rd := fst (checkDistributionCompletion i (rd w1))\<rparr>"
    "evs = evs1 @ snd (checkDistributionCompletion i (rd w1))"
  using assms
  by (auto simp: batchDistribute_def Let_def split: if_splits sum.splits prod.splits)

section \<open>RentDistribution: steps\<close>

lemma snapshot_upd [simp]:
  "snapshot (d\<lparr>claimed := c\<rparr>) = snapshot d"
  "snapshot (d\<lparr>totalDistributed := t\<rparr>) = snapshot d"
  "snapshot (d\<lparr>isCompleted := b\<rparr>) = snapshot d"
  by (simp_all add: snapshot_def)

lemma snapshot_fields:
  assumes "snapshot d' = snapshot d"
  shows "dist_propertyId d' = dist_propertyId d"
    "fractionalTokenAddress d' = fractionalTokenAddress d"
    "dist_totalRentCollected d' = dist_totalRentCollected d"
    "distributionDate d' = distributionDate d"
    "totalTokensAtDistribution d' = totalTokensAtDistribution d"
    "investorDistributions d' = investorDistributions d"
    "dist_investors d' = dist_investors d"
    "platformFee d' = platformFee d"
    "propertyOwnerFee d' = propertyOwnerFee d"
proof -
  have "f (snapshot d') = f (snapshot d)" for f :: "Distribution \<Rightarrow> 'x"
    using assms by simp
  note e = this
  show "dist_propertyId d' = dist_propertyId d" using e [of dist_propertyId] by (simp add: snapshot_def)
  show "fractionalTokenAddress d' = fractionalTokenAddress d" using e [of fractionalTokenAddress] by (simp add: snapshot_def)
  show "dist_totalRentCollected d' = dist_totalRentCollected d" using e [of dist_totalRentCollected] by (simp add: snapshot_def)
  show "distributionDate d' = distributionDate d" using e [of distributionDate] by (simp add: snapshot_def)
  show "totalTokensAtDistribution d' = totalTokensAtDistribution d" using e [of totalTokensAtDistribution] by (simp add: snapshot_def)
  show "investorDistributions d' = investorDistributions d" using e [of investorDistributions] by (simp add: snapshot_def)
  show "dist_investors d' = dist_investors d" using e [of dist_investors] by (simp add: snapshot_def)
  show "platformFee d' = platformFee d" using e [of platformFee] by (simp add: snapshot_def)
  show "propertyOwnerFee d' = propertyOwnerFee d" using e [of propertyOwnerFee] by (simp add: snapshot_def)
qed

lemma claimDistribution_rd:
  assumes "claimDistribution sender i w = Inr (w', evs)"
  shows "rd w' = (rd w)\<lparr>distributions := (distributions (rd w))(i :=
           (distributions (rd w) i)\<lparr>claimed := (claimed (distributions (rd w) i))(sender := True),
              totalDistributed := totalDistributed (distributions (rd w') i),
              isCompleted := isCompleted (distributions (rd w') i)\<rparr>)\<rparr>"
    "isCompleted (distributions (rd w') i) =
       allClaimed_loop (distributions (rd w') i) (dist_investors (distributions (rd w) i))"
proof -
  from assms obtain w1 w2 where
    nc: "\<not> isCompleted (distributions (rd w) i)" and
    w1: "w1 = w\<lparr>rd := (rd w)\<lparr>distributions := (distributions (rd w))(i :=
             (distributions (rd w) i)\<lparr>claimed := (claimed (distributions (rd w) i))(sender := True),
                totalDistributed := totalDistributed (distributions (rd w) i) +
                  investorDistributions (distributions (rd w) i) sender\<rparr>)\<rparr>\<rparr>" and
    p: "pay_transfer (rd_self (rd w)) sender (investorDistributions (distributions (rd w) i) sender) w1 = Inr w2" and
    w': "w' = w2\<lparr>rd := fst (checkDistributionCompletion i (rd w2))\<rparr>"
    by (rule claimDistribution_Inr)
  have w2: "rd w2 = rd w1" using pay_transfer_rd(1) [OF p] .
  show "rd w' = (rd w)\<lparr>distributions := (distributions (rd w))(i :=
           (distributions (rd w) i)\<lparr>claimed := (claimed (distributions (rd w) i))(sender := True),
              totalDistributed := totalDistributed (distributions (rd w') i),
              isCompleted := isCompleted (distributions (rd w') i)\<rparr>)\<rparr>"
    by (simp add: w' w2 w1 checkDistributionCompletion_fst)
  show "isCompleted (distributions (rd w') i) =
       allClaimed_loop (distributions (rd w') i) (dist_investors (distributions (rd w) i))"
    using nc by (simp add: w' w2 w1 checkDistributionCompletion_fst allClaimed_loop_iff)
qed

lemma batchDistribute_rd:
  assumes "batchDistribute sender i w = Inr (w', evs)"
  shows "rd w' = (rd w)\<lparr>distributions := (distributions (rd w))(i :=
           (distributions (rd w) i)\<lparr>claimed := claimed (distributions (rd w') i),
              totalDistributed := totalDistributed (distributions (rd w') i),
              isCompleted := isCompleted (distributions (rd w') i)\<rparr>)\<rparr>"
    "isCompleted (distributions (rd w') i) =
       allClaimed_loop (distributions (rd w') i) (dist_investors (distributions (rd w) i))"
    "claimed (distributions (rd w') i) a \<longleftrightarrow>
           claimed (distributions (rd w) i) a \<or>
           (a \<in> set (dist_investors (distributions (rd w) i)) \<and>
            investorDistributions (distributions (rd w) i) a > 0)"
proof -
  from assms obtain w1 evs1 where
    nc: "\<not> isCompleted (distributions (rd w) i)" and
    b: "batch_loop i (dist_investors (distributions (rd w) i)) w = Inr (w1, evs1)" and
    w': "w' = w1\<lparr>rd := fst (checkDistributionCompletion i (rd w1))\<rparr>"
    by (rule batchDistribute_Inr)
  define cl where "cl = claimed (distributions (rd w1) i)"
  define td where "td = totalDistributed (distributions (rd w1) i)"
  have r: "rd w1 = (rd w)\<lparr>distributions := (distributions (rd w))(i :=
           (distributions (rd w) i)\<lparr>claimed := cl, totalDistributed := td\<rparr>)\<rparr>"
    unfolding cl_def td_def by (rule batch_loop_rd [OF b])
  show "rd w' = (rd w)\<lparr>distributions := (distributions (rd w))(i :=
           (distributions (rd w) i)\<lparr>claimed := claimed (distributions (rd w') i),
              totalDistributed := totalDistributed (distributions (rd w') i),
              isCompleted := isCompleted (distributions (rd w') i)\<rparr>)\<rparr>"
    by (simp add: w' r checkDistributionCompletion_fst)
  show "isCompleted (distributions (rd w') i) =
       allClaimed_loop (distributions (rd w') i) (dist_investors (distributions (rd w) i))"
    using nc by (simp add: w' r checkDistributionCompletion_fst allClaimed_loop_iff)
  show "claimed (distributions (rd w') i) a \<longleftrightarrow>
           claimed (distributions (rd w) i) a \<or>
           (a \<in> set (dist_investors (distributions (rd w) i)) \<and>
            investorDistributions (distributions (rd w) i) a > 0)"
    using batch_loop_claimed [OF b, of a] by (simp add: w' checkDistributionCompletion_fst)
qed

lemma receive_value_rd:
  assumes "receive_value a b v w = Inr w'"
  shows "rd w' = rd w" "nft w' = nft w" "tokenAt w' = tokenAt w" "canReceive w' = canReceive w"
  using assms by (auto simp: receive_value_def split: if_splits)

lemma depositRent_rd:
  assumes "depositRent sender v pid w = Inr (w', evs)"
  shows "\<exists>t. rd w' = (rd w)\<lparr>totalRentCollected := t\<rparr>"
  using assms
  by (auto simp: depositRent_def split: sum.splits option.splits if_splits dest!: receive_value_rd(1))

text \<open>A call other than \<open>createDistribution\<close> leaves the counter and every snapshot alone.\<close>

lemma rd_exec_snapshot_other:
  assumes "rd_exec c w = Inr (w', evs)" "\<forall>sender now pid g. c \<noteq> Create sender now pid g"
  shows "distributionCounter (rd w') = distributionCounter (rd w) \<and>
         snapshot (distributions (rd w') i) = snapshot (distributions (rd w) i) \<and>
         (isCompleted (distributions (rd w) i) \<longrightarrow> isCompleted (distributions (rd w') i))"
proof (cases c)
  case (Register sender pid a)
  with assms(1) show ?thesis
    by (auto simp: registerFractionalToken_def split: if_splits sum.splits)
next
  case (Deposit sender v pid)
  with assms(1) show ?thesis using depositRent_rd by fastforce
next
  case (Create sender now pid g)
  with assms(2) show ?thesis by simp
next
  case (Claim sender j)
  with assms(1) have "claimDistribution sender j w = Inr (w', evs)" by simp
  note r = claimDistribution_rd(1) [OF this] claimDistribution_Inr [OF this]
  show ?thesis
    by (subst (1 2 3) r(1)) (use r(2) in auto)
next
  case (Batch sender j)
  with assms(1) have b: "batchDistribute sender j w = Inr (w', evs)" by simp
  note r = batchDistribute_rd(1) [OF b] batchDistribute_Inr [OF b]
  show ?thesis
    by (subst (1 2 3) r(1)) (use r(2) in auto)
next
  case (UpdateFees sender p m)
  with assms(1) show ?thesis by (auto simp: updateFees_def split: if_splits)
next
  case (PauseRD sender)
  with assms(1) show ?thesis by (auto simp: pause_rd_def split: if_splits sum.splits)
next
  case (UnpauseRD sender)
  with assms(1) show ?thesis by (auto simp: unpause_rd_def split: if_splits sum.splits)
next
  case (EmergencyWithdrawRD sender)
  with assms(1) show ?thesis
    by (auto simp: emergencyWithdraw_rd_def pay_transfer_def split: if_splits sum.splits)
next
  case (TransferOwnershipRD sender newOwner)
  with assms(1) show ?thesis
    by (auto simp: transferOwnership_rd_def split: if_splits sum.splits)
next
  case (RenounceOwnershipRD sender)
  with assms(1) show ?thesis
    by (auto simp: renounceOwnership_rd_def split: if_splits sum.splits)
qed

lemma rd_exec_created:
  assumes "rd_exec c w = Inr (w', evs)" "i < distributionCounter (rd w)"
  shows "i < distributionCounter (rd w') \<and>
         snapshot (distributions (rd w') i) = snapshot (distributions (rd w) i) \<and>
         (isCompleted (distributions (rd w) i) \<longrightarrow> isCompleted (distributions (rd w') i))"
proof (cases "\<exists>sender now pid g. c = Create sender now pid g")
  case True
  then obtain sender now pid g where c: "c = Create sender now pid g" by blast
  with assms(1) have "createDistribution sender now pid g w = Inr (w', evs)" by simp
  then obtain d1 where
    "rd w' = (rd w)\<lparr>distributionCounter := distributionCounter (rd w) + 1,
            distributions := (distributions (rd w))(distributionCounter (rd w) := d1)\<rparr>"
    by (rule createDistribution_rd)
  with assms(2) show ?thesis by simp
next
  case False
  then show ?thesis using rd_exec_snapshot_other [OF assms(1), of i] assms(2) by simp
qed

lemma rd_step_created:
  assumes "rd_step w w'" "i < distributionCounter (rd w)"
  shows "i < distributionCounter (rd w') \<and>
         snapshot (distributions (rd w') i) = snapshot (distributions (rd w) i) \<and>
         (isCompleted (distributions (rd w) i) \<longrightarrow> isCompleted (distributions (rd w') i))"
  using assms
proof (cases rule: rd_step.cases)
  case (rd_environment n e c ts)
  with assms(2) show ?thesis by simp
next
  case (rd_transaction c evs)
  then show ?thesis using rd_exec_created assms(2) by blast
qed

lemma rd_steps_created:
  assumes "rd_step\<^sup>*\<^sup>* w w'" "i < distributionCounter (rd w)"
  shows "i < distributionCounter (rd w') \<and>
         snapshot (distributions (rd w') i) = snapshot (distributions (rd w) i) \<and>
         (isCompleted (distributions (rd w) i) \<longrightarrow> isCompleted (distributions (rd w') i))"
  using assms
proof (induction rule: rtranclp_induct)
  case base
  then show ?case by simp
next
  case (step y z)
  from step.IH [OF step.prems] rd_step_created [OF step.hyps(2), of i] show ?case by simp
qed

subsection \<open>The invariant of the distribution table\<close>

lemma fresh_fields:
  assumes "d\<lparr>isCompleted := False\<rparr> = empty_Distribution"
  shows "investorDistributions d = (\<lambda>_. 0)" "claimed d = (\<lambda>_. False)" "dist_investors d = []"
    "totalDistributed d = 0"
proof -
  have e: "f (d\<lparr>isCompleted := False\<rparr>) = f empty_Distribution" for f :: "Distribution \<Rightarrow> 'x"
    using assms by simp
  show "investorDistributions d = (\<lambda>_. 0)" using e [of investorDistributions] by (simp add: empty_Distribution_def)
  show "claimed d = (\<lambda>_. False)" using e [of claimed] by (simp add: empty_Distribution_def)
  show "dist_investors d = []" using e [of dist_investors] by (simp add: empty_Distribution_def)
  show "totalDistributed d = 0" using e [of totalDistributed] by (simp add: empty_Distribution_def)
qed

lemma createDistribution_rd_inv:
  assumes c: "createDistribution sender now pid g w = Inr (w', evs)" and inv: "rd_inv (rd w)"
  shows "rd_inv (rd w')"
proof -
  let ?c = "distributionCounter (rd w)"
  from c obtain pf mf net t d1 where
    al: "allocate_shares net t (getInvestors t)
       ((distributions (rd w) ?c)
          \<lparr>dist_propertyId := pid,
           fractionalTokenAddress := propertyToToken (rd w) pid,
           dist_totalRentCollected := g,
           distributionDate := now,
           totalTokensAtDistribution := erc20_totalSupply t,
           isCompleted := False,
           platformFee := pf,
           propertyOwnerFee := mf,
           dist_investors := getInvestors t\<rparr>) = Inr d1"
    and tf: "transfer_fees pid pf mf
       (w\<lparr>rd := (rd w)\<lparr>distributionCounter := ?c + 1,
            distributions := (distributions (rd w))(?c := d1)\<rparr>\<rparr>) = Inr w'"
    by (rule createDistribution_Inr)
  have rd': "rd w' = (rd w)\<lparr>distributionCounter := ?c + 1,
            distributions := (distributions (rd w))(?c := d1)\<rparr>"
    using transfer_fees_rd(1) [OF tf] by simp
  have fresh: "(distributions (rd w) ?c)\<lparr>isCompleted := False\<rparr> = empty_Distribution"
    using inv by (simp add: rd_inv_def)
  have inv1: "dist_investors d1 = getInvestors t"
    by (subst allocate_shares_fields [OF al]) simp
  have "dist_inv d1"
    unfolding dist_inv_def inv1
    using allocate_shares_values [OF al] fresh_fields(1) [OF fresh]
    by (auto split: if_splits)
  then show ?thesis using inv by (simp add: rd' rd_inv_def)
qed

lemma rd_exec_fresh_other:
  assumes ex: "rd_exec c w = Inr (w', evs)" and nc: "\<forall>sender now pid g. c \<noteq> Create sender now pid g"
    and z: "investorDistributions (distributions (rd w) i) = (\<lambda>_. 0)"
    and e: "dist_investors (distributions (rd w) i) = []"
  shows "(distributions (rd w') i)\<lparr>isCompleted := False\<rparr> =
         (distributions (rd w) i)\<lparr>isCompleted := False\<rparr>"
proof (cases c)
  case (Register sender pid a)
  with ex show ?thesis
    by (auto simp: registerFractionalToken_def split: if_splits sum.splits)
next
  case (Deposit sender v pid)
  with ex show ?thesis using depositRent_rd by fastforce
next
  case (Create sender now pid g)
  with nc show ?thesis by simp
next
  case (Claim sender j)
  with ex have cl: "claimDistribution sender j w = Inr (w', evs)" by simp
  have "j \<noteq> i" using claimDistribution_Inr [OF cl] z by (metis less_numeral_extra(3))
  then show ?thesis by (subst claimDistribution_rd(1) [OF cl]) simp
next
  case (Batch sender j)
  with ex have b: "batchDistribute sender j w = Inr (w', evs)" by simp
  show ?thesis
  proof (cases "j = i")
    case True
    from b obtain w1 evs1 where
      bl: "batch_loop j (dist_investors (distributions (rd w) j)) w = Inr (w1, evs1)" and
      w': "w' = w1\<lparr>rd := fst (checkDistributionCompletion j (rd w1))\<rparr>"
      by (rule batchDistribute_Inr)
    from bl True e have "w1 = w" by simp
    then show ?thesis using True by (simp add: w' checkDistributionCompletion_fst)
  next
    case False
    then show ?thesis by (subst batchDistribute_rd(1) [OF b]) simp
  qed
next
  case (UpdateFees sender p m)
  with ex show ?thesis by (auto simp: updateFees_def split: if_splits)
next
  case (PauseRD sender)
  with ex show ?thesis by (auto simp: pause_rd_def split: if_splits sum.splits)
next
  case (UnpauseRD sender)
  with ex show ?thesis by (auto simp: unpause_rd_def split: if_splits sum.splits)
next
  case (EmergencyWithdrawRD sender)
  with ex show ?thesis
    by (auto simp: emergencyWithdraw_rd_def pay_transfer_def split: if_splits sum.splits)
next
  case (TransferOwnershipRD sender newOwner)
  with ex show ?thesis
    by (auto simp: transferOwnership_rd_def split: if_splits sum.splits)
next
  case (RenounceOwnershipRD sender)
  with ex show ?thesis
    by (auto simp: renounceOwnership_rd_def split: if_splits sum.splits)
qed

lemma rd_exec_rd_inv:
  assumes ex: "rd_exec c w = Inr (w', evs)" and inv: "rd_inv (rd w)"
  shows "rd_inv (rd w')"
proof (cases "\<exists>sender now pid g. c = Create sender now pid g")
  case True
  with ex inv show ?thesis using createDistribution_rd_inv by auto
next
  case False
  then have nc: "\<forall>sender now pid g. c \<noteq> Create sender now pid g" by blast
  note r = rd_exec_snapshot_other [OF ex nc]
  have "dist_inv (distributions (rd w') i)" for i
    using inv snapshot_fields(6,7) [of "distributions (rd w') i" "distributions (rd w) i"] r [of i]
    by (simp add: rd_inv_def dist_inv_def)
  moreover have "(distributions (rd w') i)\<lparr>isCompleted := False\<rparr> = empty_Distribution"
    if "distributionCounter (rd w') \<le> i" for i
  proof -
    from that r [of i] inv have f: "(distributions (rd w) i)\<lparr>isCompleted := False\<rparr> = empty_Distribution"
      by (simp add: rd_inv_def)
    show ?thesis
      using rd_exec_fresh_other [OF ex nc fresh_fields(1) [OF f] fresh_fields(3) [OF f]] f by simp
  qed
  ultimately show ?thesis by (simp add: rd_inv_def)
qed


lemma constructor_RentDistribution_rd_inv: "rd_inv (constructor_RentDistribution self deployer)"
  by (simp add: rd_inv_def dist_inv_def constructor_RentDistribution_def empty_Distribution_def)

lemma rd_step_rd_inv:
  assumes "rd_step w w'" "rd_inv (rd w)"
  shows "rd_inv (rd w')"
  using assms by (cases rule: rd_step.cases) (auto intro: rd_exec_rd_inv)

lemma rd_reachable_rd_inv:
  assumes "rd_reachable w"
  shows "rd_inv (rd w)"
  using assms
proof (induction rule: rd_reachable.induct)
  case (rd_deployed n e c ts self deployer)
  show ?case by (simp add: constructor_RentDistribution_rd_inv)
next
  case (rd_stepped w w')
  then show ?case using rd_step_rd_inv by blast
qed

lemma rd_steps_reachable:
  assumes "rd_step\<^sup>*\<^sup>* w w'" "rd_reachable w"
  shows "rd_reachable w'"
  using assms by (induction rule: rtranclp_induct) (auto intro: rd_stepped)

section \<open>Scenario A and the fees\<close>

lemmas rd_defs = constructor_RentDistribution_def empty_Distribution_def
  registerFractionalToken_def depositRent_def onlyPropertyOwner_def getProperty_owner_def
  createDistribution_def compute_fees_def transfer_fees_def getInvestors_def
  claimDistribution_def checkDistributionCompletion_def batchDistribute_def
  receive_value_def pay_transfer_def move_eth_def balanceOf_def Let_def

lemmas addr_defs = addr_operator_def addr_manager_def addr_manager2_def addr_A_def addr_B_def
  addr_rent_def addr_token_def addr_token2_def

lemma scn_sold_out_tok:
  "investors (tok scn_sold_out) = [addr_A, addr_B]"
  "balances (tok scn_sold_out) addr_A = 600"
  "balances (tok scn_sold_out) addr_B = 400"
  "balances (tok scn_sold_out) addr_token = 0"
  "erc20_totalSupply (tok scn_sold_out) = 1000"
  "totalSupply (tokenInfo (tok scn_sold_out)) = 1000"
  "availableSupply (tokenInfo (tok scn_sold_out)) = 0"
  by (simp_all add: scn_sold_out_def scn_A600_def scn_deployed_def ft_defs arith_defs scn_defs)

lemma scn_registered_eq:
  "registerFractionalToken addr_operator 0 addr_token (scn_rent_deployed t) = Inr (scn_registered t)"
  by (simp add: scn_registered_def scn_rent_deployed_def rd_defs scn_defs)

lemma scn_funded_eq:
  "depositRent addr_manager 1000 0 (scn_registered t) =
     Inr (scn_funded t, [RentDeposited 0 1000 addr_manager])"
  by (simp add: scn_funded_def scn_registered_def scn_rent_deployed_def rd_defs arith_defs scn_defs)

lemma scn_funded_fields:
  "rd_self (rd (scn_funded t)) = addr_rent" "rd_owner (rd (scn_funded t)) = addr_operator"
  "\<not> rd_paused (rd (scn_funded t))"
  "distributionCounter (rd (scn_funded t)) = 0"
  "distributions (rd (scn_funded t)) = (\<lambda>_. empty_Distribution)"
  "platformFeePercentage (rd (scn_funded t)) = 250"
  "managementFeePercentage (rd (scn_funded t)) = 500"
  "propertyToToken (rd (scn_funded t)) = (\<lambda>_. 0)(0 := addr_token)"
  "totalRentCollected (rd (scn_funded t)) = (\<lambda>_. 0)(0 := 1000)"
  "nft (scn_funded t) = scn_nft" "canReceive (scn_funded t) = (\<lambda>_. True)"
  "tokenAt (scn_funded t) = (\<lambda>a. if a = addr_token then Some t else None)"
  "eth (scn_funded t) addr_rent = 1000" "eth (scn_funded t) addr_manager = 4000"
  "eth (scn_funded t) addr_operator = 0" "eth (scn_funded t) addr_A = 5000"
  "eth (scn_funded t) addr_B = 5000"
  by (simp_all add: scn_funded_def scn_registered_def scn_rent_deployed_def rd_defs arith_defs scn_defs)

lemma scnA_created_eq:
  "createDistribution addr_manager 300 0 1000 (scn_funded (tok scn_sold_out)) =
     Inr (scnA_created, [DistributionCreated 0 0 925 2])"
  by (simp add: scnA_created_def createDistribution_def scn_funded_fields [unfolded addr_defs]
      scn_sold_out_tok [unfolded addr_defs] onlyPropertyOwner_def getProperty_owner_def compute_fees_def transfer_fees_def
      getInvestors_def pay_transfer_def move_eth_def balanceOf_def Let_def arith_defs scn_defs
      empty_Distribution_def)


lemmas scn_rd_eval = createDistribution_def claimDistribution_def batchDistribute_def
  checkDistributionCompletion_def scn_funded_fields [unfolded addr_defs]
  onlyPropertyOwner_def getProperty_owner_def compute_fees_def transfer_fees_def
  getInvestors_def pay_transfer_def move_eth_def balanceOf_def Let_def arith_defs scn_defs
  empty_Distribution_def

lemma scnA_created_fields:
  "dist_totalRentCollected (distributions (rd scnA_created) 0) = 1000"
  "platformFee (distributions (rd scnA_created) 0) = 25"
  "propertyOwnerFee (distributions (rd scnA_created) 0) = 50"
  "totalTokensAtDistribution (distributions (rd scnA_created) 0) = 1000"
  "dist_investors (distributions (rd scnA_created) 0) = [addr_A, addr_B]"
  "investorDistributions (distributions (rd scnA_created) 0) addr_A = 555"
  "investorDistributions (distributions (rd scnA_created) 0) addr_B = 370"
  "\<not> isCompleted (distributions (rd scnA_created) 0)"
  "totalDistributed (distributions (rd scnA_created) 0) = 0"
  "eth scnA_created addr_rent = 925"
  "eth scnA_created addr_operator = 25"
  "eth scnA_created addr_manager = 4050"
  by (simp_all add: scnA_created_def scn_rd_eval scn_sold_out_tok [unfolded addr_defs])

lemma scnA_claimedA_eq:
  "claimDistribution addr_A 0 scnA_created = Inr (scnA_claimedA, [RentDistributed 0 addr_A 555])"
  by (simp add: scnA_claimedA_def scnA_created_def scn_rd_eval scn_sold_out_tok [unfolded addr_defs])

lemma scnA_claimedAB_eq:
  "claimDistribution addr_B 0 scnA_claimedA =
     Inr (scnA_claimedAB, [RentDistributed 0 addr_B 370, DistributionCompleted 0 925])"
  by (simp add: scnA_claimedAB_def scnA_claimedA_def scnA_created_def scn_rd_eval
      scn_sold_out_tok [unfolded addr_defs])

lemma scnA_claimedAB_fields:
  "totalDistributed (distributions (rd scnA_claimedAB) 0) = 925"
  "isCompleted (distributions (rd scnA_claimedAB) 0)"
  "claimed (distributions (rd scnA_claimedAB) 0) addr_A"
  "claimed (distributions (rd scnA_claimedAB) 0) addr_B"
  "eth scnA_claimedAB addr_rent = 0"
  by (simp_all add: scnA_claimedAB_def scnA_claimedA_def scnA_created_def scn_rd_eval
      scn_sold_out_tok [unfolded addr_defs])

lemma scnA_claimedA_fields:
  "totalDistributed (distributions (rd scnA_claimedA) 0) = 555"
  "\<not> isCompleted (distributions (rd scnA_claimedA) 0)"
  "claimed (distributions (rd scnA_claimedA) 0) addr_A"
  "\<not> claimed (distributions (rd scnA_claimedA) 0) addr_B"
  by (simp_all add: scnA_claimedA_def scnA_created_def scn_rd_eval
      scn_sold_out_tok [unfolded addr_defs])

text \<open>
  C4. Scenario A: 1000 shares, A holds 600 and B holds 400, none available. A distribution
  of 1000 at 250 and 500 basis points has platform fee 25, manager fee 50, net amount 925
  and denominator 1000; A is allocated 555 and B 370, with no dust; after A and B have
  claimed, 925 is distributed and the distribution is completed.
\<close>

theorem scenario_A:
  "totalSupply (tokenInfo (tok scn_sold_out)) = 1000 \<and>
   balanceOf (tok scn_sold_out) addr_A = 600 \<and>
   balanceOf (tok scn_sold_out) addr_B = 400 \<and>
   availableSupply (tokenInfo (tok scn_sold_out)) = 0 \<and>
   platformFeePercentage (rd (scn_funded (tok scn_sold_out))) = 250 \<and>
   managementFeePercentage (rd (scn_funded (tok scn_sold_out))) = 500 \<and>
   createDistribution addr_manager 300 0 1000 (scn_funded (tok scn_sold_out)) =
     Inr (scnA_created, [DistributionCreated 0 0 925 2]) \<and>
   dist_totalRentCollected (distributions (rd scnA_created) 0) = 1000 \<and>
   platformFee (distributions (rd scnA_created) 0) = 25 \<and>
   propertyOwnerFee (distributions (rd scnA_created) 0) = 50 \<and>
   netAmount (distributions (rd scnA_created) 0) = 925 \<and>
   totalTokensAtDistribution (distributions (rd scnA_created) 0) = 1000 \<and>
   investorDistributions (distributions (rd scnA_created) 0) addr_A = 555 \<and>
   investorDistributions (distributions (rd scnA_created) 0) addr_B = 370 \<and>
   dust (distributions (rd scnA_created) 0) = 0 \<and>
   claimDistribution addr_A 0 scnA_created =
     Inr (scnA_claimedA, [RentDistributed 0 addr_A 555]) \<and>
   claimDistribution addr_B 0 scnA_claimedA =
     Inr (scnA_claimedAB, [RentDistributed 0 addr_B 370, DistributionCompleted 0 925]) \<and>
   totalDistributed (distributions (rd scnA_claimedAB) 0) = 925 \<and>
   isCompleted (distributions (rd scnA_claimedAB) 0)"
  by (simp add: scn_sold_out_tok balanceOf_def scn_funded_fields scnA_created_eq
      scnA_created_fields netAmount_def dust_def allocated_def scnA_claimedA_eq
      scnA_claimedAB_eq scnA_claimedAB_fields)

lemma createDistribution_slot:
  assumes c: "createDistribution sender now pid g w = Inr (w', evs)"
  obtains pf mf net t where
    "compute_fees g (platformFeePercentage (rd w)) (managementFeePercentage (rd w)) = Inr (pf, mf, net)"
    "tokenAt w (propertyToToken (rd w) pid) = Some t"
    "distributionCounter (rd w') = distributionCounter (rd w) + 1"
    "\<And>j. j \<noteq> distributionCounter (rd w) \<Longrightarrow> distributions (rd w') j = distributions (rd w) j"
    "dist_totalRentCollected (distributions (rd w') (distributionCounter (rd w))) = g"
    "platformFee (distributions (rd w') (distributionCounter (rd w))) = pf"
    "propertyOwnerFee (distributions (rd w') (distributionCounter (rd w))) = mf"
    "totalTokensAtDistribution (distributions (rd w') (distributionCounter (rd w))) = erc20_totalSupply t"
    "dist_investors (distributions (rd w') (distributionCounter (rd w))) = investors t"
    "\<not> isCompleted (distributions (rd w') (distributionCounter (rd w)))"
    "claimed (distributions (rd w') (distributionCounter (rd w))) =
       claimed (distributions (rd w) (distributionCounter (rd w)))"
    "totalDistributed (distributions (rd w') (distributionCounter (rd w))) =
       totalDistributed (distributions (rd w) (distributionCounter (rd w)))"
    "\<And>a. investorDistributions (distributions (rd w') (distributionCounter (rd w))) a =
       (if a \<in> set (investors t) \<and> balanceOf t a > 0
        then net * balanceOf t a div erc20_totalSupply t
        else investorDistributions (distributions (rd w) (distributionCounter (rd w))) a)"
    "evs = [DistributionCreated (distributionCounter (rd w)) pid net (length (investors t))]"
proof -
  let ?c = "distributionCounter (rd w)"
  from c obtain pf mf net t d1 where
    cf: "compute_fees g (platformFeePercentage (rd w)) (managementFeePercentage (rd w)) = Inr (pf, mf, net)"
    and tk: "tokenAt w (propertyToToken (rd w) pid) = Some t"
    and al: "allocate_shares net t (getInvestors t)
       ((distributions (rd w) ?c)
          \<lparr>dist_propertyId := pid,
           fractionalTokenAddress := propertyToToken (rd w) pid,
           dist_totalRentCollected := g,
           distributionDate := now,
           totalTokensAtDistribution := erc20_totalSupply t,
           isCompleted := False,
           platformFee := pf,
           propertyOwnerFee := mf,
           dist_investors := getInvestors t\<rparr>) = Inr d1"
    and tf: "transfer_fees pid pf mf
       (w\<lparr>rd := (rd w)\<lparr>distributionCounter := ?c + 1,
            distributions := (distributions (rd w))(?c := d1)\<rparr>\<rparr>) = Inr w'"
    and ev: "evs = [DistributionCreated ?c pid net (length (getInvestors t))]"
    by (rule createDistribution_Inr)
  have rd': "rd w' = (rd w)\<lparr>distributionCounter := ?c + 1,
            distributions := (distributions (rd w))(?c := d1)\<rparr>"
    using transfer_fees_rd(1) [OF tf] by simp
  note d1 = allocate_shares_fields [OF al]
  note v = allocate_shares_values [OF al]
  show ?thesis
  proof (rule that [OF cf tk])
    show "distributionCounter (rd w') = ?c + 1" by (simp add: rd')
    show "\<And>j. j \<noteq> ?c \<Longrightarrow> distributions (rd w') j = distributions (rd w) j" by (simp add: rd')
    show "dist_totalRentCollected (distributions (rd w') ?c) = g" by (simp add: rd', subst d1, simp)
    show "platformFee (distributions (rd w') ?c) = pf" by (simp add: rd', subst d1, simp)
    show "propertyOwnerFee (distributions (rd w') ?c) = mf" by (simp add: rd', subst d1, simp)
    show "totalTokensAtDistribution (distributions (rd w') ?c) = erc20_totalSupply t"
      by (simp add: rd', subst d1, simp)
    show "dist_investors (distributions (rd w') ?c) = investors t"
      by (simp add: rd', subst d1, simp add: getInvestors_def)
    show "\<not> isCompleted (distributions (rd w') ?c)" by (simp add: rd', subst d1, simp)
    show "claimed (distributions (rd w') ?c) = claimed (distributions (rd w) ?c)"
      by (simp add: rd', subst d1, simp)
    show "totalDistributed (distributions (rd w') ?c) = totalDistributed (distributions (rd w) ?c)"
      by (simp add: rd', subst d1, simp)
    show "\<And>a. investorDistributions (distributions (rd w') ?c) a =
       (if a \<in> set (investors t) \<and> balanceOf t a > 0
        then net * balanceOf t a div erc20_totalSupply t
        else investorDistributions (distributions (rd w) ?c) a)"
      by (simp add: rd' v getInvestors_def)
    show "evs = [DistributionCreated ?c pid net (length (investors t))]"
      by (simp add: ev getInvestors_def)
  qed
qed

text \<open>
  C3. A distribution created with gross amount \<open>g\<close> stores \<open>g\<close>, the platform fee
  \<open>g * platformFeePercentage div 10000\<close> and the management fee
  \<open>g * managementFeePercentage div 10000\<close>; the net amount it announces is the rest, so
  the three add up to \<open>g\<close> exactly; and no later step of the contract changes any of them.
\<close>

theorem fee_exactness:
  assumes "createDistribution sender now pid g w = Inr (w1, evs)"
    and "rd_step\<^sup>*\<^sup>* w1 w2"
  shows "let i = distributionCounter (rd w);
             d1 = distributions (rd w1) i; d2 = distributions (rd w2) i
         in dist_totalRentCollected d1 = g \<and>
            platformFee d1 = g * platformFeePercentage (rd w) div 10000 \<and>
            propertyOwnerFee d1 = g * managementFeePercentage (rd w) div 10000 \<and>
            evs = [DistributionCreated i pid (netAmount d1) (length (dist_investors d1))] \<and>
            platformFee d1 + propertyOwnerFee d1 + netAmount d1 = g \<and>
            dist_totalRentCollected d2 = dist_totalRentCollected d1 \<and>
            platformFee d2 = platformFee d1 \<and>
            propertyOwnerFee d2 = propertyOwnerFee d1 \<and>
            netAmount d2 = netAmount d1"
proof -
  let ?i = "distributionCounter (rd w)"
  from assms(1) obtain pf mf net and t :: FractionalToken where
    cf: "compute_fees g (platformFeePercentage (rd w)) (managementFeePercentage (rd w)) = Inr (pf, mf, net)"
    and cnt: "distributionCounter (rd w1) = ?i + 1"
    and g: "dist_totalRentCollected (distributions (rd w1) ?i) = g"
    and pf: "platformFee (distributions (rd w1) ?i) = pf"
    and mf: "propertyOwnerFee (distributions (rd w1) ?i) = mf"
    and iv: "dist_investors (distributions (rd w1) ?i) = investors t"
    and ev: "evs = [DistributionCreated ?i pid net (length (investors t))]"
    by (rule createDistribution_slot) blast
  note f = compute_fees_Inr [OF cf]
  have net: "netAmount (distributions (rd w1) ?i) = net"
    by (simp add: netAmount_def g pf mf f(4))
  have "?i < distributionCounter (rd w1)" by (simp add: cnt)
  from rd_steps_created [OF assms(2) this]
  have s: "snapshot (distributions (rd w2) ?i) = snapshot (distributions (rd w1) ?i)" by simp
  note k = snapshot_fields [OF s]
  have net2: "netAmount (distributions (rd w2) ?i) = netAmount (distributions (rd w1) ?i)"
    by (simp add: netAmount_def k)
  show ?thesis
    using f(1,2,3) by (simp add: Let_def g pf mf net ev iv k net2)
qed

theorem fee_exactness_witness:
  "createDistribution addr_manager 300 0 1000 (scn_funded (tok scn_sold_out)) =
     Inr (scnA_created, [DistributionCreated 0 0 925 2]) \<and>
   rd_step\<^sup>*\<^sup>* scnA_created scnA_claimedAB \<and>
   platformFee (distributions (rd scnA_created) 0) = 25 \<and>
   propertyOwnerFee (distributions (rd scnA_created) 0) = 50 \<and>
   netAmount (distributions (rd scnA_created) 0) = 925 \<and>
   platformFee (distributions (rd scnA_claimedAB) 0) = 25 \<and>
   propertyOwnerFee (distributions (rd scnA_claimedAB) 0) = 50 \<and>
   netAmount (distributions (rd scnA_claimedAB) 0) = 925"
proof -
  have 1: "rd_step scnA_created scnA_claimedA"
    by (rule rd_transaction [where c = "Claim addr_A 0"]) (simp add: scnA_claimedA_eq)
  have 2: "rd_step scnA_claimedA scnA_claimedAB"
    by (rule rd_transaction [where c = "Claim addr_B 0"]) (simp add: scnA_claimedAB_eq)
  have s: "rd_step\<^sup>*\<^sup>* scnA_created scnA_claimedAB"
    using 1 2 by (meson rtranclp.rtrancl_into_rtrancl rtranclp.rtrancl_refl)
  show ?thesis
    using fee_exactness [OF scnA_created_eq s] s
    by (simp add: Let_def scn_funded_fields scnA_created_eq)
qed

section \<open>Allocations and dust\<close>

lemma floor_shares_split:
  fixes N D :: nat
  shows "sum_list (map (\<lambda>b. N * b div D) bs) * D + sum_list (map (\<lambda>b. N * b mod D) bs)
           = N * sum_list bs"
proof (induction bs)
  case Nil
  show ?case by simp
next
  case (Cons b bs)
  have "N * b div D * D + N * b mod D = N * b" by simp
  with Cons show ?case by (simp add: algebra_simps)
qed

lemma remainder_sum_bound:
  fixes N D :: nat
  assumes "D > 0"
  shows "sum_list (map (\<lambda>b. N * b mod D) bs) \<le> (D - 1) * length (filter (\<lambda>b. b > 0) bs)"
proof (induction bs)
  case Nil
  show ?case by simp
next
  case (Cons b bs)
  have "N * b mod D \<le> D - 1" using assms by (simp add: less_Suc_eq_le [symmetric])
  with Cons show ?case by (cases "b = 0") (auto simp: algebra_simps)
qed

lemma floor_shares_le:
  fixes N D :: nat
  assumes "sum_list bs \<le> D"
  shows "sum_list (map (\<lambda>b. N * b div D) bs) \<le> N"
proof (cases "D = 0")
  case True
  then show ?thesis by simp
next
  case False
  have "sum_list (map (\<lambda>b. N * b div D) bs) * D \<le> N * sum_list bs"
    using floor_shares_split [of N D bs] by simp
  also have "\<dots> \<le> N * D" using assms by simp
  finally show ?thesis using False by simp
qed

lemma floor_shares_dust:
  fixes N D :: nat
  assumes "sum_list bs = D" "D > 0"
  shows "N - sum_list (map (\<lambda>b. N * b div D) bs) < length (filter (\<lambda>b. b > 0) bs)"
proof -
  let ?A = "sum_list (map (\<lambda>b. N * b div D) bs)"
  let ?R = "sum_list (map (\<lambda>b. N * b mod D) bs)"
  let ?c = "length (filter (\<lambda>b. b > 0) bs)"
  have c: "?c > 0"
  proof (rule ccontr)
    assume "\<not> ?c > 0"
    then have "\<forall>b \<in> set bs. b = 0" by (auto simp: filter_empty_conv)
    then have "sum_list bs = 0" by (induction bs) auto
    with assms show False by simp
  qed
  have le: "?A \<le> N" using floor_shares_le [of bs D N] assms by simp
  have "?A * D + ?R = N * D" using floor_shares_split [of N D bs] assms by simp
  then have "(N - ?A) * D = ?R" using le by (simp add: diff_mult_distrib)
  also have "\<dots> \<le> (D - 1) * ?c" by (rule remainder_sum_bound [OF assms(2)])
  also have "\<dots> < D * ?c" using c assms(2) by simp
  finally show ?thesis by (simp add: mult.commute)
qed

lemma registered_shares_le:
  assumes "erc20_inv t"
  shows "registered_shares t \<le> erc20_totalSupply t"
proof -
  from assms have d: "distinct (investors t)" and s: "sum (balances t) UNIV = erc20_totalSupply t"
    by (simp_all add: erc20_inv_def)
  have "registered_shares t = sum (balances t) (set (investors t))"
    unfolding registered_shares_def balanceOf_def
    using d by (simp add: sum_list_distinct_conv_sum_set)
  also have "\<dots> \<le> sum (balances t) UNIV"
    by (rule sum_mono2) auto
  finally show ?thesis using s by simp
qed

lemma rd_inv_fresh_allocation:
  assumes "rd_inv r"
  shows "investorDistributions (distributions r (distributionCounter r)) = (\<lambda>_. 0)"
  using assms fresh_fields(1) [of "distributions r (distributionCounter r)"]
  by (simp add: rd_inv_def)

text \<open>
  C2 (as amended). A distribution created in a reachable state, for a token in a reachable
  state, takes the token's ERC20 total supply as its denominator and allocates
  \<open>netAmount * balance div denominator\<close> to every registered investor with a balance,
  nothing to anyone else; the allocations sum to at most \<open>netAmount\<close>; and when the
  registered investors hold the whole, nonzero, supply, the dust is strictly less than the
  number of registered investors with a balance.
\<close>

theorem allocation_bound:
  assumes c: "createDistribution sender now pid g w = Inr (w', evs)"
    and r: "rd_reachable w"
    and tk: "tokenAt w (propertyToToken (rd w) pid) = Some (tok wt)"
    and rt: "ft_reachable toContract minted wt"
  shows "let d = distributions (rd w') (distributionCounter (rd w)); t = tok wt
         in totalTokensAtDistribution d = erc20_totalSupply t \<and>
            (\<forall>a. investorDistributions d a =
               (if a \<in> set (investors t) \<and> balanceOf t a > 0
                then netAmount d * balanceOf t a div totalTokensAtDistribution d else 0)) \<and>
            allocated d \<le> netAmount d \<and>
            (registered_shares t = erc20_totalSupply t \<and> erc20_totalSupply t > 0 \<longrightarrow>
               dust d < length (holders_with_balance t))"
proof -
  let ?i = "distributionCounter (rd w)"
  let ?d = "distributions (rd w') ?i"
  let ?t = "tok wt"
  let ?D = "erc20_totalSupply ?t"
  from c obtain pf mf net and t :: FractionalToken where
    cf: "compute_fees g (platformFeePercentage (rd w)) (managementFeePercentage (rd w)) = Inr (pf, mf, net)"
    and tk': "tokenAt w (propertyToToken (rd w) pid) = Some t"
    and g: "dist_totalRentCollected ?d = g"
    and pf: "platformFee ?d = pf"
    and mf: "propertyOwnerFee ?d = mf"
    and den: "totalTokensAtDistribution ?d = erc20_totalSupply t"
    and iv: "dist_investors ?d = investors t"
    and al: "\<And>a. investorDistributions ?d a =
       (if a \<in> set (investors t) \<and> balanceOf t a > 0
        then net * balanceOf t a div erc20_totalSupply t
        else investorDistributions (distributions (rd w) ?i) a)"
    by (rule createDistribution_slot) blast
  from tk tk' have t: "t = ?t" by simp
  have net: "netAmount ?d = net"
    by (simp add: netAmount_def g pf mf compute_fees_Inr(4) [OF cf])
  have fresh: "investorDistributions (distributions (rd w) ?i) = (\<lambda>_. 0)"
    by (rule rd_inv_fresh_allocation [OF rd_reachable_rd_inv [OF r]])
  have al': "investorDistributions ?d a =
       (if a \<in> set (investors ?t) \<and> balanceOf ?t a > 0
        then net * balanceOf ?t a div ?D else 0)" for a
    using al [of a] by (simp add: t fresh)
  have m: "map (investorDistributions ?d) (investors ?t) =
          map (\<lambda>b. net * b div ?D) (map (balanceOf ?t) (investors ?t))"
    by (simp add: al')
  have alloc: "allocated ?d = sum_list (map (\<lambda>b. net * b div ?D) (map (balanceOf ?t) (investors ?t)))"
    unfolding allocated_def iv t m by (rule refl)
  have inv: "erc20_inv ?t" by (rule ft_reachable_erc20_inv [OF rt])
  have le: "allocated ?d \<le> net"
    unfolding alloc
    by (rule floor_shares_le) (use registered_shares_le [OF inv] in \<open>simp add: registered_shares_def\<close>)
  have du: "dust ?d < length (holders_with_balance ?t)"
    if "registered_shares ?t = ?D" "?D > 0"
  proof -
    have "net - sum_list (map (\<lambda>b. net * b div ?D) (map (balanceOf ?t) (investors ?t)))
            < length (filter (\<lambda>b. b > 0) (map (balanceOf ?t) (investors ?t)))"
      by (rule floor_shares_dust) (use that in \<open>simp_all add: registered_shares_def\<close>)
    then show ?thesis
      by (simp add: dust_def net alloc holders_with_balance_def filter_map comp_def)
  qed
  show ?thesis
    using den al' le du by (simp add: Let_def net t)
qed

lemma scn_A100_tok:
  "investors (tok scn_A100) = [addr_A]"
  "balances (tok scn_A100) addr_A = 100"
  "balances (tok scn_A100) addr_token = 900"
  "erc20_totalSupply (tok scn_A100) = 1000"
  "totalSupply (tokenInfo (tok scn_A100)) = 1000"
  "availableSupply (tokenInfo (tok scn_A100)) = 900"
  by (simp_all add: scn_A100_def scn_deployed_def ft_defs arith_defs scn_defs)

lemma scnU_created_eq:
  "createDistribution addr_manager 300 0 1000 (scn_funded (tok scn_A100)) =
     Inr (scnU_created, [DistributionCreated 0 0 925 1])"
  by (simp add: scnU_created_def scn_rd_eval scn_A100_tok [unfolded addr_defs])

lemma scnU_created_fields:
  "dist_totalRentCollected (distributions (rd scnU_created) 0) = 1000"
  "platformFee (distributions (rd scnU_created) 0) = 25"
  "propertyOwnerFee (distributions (rd scnU_created) 0) = 50"
  "totalTokensAtDistribution (distributions (rd scnU_created) 0) = 1000"
  "dist_investors (distributions (rd scnU_created) 0) = [addr_A]"
  "investorDistributions (distributions (rd scnU_created) 0) addr_A = 92"
  by (simp_all add: scnU_created_def scn_rd_eval scn_A100_tok [unfolded addr_defs])

text \<open>
  C2 as stated fails: the denominator is the total supply, unsold shares included. With
  A holding 100 of 1000 shares, a net amount of 925 gives A 92 and leaves a dust of 833,
  with one holder allocated.
\<close>

theorem allocation_bound_counterexample:
  "createDistribution addr_manager 300 0 1000 (scn_funded (tok scn_A100)) =
     Inr (scnU_created, [DistributionCreated 0 0 925 1]) \<and>
   netAmount (distributions (rd scnU_created) 0) = 925 \<and>
   allocated (distributions (rd scnU_created) 0) = 92 \<and>
   dust (distributions (rd scnU_created) 0) = 833 \<and>
   length (holders_with_allocation (distributions (rd scnU_created) 0)) = 1 \<and>
   \<not> dust (distributions (rd scnU_created) 0)
       < length (holders_with_allocation (distributions (rd scnU_created) 0))"
  by (simp add: scnU_created_eq scnU_created_fields netAmount_def allocated_def dust_def
      holders_with_allocation_def)

lemma scnS_created_eq:
  "createDistribution addr_manager 300 0 1 (scn_funded (tok scn_sold_out)) =
     Inr (scnS_created, [DistributionCreated 0 0 1 2])"
  by (simp add: scnS_created_def scn_rd_eval scn_sold_out_tok [unfolded addr_defs])

lemma scnS_created_fields:
  "dist_totalRentCollected (distributions (rd scnS_created) 0) = 1"
  "platformFee (distributions (rd scnS_created) 0) = 0"
  "propertyOwnerFee (distributions (rd scnS_created) 0) = 0"
  "dist_investors (distributions (rd scnS_created) 0) = [addr_A, addr_B]"
  "investorDistributions (distributions (rd scnS_created) 0) addr_A = 0"
  "investorDistributions (distributions (rd scnS_created) 0) addr_B = 0"
  by (simp_all add: scnS_created_def scn_rd_eval scn_sold_out_tok [unfolded addr_defs])

text \<open>
  Why the amended bound counts the holders with a balance: with every share sold, a net
  amount of 1 wei is allocated to nobody, so the dust is 1 and no holder has an allocation.
\<close>

lemma dust_without_allocated_holder:
  "dust (distributions (rd scnS_created) 0) = 1 \<and>
   holders_with_allocation (distributions (rd scnS_created) 0) = [] \<and>
   length (holders_with_balance (tok scn_sold_out)) = 2"
  by (simp add: scnS_created_fields netAmount_def allocated_def dust_def
      holders_with_allocation_def holders_with_balance_def balanceOf_def scn_sold_out_tok)


lemma scn_funded_reachable: "rd_reachable (scn_funded t)"
proof -
  have 0: "rd_reachable (scn_rent_deployed t)"
    unfolding scn_rent_deployed_def by (rule rd_deployed)
  have 1: "rd_step (scn_rent_deployed t) (scn_registered t)"
    by (rule rd_transaction [where c = "Register addr_operator 0 addr_token"])
       (simp add: scn_registered_eq)
  have 2: "rd_step (scn_registered t) (scn_funded t)"
    by (rule rd_transaction [where c = "Deposit addr_manager 1000 0"])
       (simp add: scn_funded_eq)
  show ?thesis using 0 1 2 by (blast intro: rd_stepped)
qed

theorem allocation_bound_witness:
  "createDistribution addr_manager 300 0 1000 (scn_funded (tok scn_sold_out)) =
     Inr (scnA_created, [DistributionCreated 0 0 925 2]) \<and>
   rd_reachable (scn_funded (tok scn_sold_out)) \<and>
   ft_reachable False 1000 scn_sold_out \<and>
   registered_shares (tok scn_sold_out) = erc20_totalSupply (tok scn_sold_out) \<and>
   erc20_totalSupply (tok scn_sold_out) > 0 \<and>
   investorDistributions (distributions (rd scnA_created) 0) addr_A =
     netAmount (distributions (rd scnA_created) 0) * 600 div 1000 \<and>
   allocated (distributions (rd scnA_created) 0) \<le> netAmount (distributions (rd scnA_created) 0) \<and>
   dust (distributions (rd scnA_created) 0) < length (holders_with_balance (tok scn_sold_out))"
proof -
  have tk: "tokenAt (scn_funded (tok scn_sold_out))
              (propertyToToken (rd (scn_funded (tok scn_sold_out))) 0) = Some (tok scn_sold_out)"
    by (simp add: scn_funded_fields)
  have rs: "registered_shares (tok scn_sold_out) = erc20_totalSupply (tok scn_sold_out)"
    by (simp add: registered_shares_def balanceOf_def scn_sold_out_tok)
  show ?thesis
    using allocation_bound [OF scnA_created_eq scn_funded_reachable tk scn_sold_out_reachable [of False]]
      scn_funded_reachable [of "tok scn_sold_out"] scn_sold_out_reachable [of False] rs
    by (simp add: Let_def scn_funded_fields scnA_created_eq scn_sold_out_tok balanceOf_def
        scnA_created_fields)
qed

section \<open>Completion\<close>

lemma allClaimed_loop_all:
  assumes "dist_inv d"
  shows "allClaimed_loop d (dist_investors d) \<longleftrightarrow> all_allocations_claimed d"
  using assms by (auto simp: allClaimed_loop_iff all_allocations_claimed_def dist_inv_def)

lemma claimDistribution_completed_iff:
  assumes c: "claimDistribution sender i w = Inr (w', evs)" and inv: "rd_inv (rd w)"
  shows "isCompleted (distributions (rd w') i) \<longleftrightarrow> all_allocations_claimed (distributions (rd w') i)"
proof -
  have ex: "rd_exec (Claim sender i) w = Inr (w', evs)" using c by simp
  have "rd_inv (rd w')" by (rule rd_exec_rd_inv [OF ex inv])
  then have di: "dist_inv (distributions (rd w') i)" by (simp add: rd_inv_def)
  have "snapshot (distributions (rd w') i) = snapshot (distributions (rd w) i)"
    using rd_exec_snapshot_other [OF ex, of i] by simp
  then have "dist_investors (distributions (rd w') i) = dist_investors (distributions (rd w) i)"
    by (rule snapshot_fields)
  then show ?thesis
    using claimDistribution_rd(2) [OF c] allClaimed_loop_all [OF di] by simp
qed

lemma batchDistribute_completed_iff:
  assumes c: "batchDistribute sender i w = Inr (w', evs)" and inv: "rd_inv (rd w)"
  shows "isCompleted (distributions (rd w') i) \<longleftrightarrow> all_allocations_claimed (distributions (rd w') i)"
proof -
  have ex: "rd_exec (Batch sender i) w = Inr (w', evs)" using c by simp
  have "rd_inv (rd w')" by (rule rd_exec_rd_inv [OF ex inv])
  then have di: "dist_inv (distributions (rd w') i)" by (simp add: rd_inv_def)
  have "snapshot (distributions (rd w') i) = snapshot (distributions (rd w) i)"
    using rd_exec_snapshot_other [OF ex, of i] by simp
  then have "dist_investors (distributions (rd w') i) = dist_investors (distributions (rd w) i)"
    by (rule snapshot_fields)
  then show ?thesis
    using batchDistribute_rd(2) [OF c] allClaimed_loop_all [OF di] by simp
qed

text \<open>
  C5 (as amended). In a reachable state: a created distribution, one whose id is below
  the counter, that is completed stays completed in every later state; after a successful
  \<open>claimDistribution\<close> or \<open>batchDistribute\<close> the distribution is completed exactly when
  every holder with an allocation has claimed; and the completion check changes nothing
  on a completed distribution.
\<close>

theorem completion_one_way_and_exact:
  assumes "rd_reachable w"
  shows "(rd_step\<^sup>*\<^sup>* w w' \<and> i < distributionCounter (rd w) \<and>
            isCompleted (distributions (rd w) i) \<longrightarrow>
          isCompleted (distributions (rd w') i)) \<and>
         (claimDistribution sender j w = Inr (w1, evs) \<or>
            batchDistribute sender j w = Inr (w1, evs) \<longrightarrow>
          (isCompleted (distributions (rd w1) j) \<longleftrightarrow>
             all_allocations_claimed (distributions (rd w1) j))) \<and>
         (isCompleted (distributions (rd w) k) \<longrightarrow>
          checkDistributionCompletion k (rd w) = (rd w, []))"
proof (intro conjI impI)
  assume "rd_step\<^sup>*\<^sup>* w w' \<and> i < distributionCounter (rd w) \<and> isCompleted (distributions (rd w) i)"
  then show "isCompleted (distributions (rd w') i)"
    using rd_steps_created [of w w' i] by simp
next
  assume "claimDistribution sender j w = Inr (w1, evs) \<or> batchDistribute sender j w = Inr (w1, evs)"
  then show "isCompleted (distributions (rd w1) j) \<longleftrightarrow> all_allocations_claimed (distributions (rd w1) j)"
    using claimDistribution_completed_iff batchDistribute_completed_iff
      rd_reachable_rd_inv [OF assms] by blast
next
  assume "isCompleted (distributions (rd w) k)"
  then show "checkDistributionCompletion k (rd w) = (rd w, [])"
    by (rule checkDistributionCompletion_completed)
qed

lemma scnA_created_reachable: "rd_reachable scnA_created"
  by (rule rd_stepped [OF scn_funded_reachable [of "tok scn_sold_out"]])
     (rule rd_transaction [where c = "Create addr_manager 300 0 1000"], simp add: scnA_created_eq)

lemma scnA_claimedA_reachable: "rd_reachable scnA_claimedA"
  by (rule rd_stepped [OF scnA_created_reachable])
     (rule rd_transaction [where c = "Claim addr_A 0"], simp add: scnA_claimedA_eq)

lemma scnA_claimedAB_reachable: "rd_reachable scnA_claimedAB"
  by (rule rd_stepped [OF scnA_claimedA_reachable])
     (rule rd_transaction [where c = "Claim addr_B 0"], simp add: scnA_claimedAB_eq)

lemma scn_counter:
  "distributionCounter (rd scnA_created) = 1"
  "distributionCounter (rd scnA_claimedA) = 1"
  "distributionCounter (rd scnA_claimedAB) = 1"
  by (simp_all add: scnA_claimedAB_def scnA_claimedA_def scnA_created_def scn_rd_eval
      scn_sold_out_tok [unfolded addr_defs])

theorem completion_one_way_and_exact_witness:
  "rd_reachable scnA_claimedA \<and> rd_reachable scnA_claimedAB \<and>
   claimDistribution addr_B 0 scnA_claimedA =
     Inr (scnA_claimedAB, [RentDistributed 0 addr_B 370, DistributionCompleted 0 925]) \<and>
   isCompleted (distributions (rd scnA_claimedAB) 0) \<and>
   all_allocations_claimed (distributions (rd scnA_claimedAB) 0) \<and>
   rd_step\<^sup>*\<^sup>* scnA_claimedAB scnA_claimedAB \<and> 0 < distributionCounter (rd scnA_claimedAB) \<and>
   checkDistributionCompletion 0 (rd scnA_claimedAB) = (rd scnA_claimedAB, [])"
  using completion_one_way_and_exact [OF scnA_claimedA_reachable,
      of scnA_claimedA 0 addr_B 0 scnA_claimedAB
         "[RentDistributed 0 addr_B 370, DistributionCompleted 0 925]" 0]
    completion_one_way_and_exact [OF scnA_claimedAB_reachable,
      of scnA_claimedAB 0 addr_B 0 scnA_claimedAB "[]" 0]
    scnA_claimedA_reachable scnA_claimedAB_reachable
  by (simp add: scnA_claimedAB_eq scnA_claimedAB_fields scn_counter)

text \<open>
  C5 as stated fails for an id that has not been created yet: no function checks that a
  distribution exists. \<open>batchDistribute\<close> on id 0 before any distribution exists finds no
  investor and sets the completion flag of the empty slot; \<open>createDistribution\<close> clears
  the flag when it fills the slot; a later \<open>batchDistribute\<close> sets it again. The flag of
  id 0 goes from false to true twice and is reset in between.
\<close>

theorem completion_one_way_and_exact_counterexample:
  "rd_reachable (scn_funded (tok scn_sold_out)) \<and>
   distributionCounter (rd (scn_funded (tok scn_sold_out))) = 0 \<and>
   \<not> isCompleted (distributions (rd (scn_funded (tok scn_sold_out))) 0) \<and>
   batchDistribute addr_operator 0 (scn_funded (tok scn_sold_out)) =
     Inr (scn_precompleted, [DistributionCompleted 0 0]) \<and>
   isCompleted (distributions (rd scn_precompleted) 0) \<and>
   createDistribution addr_manager 300 0 1000 scn_precompleted =
     Inr (scn_precompleted_created, [DistributionCreated 0 0 925 2]) \<and>
   \<not> isCompleted (distributions (rd scn_precompleted_created) 0) \<and>
   batchDistribute addr_operator 0 scn_precompleted_created =
     Inr (scn_precompleted_batched,
          [RentDistributed 0 addr_A 555, RentDistributed 0 addr_B 370, DistributionCompleted 0 925]) \<and>
   isCompleted (distributions (rd scn_precompleted_batched) 0)"
  using scn_funded_reachable [of "tok scn_sold_out"]
  by (simp add: scn_precompleted_batched_def scn_precompleted_created_def scn_precompleted_def
      scn_rd_eval scn_sold_out_tok [unfolded addr_defs])

section \<open>No double payout\<close>

lemma batch_loop_eth:
  assumes "batch_loop i as w = Inr (w', evs)"
    and "claimed (distributions (rd w) i) h" and "h \<noteq> rd_self (rd w)"
  shows "eth w' h = eth w h"
  using assms
proof (induction as arbitrary: w evs)
  case Nil
  then show ?case by simp
next
  case (Cons b as)
  show ?case
  proof (cases "\<not> claimed (distributions (rd w) i) b \<and> investorDistributions (distributions (rd w) i) b > 0")
    case True
    with Cons.prems(1) obtain w2 evs2 td where
      p: "pay_transfer (rd_self (rd w)) b (investorDistributions (distributions (rd w) i) b)
            (w\<lparr>rd := (rd w)\<lparr>distributions := (distributions (rd w))(i :=
               (distributions (rd w) i)\<lparr>claimed := (claimed (distributions (rd w) i))(b := True),
                  totalDistributed := td\<rparr>)\<rparr>\<rparr>) = Inr w2"
      and r: "batch_loop i as w2 = Inr (w', evs2)"
      by (auto simp: Let_def split: sum.splits prod.splits)
    have w2: "rd w2 = (rd w)\<lparr>distributions := (distributions (rd w))(i :=
               (distributions (rd w) i)\<lparr>claimed := (claimed (distributions (rd w) i))(b := True),
                  totalDistributed := td\<rparr>)\<rparr>"
      using pay_transfer_rd(1) [OF p] by simp
    from True Cons.prems(2) have ne: "b \<noteq> h" by auto
    have e2: "eth w2 h = eth w h"
      using pay_transfer_rd(5) [OF p] ne Cons.prems(3) by (simp add: move_eth_def Let_def)
    have "eth w' h = eth w2 h"
      by (rule Cons.IH [OF r]) (use Cons.prems(2,3) in \<open>simp_all add: w2\<close>)
    with e2 show ?thesis by simp
  next
    case False
    with Cons.prems(1) have "batch_loop i as w = Inr (w', evs)"
      by (auto simp: Let_def split: if_splits)
    then show ?thesis using Cons.prems(2,3) by (rule Cons.IH)
  qed
qed

lemma paid_to_append: "paid_to a i (xs @ ys) = paid_to a i xs @ paid_to a i ys"
  by (simp add: paid_to_def)

lemma checkDistributionCompletion_paid:
  "paid_to a i (snd (checkDistributionCompletion j r)) = []"
  by (simp add: checkDistributionCompletion_def Let_def paid_to_def)

lemma batchDistribute_paid:
  assumes "batchDistribute sender i w = Inr (w', evs)"
  shows "paid_to a i evs =
           (if a \<in> set (dist_investors (distributions (rd w) i)) \<and>
               \<not> claimed (distributions (rd w) i) a \<and>
               investorDistributions (distributions (rd w) i) a > 0
            then [investorDistributions (distributions (rd w) i) a] else [])"
proof -
  from assms obtain w1 evs1 where
    b: "batch_loop i (dist_investors (distributions (rd w) i)) w = Inr (w1, evs1)" and
    evs: "evs = evs1 @ snd (checkDistributionCompletion i (rd w1))"
    by (rule batchDistribute_Inr)
  show ?thesis
    by (simp add: evs paid_to_append checkDistributionCompletion_paid batch_loop_paid [OF b])
qed

lemma batchDistribute_eth:
  assumes "batchDistribute sender i w = Inr (w', evs)"
    and "claimed (distributions (rd w) i) h" and "h \<noteq> rd_self (rd w)"
  shows "eth w' h = eth w h"
proof -
  from assms(1) obtain w1 evs1 where
    b: "batch_loop i (dist_investors (distributions (rd w) i)) w = Inr (w1, evs1)" and
    w': "w' = w1\<lparr>rd := fst (checkDistributionCompletion i (rd w1))\<rparr>"
    by (rule batchDistribute_Inr)
  show ?thesis using batch_loop_eth [OF b assms(2,3)] by (simp add: w')
qed

lemma claimDistribution_claimed:
  assumes "claimed (distributions (rd w) i) h"
  shows "claimDistribution h i w =
           Inl (if rd_paused (rd w) then Paused
                else if isCompleted (distributions (rd w) i) then DistributionCompletedAlready
                else AlreadyClaimed)"
  using assms by (simp add: claimDistribution_def Let_def)

lemma claimDistribution_marks:
  assumes "claimDistribution h i w0 = Inr (w, evs0)"
  shows "claimed (distributions (rd w) i) h"
  by (subst claimDistribution_rd(1) [OF assms]) simp

lemma rd_exec_claimed:
  assumes ex: "rd_exec c w = Inr (w', evs)" and i: "i < distributionCounter (rd w)"
    and cl: "claimed (distributions (rd w) i) h"
  shows "claimed (distributions (rd w') i) h"
proof (cases c)
  case (Register sender pid a)
  with ex cl show ?thesis
    by (auto simp: registerFractionalToken_def split: if_splits sum.splits)
next
  case (Deposit sender v pid)
  with ex cl show ?thesis using depositRent_rd by fastforce
next
  case (Create sender now pid g)
  with ex have "createDistribution sender now pid g w = Inr (w', evs)" by simp
  then obtain d1 where
    "rd w' = (rd w)\<lparr>distributionCounter := distributionCounter (rd w) + 1,
            distributions := (distributions (rd w))(distributionCounter (rd w) := d1)\<rparr>"
    by (rule createDistribution_rd)
  with i cl show ?thesis by simp
next
  case (Claim sender j)
  with ex have "claimDistribution sender j w = Inr (w', evs)" by simp
  note r = claimDistribution_rd(1) [OF this]
  show ?thesis by (subst r) (use cl in auto)
next
  case (Batch sender j)
  with ex have b: "batchDistribute sender j w = Inr (w', evs)" by simp
  show ?thesis
  proof (cases "j = i")
    case True
    then show ?thesis using batchDistribute_rd(3) [OF b, of h] cl by simp
  next
    case False
    then show ?thesis by (subst batchDistribute_rd(1) [OF b]) (use cl in simp)
  qed
next
  case (UpdateFees sender p m)
  with ex cl show ?thesis by (auto simp: updateFees_def split: if_splits)
next
  case (PauseRD sender)
  with ex cl show ?thesis by (auto simp: pause_rd_def split: if_splits sum.splits)
next
  case (UnpauseRD sender)
  with ex cl show ?thesis by (auto simp: unpause_rd_def split: if_splits sum.splits)
next
  case (EmergencyWithdrawRD sender)
  with ex cl show ?thesis
    by (auto simp: emergencyWithdraw_rd_def pay_transfer_def split: if_splits sum.splits)
next
  case (TransferOwnershipRD sender newOwner)
  with ex cl show ?thesis
    by (auto simp: transferOwnership_rd_def split: if_splits sum.splits)
next
  case (RenounceOwnershipRD sender)
  with ex cl show ?thesis
    by (auto simp: renounceOwnership_rd_def split: if_splits sum.splits)
qed

lemma rd_step_claimed:
  assumes "rd_step w w'" "i < distributionCounter (rd w)" "claimed (distributions (rd w) i) h"
  shows "claimed (distributions (rd w') i) h"
  using assms
proof (cases rule: rd_step.cases)
  case (rd_environment n e c ts)
  with assms(3) show ?thesis by simp
next
  case (rd_transaction c evs)
  then show ?thesis using rd_exec_claimed assms(2,3) by blast
qed

lemma rd_steps_claimed:
  assumes "rd_step\<^sup>*\<^sup>* w w'" "i < distributionCounter (rd w)" "claimed (distributions (rd w) i) h"
  shows "claimed (distributions (rd w') i) h"
  using assms
proof (induction rule: rtranclp_induct)
  case base
  then show ?case by simp
next
  case (step y z)
  have "i < distributionCounter (rd y)"
    using rd_steps_created [OF step.hyps(1) step.prems(1)] by simp
  then show ?case using rd_step_claimed [OF step.hyps(2)] step.IH step.prems by blast
qed

text \<open>
  C6 (as amended). A successful claim marks the claimant, and the mark of a created
  distribution stays in every later state. Once a holder is marked claimed in a
  distribution, a further \<open>claimDistribution\<close> by that holder reverts, so no state
  changes: with \<open>AlreadyClaimed\<close> while the contract is not paused and the distribution is
  not completed, with the pause or the completed error otherwise. A \<open>batchDistribute\<close>
  pass pays nothing to a holder already marked claimed, leaves the mark and the holder's
  ether as they are, and pays any holder at most once.
\<close>

theorem no_double_payout:
  "(claimDistribution h i w0 = Inr (w, evs0) \<longrightarrow> claimed (distributions (rd w) i) h) \<and>
   (rd_step\<^sup>*\<^sup>* w w2 \<and> i < distributionCounter (rd w) \<and> claimed (distributions (rd w) i) h \<longrightarrow>
      claimed (distributions (rd w2) i) h) \<and>
   (claimed (distributions (rd w) i) h \<longrightarrow>
      claimDistribution h i w =
        Inl (if rd_paused (rd w) then Paused
             else if isCompleted (distributions (rd w) i) then DistributionCompletedAlready
             else AlreadyClaimed) \<and>
      (batchDistribute sender i w = Inr (w', evs) \<longrightarrow>
         paid_to h i evs = [] \<and> claimed (distributions (rd w') i) h \<and>
         (h \<noteq> rd_self (rd w) \<longrightarrow> eth w' h = eth w h))) \<and>
   (batchDistribute sender i w = Inr (w', evs) \<longrightarrow> length (paid_to a i evs) \<le> 1)"
proof (intro conjI impI)
  assume "claimDistribution h i w0 = Inr (w, evs0)"
  then show "claimed (distributions (rd w) i) h" by (rule claimDistribution_marks)
next
  assume "rd_step\<^sup>*\<^sup>* w w2 \<and> i < distributionCounter (rd w) \<and> claimed (distributions (rd w) i) h"
  then show "claimed (distributions (rd w2) i) h" using rd_steps_claimed by blast
next
  assume "claimed (distributions (rd w) i) h"
  then show "claimDistribution h i w =
        Inl (if rd_paused (rd w) then Paused
             else if isCompleted (distributions (rd w) i) then DistributionCompletedAlready
             else AlreadyClaimed)"
    by (rule claimDistribution_claimed)
next
  assume "claimed (distributions (rd w) i) h" "batchDistribute sender i w = Inr (w', evs)"
  then show "paid_to h i evs = []" by (simp add: batchDistribute_paid)
next
  assume "claimed (distributions (rd w) i) h" "batchDistribute sender i w = Inr (w', evs)"
  then show "claimed (distributions (rd w') i) h" by (simp add: batchDistribute_rd(3))
next
  assume "claimed (distributions (rd w) i) h" "batchDistribute sender i w = Inr (w', evs)"
    "h \<noteq> rd_self (rd w)"
  then show "eth w' h = eth w h" using batchDistribute_eth by blast
next
  assume "batchDistribute sender i w = Inr (w', evs)"
  then show "length (paid_to a i evs) \<le> 1" by (simp add: batchDistribute_paid)
qed

lemma scnA_batched_eq:
  "batchDistribute addr_operator 0 scnA_claimedA =
     Inr (scnA_batched, [RentDistributed 0 addr_B 370, DistributionCompleted 0 925])"
  by (simp add: scnA_batched_def scnA_claimedA_def scnA_created_def scn_rd_eval
      scn_sold_out_tok [unfolded addr_defs])

lemma scnA_batched_fields:
  "totalDistributed (distributions (rd scnA_batched) 0) = 925"
  "isCompleted (distributions (rd scnA_batched) 0)"
  "claimed (distributions (rd scnA_batched) 0) addr_A"
  "claimed (distributions (rd scnA_batched) 0) addr_B"
  "eth scnA_batched addr_A = 5555" "eth scnA_batched addr_B = 5370"
  "eth scnA_batched addr_rent = 0"
  by (simp_all add: scnA_batched_def scnA_claimedA_def scnA_created_def scn_rd_eval
      scn_sold_out_tok [unfolded addr_defs])

lemma scnA_claimedA_eth:
  "eth scnA_claimedA addr_A = 5555" "eth scnA_claimedA addr_B = 5000"
  "rd_self (rd scnA_claimedA) = addr_rent" "\<not> rd_paused (rd scnA_claimedA)"
  by (simp_all add: scnA_claimedA_def scnA_created_def scn_rd_eval
      scn_sold_out_tok [unfolded addr_defs])

theorem no_double_payout_witness:
  "claimDistribution addr_A 0 scnA_created = Inr (scnA_claimedA, [RentDistributed 0 addr_A 555]) \<and>
   claimed (distributions (rd scnA_claimedA) 0) addr_A \<and>
   rd_step\<^sup>*\<^sup>* scnA_claimedA scnA_claimedAB \<and> 0 < distributionCounter (rd scnA_claimedA) \<and>
   claimed (distributions (rd scnA_claimedAB) 0) addr_A \<and>
   claimDistribution addr_A 0 scnA_claimedA = Inl AlreadyClaimed \<and>
   batchDistribute addr_operator 0 scnA_claimedA =
     Inr (scnA_batched, [RentDistributed 0 addr_B 370, DistributionCompleted 0 925]) \<and>
   paid_to addr_A 0 [RentDistributed 0 addr_B 370, DistributionCompleted 0 925] = [] \<and>
   addr_A \<noteq> rd_self (rd scnA_claimedA) \<and>
   eth scnA_batched addr_A = eth scnA_claimedA addr_A \<and>
   length (paid_to addr_B 0 [RentDistributed 0 addr_B 370, DistributionCompleted 0 925]) \<le> 1"
proof -
  have ne: "addr_A \<noteq> rd_self (rd scnA_claimedA)"
    by (simp add: scnA_claimedA_eth addr_defs)
  have "rd_step scnA_claimedA scnA_claimedAB"
    by (rule rd_transaction [where c = "Claim addr_B 0"]) (simp add: scnA_claimedAB_eq)
  then have st: "rd_step\<^sup>*\<^sup>* scnA_claimedA scnA_claimedAB" by (rule r_into_rtranclp)
  show ?thesis
    using no_double_payout [where h = addr_A and i = 0 and ?w0.0 = scnA_created
        and w = scnA_claimedA and ?evs0.0 = "[RentDistributed 0 addr_A 555]"
        and ?w2.0 = scnA_claimedAB and sender = addr_operator and w' = scnA_batched
        and evs = "[RentDistributed 0 addr_B 370, DistributionCompleted 0 925]" and a = addr_B]
      ne st
    by (simp add: scnA_claimedA_eq scnA_batched_eq scnA_claimedA_fields scnA_claimedA_eth(4)
        scn_counter)
qed

text \<open>
  C6 as stated fails on the error: the completion check comes first, so a holder who has
  claimed and claims again after the distribution is completed gets the completed error,
  not \<open>AlreadyClaimed\<close>.
\<close>

theorem no_double_payout_counterexample:
  "claimed (distributions (rd scnA_claimedAB) 0) addr_A \<and>
   claimDistribution addr_A 0 scnA_claimedAB = Inl DistributionCompletedAlready \<and>
   claimDistribution addr_A 0 scnA_claimedAB \<noteq> Inl AlreadyClaimed"
proof -
  have p: "\<not> rd_paused (rd scnA_claimedAB)"
    by (simp add: scnA_claimedAB_def scnA_claimedA_def scnA_created_def scn_rd_eval
        scn_sold_out_tok [unfolded addr_defs])
  show ?thesis
    using claimDistribution_claimed [OF scnA_claimedAB_fields(3)] p
    by (simp add: scnA_claimedAB_fields)
qed

section \<open>Pause\<close>

lemma purchaseTokens_paused:
  assumes "ft_paused (tok w)"
  shows "purchaseTokens sender v now amt w =
           Inl (if eth w sender < v then CallerLacksFunds
                else if \<not> kycVerified (nft w) sender then KYCRequired
                else if \<not> isActive (tokenInfo (tok w)) then TokenNotActive
                else Paused)"
  using assms by (simp add: purchaseTokens_def receive_value_def Let_def)

lemma sellTokens_paused:
  assumes "ft_paused (tok w)"
  shows "sellTokens sender amt w =
           Inl (if \<not> kycVerified (nft w) sender then KYCRequired else Paused)"
  using assms by (simp add: sellTokens_def Let_def)

lemma depositRent_paused:
  assumes "rd_paused (rd w)"
  shows "depositRent sender v pid w =
           Inl (if eth w sender < v then CallerLacksFunds
                else if \<not> property_exists (nft w) pid then PropertyDoesNotExist
                else if propertyOwner (nft w) pid \<noteq> sender then NotPropertyOwner
                else Paused)"
  using assms
  by (simp add: depositRent_def receive_value_def onlyPropertyOwner_def getProperty_owner_def)

lemma createDistribution_paused:
  assumes "rd_paused (rd w)"
  shows "createDistribution sender now pid g w =
           Inl (if \<not> property_exists (nft w) pid then PropertyDoesNotExist
                else if propertyOwner (nft w) pid \<noteq> sender then NotPropertyOwner
                else Paused)"
  using assms
  by (simp add: createDistribution_def onlyPropertyOwner_def getProperty_owner_def)

lemma claimDistribution_paused:
  assumes "rd_paused (rd w)"
  shows "claimDistribution sender i w = Inl Paused"
  using assms by (simp add: claimDistribution_def Let_def)

lemma batchDistribute_paused:
  assumes "rd_paused (rd w)"
  shows "batchDistribute sender i w = Inl (if rd_owner (rd w) \<noteq> sender then NotOwner else Paused)"
  using assms by (simp add: batchDistribute_def Let_def)

lemma queries_ignore_pause:
  "getOwnershipPercentage (s\<lparr>ft_paused := p\<rparr>) a = getOwnershipPercentage s a"
  "balanceOf (s\<lparr>ft_paused := p\<rparr>) a = balanceOf s a"
  "getInvestors (s\<lparr>ft_paused := p\<rparr>) = getInvestors s"
  "getInvestorDistribution (r\<lparr>rd_paused := p\<rparr>) i a = getInvestorDistribution r i a"
  "getDistributionInvestors (r\<lparr>rd_paused := p\<rparr>) i = getDistributionInvestors r i"
  by (simp_all add: getOwnershipPercentage_def balanceOf_def getInvestors_def
      getInvestorDistribution_def getDistributionInvestors_def Let_def split: sum.splits)

text \<open>
  C7 (as amended). While a contract is paused, every call of its purchase, sale, deposit,
  create, claim and batch-distribute functions reverts. The pause check is the first check
  in \<open>claimDistribution\<close> only: elsewhere the checks on the caller (KYC, active token,
  property owner, contract owner) come first and decide the error. The read-only queries
  do not look at the pause flag.
\<close>

theorem pause_rejects:
  "(ft_paused (tok w) \<longrightarrow>
      purchaseTokens sender v now amt w =
        Inl (if eth w sender < v then CallerLacksFunds
             else if \<not> kycVerified (nft w) sender then KYCRequired
             else if \<not> isActive (tokenInfo (tok w)) then TokenNotActive
             else Paused) \<and>
      sellTokens sender amt w =
        Inl (if \<not> kycVerified (nft w) sender then KYCRequired else Paused)) \<and>
   (rd_paused (rd r) \<longrightarrow>
      depositRent sender v pid r =
        Inl (if eth r sender < v then CallerLacksFunds
             else if \<not> property_exists (nft r) pid then PropertyDoesNotExist
             else if propertyOwner (nft r) pid \<noteq> sender then NotPropertyOwner
             else Paused) \<and>
      createDistribution sender now pid g r =
        Inl (if \<not> property_exists (nft r) pid then PropertyDoesNotExist
             else if propertyOwner (nft r) pid \<noteq> sender then NotPropertyOwner
             else Paused) \<and>
      claimDistribution sender i r = Inl Paused \<and>
      batchDistribute sender i r =
        Inl (if rd_owner (rd r) \<noteq> sender then NotOwner else Paused)) \<and>
   getOwnershipPercentage ((tok w)\<lparr>ft_paused := p\<rparr>) a = getOwnershipPercentage (tok w) a \<and>
   balanceOf ((tok w)\<lparr>ft_paused := p\<rparr>) a = balanceOf (tok w) a \<and>
   getInvestors ((tok w)\<lparr>ft_paused := p\<rparr>) = getInvestors (tok w) \<and>
   getInvestorDistribution ((rd r)\<lparr>rd_paused := p\<rparr>) i a = getInvestorDistribution (rd r) i a \<and>
   getDistributionInvestors ((rd r)\<lparr>rd_paused := p\<rparr>) i = getDistributionInvestors (rd r) i"
  by (simp add: purchaseTokens_paused sellTokens_paused depositRent_paused
      createDistribution_paused claimDistribution_paused batchDistribute_paused
      queries_ignore_pause)

lemma scn_paused_eq: "pause_token addr_operator scn_sold_out = Inr scn_paused"
  by (simp add: scn_paused_def scn_sold_out_def scn_A600_def scn_deployed_def ft_defs
      arith_defs scn_defs)

lemma scn_paused_fields:
  "ft_paused (tok scn_paused)" "isActive (tokenInfo (tok scn_paused))"
  "kycVerified (nft scn_paused) addr_A" "\<not> kycVerified (nft scn_paused) addr_manager"
  "eth scn_paused addr_A = 3800" "eth scn_paused addr_manager = 5000"
  "balances (tok scn_paused) addr_A = 600"
  by (simp_all add: scn_paused_def scn_sold_out_def scn_A600_def scn_deployed_def ft_defs
      arith_defs scn_defs)

lemma scn_rd_paused_eq: "pause_rd addr_operator scnA_created = Inr scn_rd_paused"
  by (simp add: scn_rd_paused_def pause_rd_def scnA_created_def scn_rd_eval
      scn_sold_out_tok [unfolded addr_defs])

lemma scn_rd_paused_fields:
  "rd_paused (rd scn_rd_paused)" "rd_owner (rd scn_rd_paused) = addr_operator"
  "property_exists (nft scn_rd_paused) 0" "propertyOwner (nft scn_rd_paused) 0 = addr_manager"
  "eth scn_rd_paused addr_manager = 4050"
  by (simp_all add: scn_rd_paused_def pause_rd_def scnA_created_def scn_rd_eval
      scn_sold_out_tok [unfolded addr_defs])

theorem pause_rejects_witness:
  "ft_paused (tok scn_paused) \<and> rd_paused (rd scn_rd_paused) \<and>
   purchaseTokens addr_A 20 300 10 scn_paused = Inl Paused \<and>
   sellTokens addr_A 10 scn_paused = Inl Paused \<and>
   depositRent addr_manager 20 0 scn_rd_paused = Inl Paused \<and>
   createDistribution addr_manager 300 0 20 scn_rd_paused = Inl Paused \<and>
   claimDistribution addr_A 0 scn_rd_paused = Inl Paused \<and>
   batchDistribute addr_operator 0 scn_rd_paused = Inl Paused"
  using pause_rejects [where w = scn_paused and r = scn_rd_paused and sender = addr_A
      and v = 20 and now = 300 and amt = 10 and i = 0]
    pause_rejects [where w = scn_paused and r = scn_rd_paused and sender = addr_manager
      and v = 20 and now = 300 and pid = 0 and g = 20]
    pause_rejects [where w = scn_paused and r = scn_rd_paused and sender = addr_operator
      and i = 0]
  by (simp add: scn_paused_fields scn_rd_paused_fields)

text \<open>
  C7 as stated fails on the order of the checks: on the paused token, a purchase by a
  caller without a KYC entry is rejected by the KYC check, which runs before the pause check.
\<close>

theorem pause_rejects_counterexample:
  "ft_paused (tok scn_paused) \<and>
   purchaseTokens addr_manager 20 300 10 scn_paused = Inl KYCRequired \<and>
   purchaseTokens addr_manager 20 300 10 scn_paused \<noteq> Inl Paused"
  using purchaseTokens_paused [OF scn_paused_fields(1), of addr_manager 20 300 10]
  by (simp add: scn_paused_fields)

text \<open>
  The ERC20 \<open>transfer\<close> of the token carries no pause check at all: on the paused token, A
  transfers 50 shares to B.
\<close>

lemma transfer_while_paused:
  "ft_paused (tok scn_paused) \<and> \<not> isl (transfer addr_A addr_B 50 scn_paused) \<and>
   balances (tok (projr (transfer addr_A addr_B 50 scn_paused))) addr_B = 450"
  by (simp add: scn_paused_def scn_sold_out_def scn_A600_def scn_deployed_def ft_defs
      arith_defs scn_defs)

section \<open>Batch settlement\<close>

lemma batch_loop_eth_paid:
  assumes "batch_loop i as w = Inr (w', evs)" and "a \<noteq> rd_self (rd w)"
  shows "eth w' a = eth w a + sum_list (paid_to a i evs)"
  using assms
proof (induction as arbitrary: w evs)
  case Nil
  then show ?case by (simp add: paid_to_def)
next
  case (Cons b as)
  show ?case
  proof (cases "\<not> claimed (distributions (rd w) i) b \<and> investorDistributions (distributions (rd w) i) b > 0")
    case True
    with Cons.prems(1) obtain w2 evs2 td where
      p: "pay_transfer (rd_self (rd w)) b (investorDistributions (distributions (rd w) i) b)
            (w\<lparr>rd := (rd w)\<lparr>distributions := (distributions (rd w))(i :=
               (distributions (rd w) i)\<lparr>claimed := (claimed (distributions (rd w) i))(b := True),
                  totalDistributed := td\<rparr>)\<rparr>\<rparr>) = Inr w2"
      and r: "batch_loop i as w2 = Inr (w', evs2)"
      and evs: "evs = RentDistributed i b (investorDistributions (distributions (rd w) i) b) # evs2"
      by (auto simp: Let_def split: sum.splits prod.splits)
    have w2: "rd w2 = (rd w)\<lparr>distributions := (distributions (rd w))(i :=
               (distributions (rd w) i)\<lparr>claimed := (claimed (distributions (rd w) i))(b := True),
                  totalDistributed := td\<rparr>)\<rparr>"
      using pay_transfer_rd(1) [OF p] by simp
    have e2: "eth w2 a = eth w a +
                (if b = a then investorDistributions (distributions (rd w) i) b else 0)"
      using pay_transfer_rd(5) [OF p] Cons.prems(2) by (simp add: move_eth_def Let_def)
    have "eth w' a = eth w2 a + sum_list (paid_to a i evs2)"
      by (rule Cons.IH [OF r]) (use Cons.prems(2) in \<open>simp add: w2\<close>)
    moreover have "paid_to a i evs =
            (if b = a then [investorDistributions (distributions (rd w) i) b] else []) @ paid_to a i evs2"
      by (simp add: evs paid_to_def)
    ultimately show ?thesis using e2 by simp
  next
    case False
    with Cons.prems(1) have "batch_loop i as w = Inr (w', evs)"
      by (auto simp: Let_def split: if_splits)
    then show ?thesis using Cons.prems(2) by (rule Cons.IH)
  qed
qed

lemma batch_loop_eth_self:
  assumes "batch_loop i as w = Inr (w', evs)" and "rd_self (rd w) \<notin> set as"
  shows "eth w' (rd_self (rd w)) + totalDistributed (distributions (rd w') i) =
         eth w (rd_self (rd w)) + totalDistributed (distributions (rd w) i)"
  using assms
proof (induction as arbitrary: w evs)
  case Nil
  then show ?case by simp
next
  case (Cons b as)
  from Cons.prems(2) have ne: "b \<noteq> rd_self (rd w)" and notin: "rd_self (rd w) \<notin> set as"
    by auto
  show ?case
  proof (cases "\<not> claimed (distributions (rd w) i) b \<and> investorDistributions (distributions (rd w) i) b > 0")
    case True
    define amt where "amt = investorDistributions (distributions (rd w) i) b"
    define td where "td = totalDistributed (distributions (rd w) i) + amt"
    from True Cons.prems(1) obtain w2 evs2 where
      p: "pay_transfer (rd_self (rd w)) b amt
            (w\<lparr>rd := (rd w)\<lparr>distributions := (distributions (rd w))(i :=
               (distributions (rd w) i)\<lparr>claimed := (claimed (distributions (rd w) i))(b := True),
                  totalDistributed := td\<rparr>)\<rparr>\<rparr>) = Inr w2"
      and r: "batch_loop i as w2 = Inr (w', evs2)"
      unfolding amt_def td_def
      by (auto simp: Let_def checked_add_def split: sum.splits prod.splits if_splits)
    have w2: "rd w2 = (rd w)\<lparr>distributions := (distributions (rd w))(i :=
               (distributions (rd w) i)\<lparr>claimed := (claimed (distributions (rd w) i))(b := True),
                  totalDistributed := td\<rparr>)\<rparr>"
      using pay_transfer_rd(1) [OF p] by simp
    have le: "amt \<le> eth w (rd_self (rd w))"
      using pay_transfer_rd(6) [OF p] by simp
    have e2: "eth w2 (rd_self (rd w)) = eth w (rd_self (rd w)) - amt"
      using pay_transfer_rd(5) [OF p] ne by (simp add: move_eth_def Let_def)
    have "eth w' (rd_self (rd w2)) + totalDistributed (distributions (rd w') i) =
          eth w2 (rd_self (rd w2)) + totalDistributed (distributions (rd w2) i)"
      by (rule Cons.IH [OF r]) (use notin in \<open>simp add: w2\<close>)
    then show ?thesis using e2 le by (simp add: w2 td_def)
  next
    case False
    with Cons.prems(1) have "batch_loop i as w = Inr (w', evs)"
      by (auto simp: Let_def split: if_splits)
    then show ?thesis using notin by (rule Cons.IH)
  qed
qed

lemma batchDistribute_eth_paid:
  assumes "batchDistribute sender i w = Inr (w', evs)" and "a \<noteq> rd_self (rd w)"
  shows "eth w' a = eth w a + sum_list (paid_to a i evs)"
proof -
  from assms(1) obtain w1 evs1 where
    b: "batch_loop i (dist_investors (distributions (rd w) i)) w = Inr (w1, evs1)" and
    w': "w' = w1\<lparr>rd := fst (checkDistributionCompletion i (rd w1))\<rparr>" and
    evs: "evs = evs1 @ snd (checkDistributionCompletion i (rd w1))"
    by (rule batchDistribute_Inr)
  show ?thesis
    using batch_loop_eth_paid [OF b assms(2)]
    by (simp add: w' evs paid_to_append checkDistributionCompletion_paid)
qed

lemma batchDistribute_eth_self:
  assumes "batchDistribute sender i w = Inr (w', evs)"
    and "rd_self (rd w) \<notin> set (dist_investors (distributions (rd w) i))"
  shows "eth w' (rd_self (rd w)) + totalDistributed (distributions (rd w') i) =
         eth w (rd_self (rd w)) + totalDistributed (distributions (rd w) i)"
proof -
  from assms(1) obtain w1 evs1 where
    b: "batch_loop i (dist_investors (distributions (rd w) i)) w = Inr (w1, evs1)" and
    w': "w' = w1\<lparr>rd := fst (checkDistributionCompletion i (rd w1))\<rparr>"
    by (rule batchDistribute_Inr)
  show ?thesis
    using batch_loop_eth_self [OF b assms(2)]
    by (simp add: w' checkDistributionCompletion_fst)
qed

text \<open>
  C8 (as amended). \<open>batchDistribute\<close> takes the distribution id alone and walks the whole
  investor list of the distribution in one call: every listed investor with an unclaimed
  nonzero allocation is marked claimed and paid that allocation, in a \<open>RentDistributed\<close>
  event and in ether out of the contract's balance; nobody else is paid or marked; and
  the completion check that follows marks the distribution completed.
\<close>

theorem batch_settles_whole_list:
  assumes "batchDistribute sender i w = Inr (w', evs)"
  shows "(\<forall>a \<in> set (dist_investors (distributions (rd w) i)).
            (investorDistributions (distributions (rd w) i) a > 0 \<longrightarrow>
               claimed (distributions (rd w') i) a) \<and>
            paid_to a i evs =
              (if \<not> claimed (distributions (rd w) i) a \<and>
                  investorDistributions (distributions (rd w) i) a > 0
               then [investorDistributions (distributions (rd w) i) a] else []) \<and>
            (a \<noteq> rd_self (rd w) \<longrightarrow>
               eth w' a = eth w a +
                 (if \<not> claimed (distributions (rd w) i) a \<and>
                     investorDistributions (distributions (rd w) i) a > 0
                  then investorDistributions (distributions (rd w) i) a else 0))) \<and>
         (\<forall>a. a \<notin> set (dist_investors (distributions (rd w) i)) \<longrightarrow>
            paid_to a i evs = [] \<and>
            claimed (distributions (rd w') i) a = claimed (distributions (rd w) i) a \<and>
            (a \<noteq> rd_self (rd w) \<longrightarrow> eth w' a = eth w a)) \<and>
         (rd_self (rd w) \<notin> set (dist_investors (distributions (rd w) i)) \<longrightarrow>
            eth w' (rd_self (rd w)) + totalDistributed (distributions (rd w') i) =
            eth w (rd_self (rd w)) + totalDistributed (distributions (rd w) i)) \<and>
         isCompleted (distributions (rd w') i)"
proof -
  have ex: "rd_exec (Batch sender i) w = Inr (w', evs)" using assms by simp
  have "snapshot (distributions (rd w') i) = snapshot (distributions (rd w) i)"
    using rd_exec_snapshot_other [OF ex, of i] by simp
  note k = snapshot_fields [OF this]
  have "isCompleted (distributions (rd w') i)"
    using batchDistribute_rd(2) [OF assms] batchDistribute_rd(3) [OF assms]
    by (simp add: allClaimed_loop_iff k)
  then show ?thesis
    using batchDistribute_eth_self [OF assms]
    by (simp add: batchDistribute_paid [OF assms] batchDistribute_rd(3) [OF assms]
        batchDistribute_eth_paid [OF assms])
qed

lemma scnA_batch_all_eq:
  "batchDistribute addr_operator 0 scnA_created =
     Inr (scnA_batch_all,
          [RentDistributed 0 addr_A 555, RentDistributed 0 addr_B 370, DistributionCompleted 0 925])"
  by (simp add: scnA_batch_all_def scnA_created_def scn_rd_eval
      scn_sold_out_tok [unfolded addr_defs])

lemma scnA_batch_all_fields:
  "claimed (distributions (rd scnA_batch_all) 0) addr_A"
  "claimed (distributions (rd scnA_batch_all) 0) addr_B"
  "isCompleted (distributions (rd scnA_batch_all) 0)"
  "totalDistributed (distributions (rd scnA_batch_all) 0) = 925"
  "eth scnA_batch_all addr_A = 5555"
  "eth scnA_batch_all addr_B = 5370"
  "eth scnA_batch_all addr_rent = 0"
  by (simp_all add: scnA_batch_all_def scnA_created_def scn_rd_eval
      scn_sold_out_tok [unfolded addr_defs])

lemma scnA_created_eth:
  "eth scnA_created addr_A = 5000" "eth scnA_created addr_B = 5000"
  "rd_self (rd scnA_created) = addr_rent"
  "claimed (distributions (rd scnA_created) 0) = (\<lambda>_. False)"
  by (simp_all add: scnA_created_def scn_rd_eval scn_sold_out_tok [unfolded addr_defs])

theorem batch_settles_whole_list_witness:
  "batchDistribute addr_operator 0 scnA_created =
     Inr (scnA_batch_all,
          [RentDistributed 0 addr_A 555, RentDistributed 0 addr_B 370, DistributionCompleted 0 925]) \<and>
   addr_A \<in> set (dist_investors (distributions (rd scnA_created) 0)) \<and>
   addr_B \<in> set (dist_investors (distributions (rd scnA_created) 0)) \<and>
   addr_manager \<notin> set (dist_investors (distributions (rd scnA_created) 0)) \<and>
   rd_self (rd scnA_created) \<notin> set (dist_investors (distributions (rd scnA_created) 0)) \<and>
   addr_A \<noteq> rd_self (rd scnA_created) \<and> addr_B \<noteq> rd_self (rd scnA_created) \<and>
   addr_manager \<noteq> rd_self (rd scnA_created) \<and>
   claimed (distributions (rd scnA_batch_all) 0) addr_A \<and>
   claimed (distributions (rd scnA_batch_all) 0) addr_B \<and>
   \<not> claimed (distributions (rd scnA_batch_all) 0) addr_manager \<and>
   eth scnA_batch_all addr_A = eth scnA_created addr_A + 555 \<and>
   eth scnA_batch_all addr_B = eth scnA_created addr_B + 370 \<and>
   eth scnA_batch_all addr_manager = eth scnA_created addr_manager \<and>
   eth scnA_batch_all (rd_self (rd scnA_created)) +
     totalDistributed (distributions (rd scnA_batch_all) 0) =
   eth scnA_created (rd_self (rd scnA_created)) +
     totalDistributed (distributions (rd scnA_created) 0) \<and>
   isCompleted (distributions (rd scnA_batch_all) 0)"
proof -
  have m: "addr_manager \<notin> set (dist_investors (distributions (rd scnA_created) 0))"
    "rd_self (rd scnA_created) \<notin> set (dist_investors (distributions (rd scnA_created) 0))"
    "addr_A \<noteq> rd_self (rd scnA_created)" "addr_B \<noteq> rd_self (rd scnA_created)"
    "addr_manager \<noteq> rd_self (rd scnA_created)"
    by (simp_all add: scnA_created_fields scnA_created_eth addr_defs)
  show ?thesis
    using batch_settles_whole_list [OF scnA_batch_all_eq] m
    by (simp add: scnA_batch_all_eq scnA_created_fields scnA_created_eth(4))
qed

text \<open>
  C8 as stated fails: there is no offset and no limit. One call on Scenario A, where
  nobody has claimed, pays the whole investor list, A and B, 555 and 370 wei out of the
  925 the contract holds, and completes the distribution.
\<close>

theorem batch_settles_whole_list_counterexample:
  "dist_investors (distributions (rd scnA_created) 0) = [addr_A, addr_B] \<and>
   batchDistribute addr_operator 0 scnA_created =
     Inr (scnA_batch_all,
          [RentDistributed 0 addr_A 555, RentDistributed 0 addr_B 370, DistributionCompleted 0 925]) \<and>
   claimed (distributions (rd scnA_batch_all) 0) addr_A \<and>
   claimed (distributions (rd scnA_batch_all) 0) addr_B \<and>
   eth scnA_created addr_rent = 925 \<and>
   eth scnA_batch_all addr_A = eth scnA_created addr_A + 555 \<and>
   eth scnA_batch_all addr_B = eth scnA_created addr_B + 370 \<and>
   eth scnA_batch_all addr_rent = 0"
  by (simp add: scnA_batch_all_eq scnA_created_fields scnA_batch_all_fields scnA_created_eth)

section \<open>Sale\<close>

lemma sellTokens_insufficient_balance:
  assumes "balanceOf (tok w) sender < amt"
  shows "sellTokens sender amt w =
           Inl (if \<not> kycVerified (nft w) sender then KYCRequired
                else if ft_paused (tok w) then Paused
                else InsufficientTokenBalance)"
  using assms by (auto simp: sellTokens_def Let_def)

lemma sellTokens_insufficient_liquidity:
  assumes "eth w (ft_self (tok w)) < amt * pricePerToken (tokenInfo (tok w))"
  shows "sellTokens sender amt w =
           Inl (if \<not> kycVerified (nft w) sender then KYCRequired
                else if ft_paused (tok w) then Paused
                else if \<not> amt > 0 then ZeroTokenAmount
                else if balanceOf (tok w) sender < amt then InsufficientTokenBalance
                else if amt * pricePerToken (tokenInfo (tok w)) > MAX_UINT256 then ArithmeticPanic
                else InsufficientContractBalance)"
  using assms by (auto simp: sellTokens_def Let_def checked_mul_def)

lemma sellTokens_ignores_isActive:
  "isl (sellTokens sender amt (w\<lparr>tok := (tok w)\<lparr>tokenInfo := (tokenInfo (tok w))\<lparr>isActive := b\<rparr>\<rparr>\<rparr>))
     = isl (sellTokens sender amt w)"
  by (auto simp: sellTokens_def Let_def ERC20_transfer_def checked_add_def checked_mul_def
      pay_transfer_def updateAvailableTokens_def balanceOf_def split: sum.splits if_splits)

text \<open>
  C9 (as amended). \<open>sellTokens\<close> reverts when the holder's balance is less than the amount
  and when the contract's ether is less than the amount times the price, with the error of
  the first failing check; a revert changes no state. The active flag is not consulted:
  whether a sale is rejected does not depend on it.
\<close>

theorem sale_preconditions:
  "(balanceOf (tok w) sender < amt \<longrightarrow>
      sellTokens sender amt w =
        Inl (if \<not> kycVerified (nft w) sender then KYCRequired
             else if ft_paused (tok w) then Paused
             else InsufficientTokenBalance)) \<and>
   (eth w (ft_self (tok w)) < amt * pricePerToken (tokenInfo (tok w)) \<longrightarrow>
      sellTokens sender amt w =
        Inl (if \<not> kycVerified (nft w) sender then KYCRequired
             else if ft_paused (tok w) then Paused
             else if \<not> amt > 0 then ZeroTokenAmount
             else if balanceOf (tok w) sender < amt then InsufficientTokenBalance
             else if amt * pricePerToken (tokenInfo (tok w)) > MAX_UINT256 then ArithmeticPanic
             else InsufficientContractBalance)) \<and>
   isl (sellTokens sender amt (w\<lparr>tok := (tok w)\<lparr>tokenInfo := (tokenInfo (tok w))\<lparr>isActive := b\<rparr>\<rparr>\<rparr>))
     = isl (sellTokens sender amt w)"
  using sellTokens_insufficient_balance sellTokens_insufficient_liquidity
    sellTokens_ignores_isActive by blast

lemma scn_sold_out_fields:
  "kycVerified (nft scn_sold_out) addr_A" "\<not> ft_paused (tok scn_sold_out)"
  "ft_self (tok scn_sold_out) = addr_token" "pricePerToken (tokenInfo (tok scn_sold_out)) = 2"
  "eth scn_sold_out addr_token = 2000" "eth scn_sold_out addr_A = 3800"
  "isActive (tokenInfo (tok scn_sold_out))"
  by (simp_all add: scn_sold_out_def scn_A600_def scn_deployed_def ft_defs arith_defs scn_defs)

lemma scn_drained_fields:
  "kycVerified (nft scn_drained) addr_A" "\<not> ft_paused (tok scn_drained)"
  "ft_self (tok scn_drained) = addr_token" "pricePerToken (tokenInfo (tok scn_drained)) = 2"
  "eth scn_drained addr_token = 0" "balances (tok scn_drained) addr_A = 600"
  by (simp_all add: scn_drained_def scn_sold_out_fields scn_sold_out_tok)

theorem sale_preconditions_witness:
  "balanceOf (tok scn_sold_out) addr_A < 700 \<and>
   sellTokens addr_A 700 scn_sold_out = Inl InsufficientTokenBalance \<and>
   eth scn_drained (ft_self (tok scn_drained)) < 10 * pricePerToken (tokenInfo (tok scn_drained)) \<and>
   sellTokens addr_A 10 scn_drained = Inl InsufficientContractBalance"
  using sale_preconditions [of scn_sold_out addr_A 700]
    sale_preconditions [of scn_drained addr_A 10]
  by (simp add: balanceOf_def scn_sold_out_tok scn_sold_out_fields scn_drained_fields
      MAX_UINT256_def)

lemma scn_inactive_eq: "setTokenStatus addr_manager False scn_sold_out = Inr scn_inactive"
  by (simp add: scn_inactive_def scn_sold_out_def scn_A600_def scn_deployed_def ft_defs
      arith_defs scn_defs)

lemma scn_sold_inactive_eq: "sellTokens addr_A 10 scn_inactive = Inr scn_sold_inactive"
  by (simp add: scn_sold_inactive_def scn_inactive_def scn_sold_out_def scn_A600_def
      scn_deployed_def ft_defs arith_defs scn_defs)

lemma scn_sold_inactive_fields:
  "\<not> isActive (tokenInfo (tok scn_inactive))"
  "balances (tok scn_inactive) addr_A = 600"
  "balances (tok scn_sold_inactive) addr_A = 590"
  "availableSupply (tokenInfo (tok scn_inactive)) = 0"
  "availableSupply (tokenInfo (tok scn_sold_inactive)) = 10"
  "eth scn_inactive addr_A = 3800"
  "eth scn_sold_inactive addr_A = 3820"
  by (simp_all add: scn_sold_inactive_def scn_inactive_def scn_sold_out_def scn_A600_def
      scn_deployed_def ft_defs arith_defs scn_defs)

text \<open>
  C9 as stated fails on the inactive asset: \<open>sellTokens\<close> has no active-token check. On
  the token set inactive by the property owner, A sells 10 shares and is paid 20 wei.
\<close>

theorem sale_preconditions_counterexample:
  "\<not> isActive (tokenInfo (tok scn_inactive)) \<and>
   sellTokens addr_A 10 scn_inactive = Inr scn_sold_inactive \<and>
   balances (tok scn_inactive) addr_A = 600 \<and>
   balances (tok scn_sold_inactive) addr_A = 590 \<and>
   availableSupply (tokenInfo (tok scn_sold_inactive)) = 10 \<and>
   eth scn_sold_inactive addr_A = eth scn_inactive addr_A + 20"
  by (simp add: scn_sold_inactive_eq scn_sold_inactive_fields)

section \<open>Funds behind a distribution\<close>

lemma with_totalRentCollected_fields:
  "nft (with_totalRentCollected f w) = nft w"
  "eth (with_totalRentCollected f w) = eth w"
  "canReceive (with_totalRentCollected f w) = canReceive w"
  "tokenAt (with_totalRentCollected f w) = tokenAt w"
  "rd_self (rd (with_totalRentCollected f w)) = rd_self (rd w)"
  "rd_owner (rd (with_totalRentCollected f w)) = rd_owner (rd w)"
  "rd_paused (rd (with_totalRentCollected f w)) = rd_paused (rd w)"
  "distributions (rd (with_totalRentCollected f w)) = distributions (rd w)"
  "distributionCounter (rd (with_totalRentCollected f w)) = distributionCounter (rd w)"
  "platformFeePercentage (rd (with_totalRentCollected f w)) = platformFeePercentage (rd w)"
  "managementFeePercentage (rd (with_totalRentCollected f w)) = managementFeePercentage (rd w)"
  "propertyToToken (rd (with_totalRentCollected f w)) = propertyToToken (rd w)"
  "totalRentCollected (rd (with_totalRentCollected f w)) = f"
  by (simp_all add: with_totalRentCollected_def)

lemma with_totalRentCollected_commute:
  "(with_totalRentCollected f w)\<lparr>rd := (rd (with_totalRentCollected f w))
       \<lparr>distributionCounter := c, distributions := ds\<rparr>\<rparr> =
   with_totalRentCollected f (w\<lparr>rd := (rd w)\<lparr>distributionCounter := c, distributions := ds\<rparr>\<rparr>)"
  by (simp add: with_totalRentCollected_def)

lemma transfer_fees_totalRentCollected:
  "transfer_fees pid pf mf (with_totalRentCollected f w) =
     map_sum id (with_totalRentCollected f) (transfer_fees pid pf mf w)"
  by (auto simp: transfer_fees_def pay_transfer_def with_totalRentCollected_def
      split: sum.splits if_splits)

lemma createDistribution_totalRentCollected:
  "createDistribution sender now pid g (with_totalRentCollected f w) =
     map_sum id (\<lambda>(w', evs). (with_totalRentCollected f w', evs))
       (createDistribution sender now pid g w)"
  unfolding createDistribution_def
  by (simp add: Let_def with_totalRentCollected_fields with_totalRentCollected_commute
      transfer_fees_totalRentCollected split: option.splits sum.splits prod.splits)


lemma transfer_fees_Inr_receive:
  assumes "transfer_fees pid pf mf w = Inr w'"
  shows "pf > 0 \<longrightarrow> canReceive w (rd_owner (rd w))"
    "\<exists>po. getProperty_owner pid (nft w) = Inr po \<and> (mf > 0 \<longrightarrow> canReceive w po)"
  using assms
  by (auto simp: transfer_fees_def pay_transfer_def split: sum.splits if_splits)

lemma transfer_fees_funds:
  assumes "pf + mf \<le> eth w (rd_self (rd w))"
    and "pf > 0 \<longrightarrow> canReceive w (rd_owner (rd w))"
    and "getProperty_owner pid (nft w) = Inr po"
    and "mf > 0 \<longrightarrow> canReceive w po"
  shows "\<not> isl (transfer_fees pid pf mf w)"
  using assms
  by (auto simp: transfer_fees_def pay_transfer_def move_eth_def Let_def split: sum.splits)

lemma createDistribution_insufficient:
  assumes "eth w (rd_self (rd w)) < g"
  shows "createDistribution sender now pid g w =
           Inl (if \<not> property_exists (nft w) pid then PropertyDoesNotExist
                else if propertyOwner (nft w) pid \<noteq> sender then NotPropertyOwner
                else if rd_paused (rd w) then Paused
                else InsufficientContractBalance)"
  using assms
  by (auto simp: createDistribution_def onlyPropertyOwner_def getProperty_owner_def)

lemma isl_case_sum_Inl:
  "isl (case x of Inl e \<Rightarrow> Inl e | Inr y \<Rightarrow> Inr (f y)) = isl x"
  by (cases x) simp_all

lemma createDistribution_funds:
  assumes c: "createDistribution sender now pid g w = Inr (w', evs)"
  shows "isl (createDistribution sender now pid g (w\<lparr>eth := e\<rparr>)) \<longleftrightarrow> e (rd_self (rd w)) < g"
proof (cases "e (rd_self (rd w)) < g")
  case True
  then show ?thesis
    using createDistribution_insufficient [of "w\<lparr>eth := e\<rparr>" g sender now pid] by simp
next
  case False
  let ?c = "distributionCounter (rd w)"
  from c obtain pf mf net and t :: FractionalToken and d1 where
    o: "onlyPropertyOwner pid sender (nft w) = None" and np: "\<not> rd_paused (rd w)"
    and g: "g > 0" and reg: "propertyToToken (rd w) pid \<noteq> 0"
    and cf: "compute_fees g (platformFeePercentage (rd w)) (managementFeePercentage (rd w)) = Inr (pf, mf, net)"
    and cnt: "?c + 1 \<le> MAX_UINT256"
    and tk: "tokenAt w (propertyToToken (rd w) pid) = Some t"
    and al: "allocate_shares net t (getInvestors t)
       ((distributions (rd w) ?c)
          \<lparr>dist_propertyId := pid,
           fractionalTokenAddress := propertyToToken (rd w) pid,
           dist_totalRentCollected := g,
           distributionDate := now,
           totalTokensAtDistribution := erc20_totalSupply t,
           isCompleted := False,
           platformFee := pf,
           propertyOwnerFee := mf,
           dist_investors := getInvestors t\<rparr>) = Inr d1"
    and tf: "transfer_fees pid pf mf
       (w\<lparr>rd := (rd w)\<lparr>distributionCounter := ?c + 1,
            distributions := (distributions (rd w))(?c := d1)\<rparr>\<rparr>) = Inr w'"
    by (rule createDistribution_Inr)
  let ?w1 = "w\<lparr>rd := (rd w)\<lparr>distributionCounter := ?c + 1,
            distributions := (distributions (rd w))(?c := d1)\<rparr>\<rparr>"
  from transfer_fees_Inr_receive [OF tf] obtain po where
    r1: "pf > 0 \<longrightarrow> canReceive w (rd_owner (rd w))"
    and po: "getProperty_owner pid (nft w) = Inr po"
    and r2: "mf > 0 \<longrightarrow> canReceive w po"
    by auto
  have le: "pf + mf \<le> g" using compute_fees_Inr(3) [OF cf] by simp
  let ?w2 = "w\<lparr>eth := e, rd := (rd w)\<lparr>distributionCounter := ?c + 1,
            distributions := (distributions (rd w))(?c := d1)\<rparr>\<rparr>"
  have ok: "\<not> isl (transfer_fees pid pf mf ?w2)"
    by (rule transfer_fees_funds [where po = po]) (use le False r1 po r2 in simp_all)
  have "createDistribution sender now pid g (w\<lparr>eth := e\<rparr>) =
          (case transfer_fees pid pf mf ?w2 of
             Inl x \<Rightarrow> Inl x
           | Inr w2 \<Rightarrow> Inr (w2, [DistributionCreated ?c pid net (length (getInvestors t))]))"
    using False o np g reg cf cnt tk al
    by (simp add: createDistribution_def Let_def checked_add_def)
  then show ?thesis using ok False
    by (simp add: isl_case_sum_Inl [where f = "\<lambda>w2. (w2, [DistributionCreated ?c pid net (length (getInvestors t))])"])
qed


lemma scn2_token_sold_eq:
  "purchaseTokens addr_B 1500 100 500 scn2_token_deployed = Inr scn2_token_sold"
  by (simp add: scn2_token_sold_def scn2_token_deployed_def ft_defs arith_defs scn_defs)

lemma scn2_token_deployed_tok:
  "constructor_FractionalToken addr_token2 addr_operator 0 7 500 3 = Inr (tok scn2_token_deployed)"
  by (simp add: scn2_token_deployed_def ft_defs arith_defs scn_defs)

lemma scn2_token_sold_reachable: "ft_reachable False 500 scn2_token_sold"
proof -
  have d: "ft_reachable False 500 scn2_token_deployed"
    unfolding scn2_token_deployed_def
    by (rule ft_deployed) (use scn2_token_deployed_tok in \<open>simp add: scn2_token_deployed_def\<close>)
  have "ft_step False scn2_token_deployed scn2_token_sold"
    by (rule ft_transaction [where c = "Purchase addr_B 1500 100 500"])
       (simp_all add: scn2_token_sold_eq, simp add: scn2_token_deployed_def ft_defs arith_defs scn_defs)
  then show ?thesis by (rule ft_stepped [OF d])
qed

lemma scn2_token_fields:
  "investors scn2_token = [addr_B]" "erc20_totalSupply scn2_token = 500"
  "balances scn2_token addr_B = 500"
  by (simp_all add: scn2_token_def scn2_token_sold_def scn2_token_deployed_def
      ft_defs arith_defs scn_defs)

lemma scn2_registered0_eq:
  "registerFractionalToken addr_operator 0 addr_token scn2_deployed = Inr scn2_registered0"
  by (simp add: scn2_registered0_def scn2_deployed_def rd_defs scn_defs)

lemma scn2_registered_eq:
  "registerFractionalToken addr_operator 7 addr_token2 scn2_registered0 = Inr scn2_registered"
  by (simp add: scn2_registered_def scn2_registered0_def scn2_deployed_def rd_defs scn_defs)

lemma scn2_funded_eq:
  "depositRent addr_manager 1000 0 scn2_registered =
     Inr (scn2_funded, [RentDeposited 0 1000 addr_manager])"
  by (simp add: scn2_funded_def scn2_registered_def scn2_registered0_def scn2_deployed_def
      rd_defs arith_defs scn_defs)

lemma scn2_funded_fields:
  "rd_self (rd scn2_funded) = addr_rent" "rd_owner (rd scn2_funded) = addr_operator"
  "\<not> rd_paused (rd scn2_funded)"
  "distributionCounter (rd scn2_funded) = 0"
  "distributions (rd scn2_funded) = (\<lambda>_. empty_Distribution)"
  "platformFeePercentage (rd scn2_funded) = 250"
  "managementFeePercentage (rd scn2_funded) = 500"
  "propertyToToken (rd scn2_funded) 7 = addr_token2"
  "propertyToToken (rd scn2_funded) 0 = addr_token"
  "totalRentCollected (rd scn2_funded) 0 = 1000"
  "totalRentCollected (rd scn2_funded) 7 = 0"
  "nft scn2_funded = scn_nft" "canReceive scn2_funded = (\<lambda>_. True)"
  "tokenAt scn2_funded addr_token2 = Some scn2_token"
  "eth scn2_funded addr_rent = 1000" "eth scn2_funded addr_manager2 = 5000"
  "eth scn2_funded addr_operator = 0" "eth scn2_funded addr_B = 5000"
  by (simp_all add: scn2_funded_def scn2_registered_def scn2_registered0_def scn2_deployed_def
      rd_defs arith_defs scn_defs)

lemmas scn2_rd_eval = createDistribution_def claimDistribution_def
  checkDistributionCompletion_def
  scn2_funded_fields [unfolded addr_defs] scn2_token_fields [unfolded addr_defs]
  onlyPropertyOwner_def getProperty_owner_def compute_fees_def transfer_fees_def
  getInvestors_def pay_transfer_def move_eth_def balanceOf_def Let_def arith_defs scn_defs
  empty_Distribution_def

lemma scn2_created_eq:
  "createDistribution addr_manager2 300 7 1000 scn2_funded =
     Inr (scn2_created, [DistributionCreated 0 7 925 1])"
  by (simp add: scn2_created_def scn2_rd_eval)

lemma scn2_created_fields:
  "dist_propertyId (distributions (rd scn2_created) 0) = 7"
  "dist_totalRentCollected (distributions (rd scn2_created) 0) = 1000"
  "investorDistributions (distributions (rd scn2_created) 0) addr_B = 925"
  "totalRentCollected (rd scn2_created) 0 = 1000"
  "totalRentCollected (rd scn2_created) 7 = 0"
  "eth scn2_created addr_rent = 925"
  "eth scn2_created addr_manager2 = 5050"
  "eth scn2_created addr_operator = 25"
  "eth scn2_created addr_B = 5000"
  by (simp_all add: scn2_created_def scn2_rd_eval)

lemma scn2_claimed_eq:
  "claimDistribution addr_B 0 scn2_created =
     Inr (scn2_claimed, [RentDistributed 0 addr_B 925, DistributionCompleted 0 925])"
  by (simp add: scn2_claimed_def scn2_created_def scn2_rd_eval)

lemma scn2_claimed_fields:
  "rd_self (rd scn2_claimed) = addr_rent"
  "\<not> rd_paused (rd scn2_claimed)"
  "property_exists (nft scn2_claimed) 0"
  "propertyOwner (nft scn2_claimed) 0 = addr_manager"
  "totalRentCollected (rd scn2_claimed) 0 = 1000"
  "totalRentCollected (rd scn2_claimed) 7 = 0"
  "eth scn2_claimed addr_rent = 0"
  "eth scn2_claimed addr_B = 5925"
  by (simp_all add: scn2_claimed_def scn2_created_def scn2_rd_eval)

lemma scn2_funded_reachable: "rd_reachable scn2_funded"
proof -
  have 0: "rd_reachable scn2_deployed"
    unfolding scn2_deployed_def by (rule rd_deployed)
  have 1: "rd_step scn2_deployed scn2_registered0"
    by (rule rd_transaction [where c = "Register addr_operator 0 addr_token"])
       (simp add: scn2_registered0_eq)
  have 2: "rd_step scn2_registered0 scn2_registered"
    by (rule rd_transaction [where c = "Register addr_operator 7 addr_token2"])
       (simp add: scn2_registered_eq)
  have 3: "rd_step scn2_registered scn2_funded"
    by (rule rd_transaction [where c = "Deposit addr_manager 1000 0"])
       (simp add: scn2_funded_eq)
  show ?thesis using 0 1 2 3 by (blast intro: rd_stepped)
qed

lemma scn2_claimed_reachable: "rd_reachable scn2_claimed"
proof -
  have 1: "rd_step scn2_funded scn2_created"
    by (rule rd_transaction [where c = "Create addr_manager2 300 7 1000"])
       (simp add: scn2_created_eq)
  have 2: "rd_step scn2_created scn2_claimed"
    by (rule rd_transaction [where c = "Claim addr_B 0"])
       (simp add: scn2_claimed_eq)
  show ?thesis using scn2_funded_reachable 1 2 by (blast intro: rd_stepped)
qed

lemma createDistribution_keeps_totalRentCollected:
  assumes "createDistribution sender now pid g w = Inr (w', evs)"
  shows "totalRentCollected (rd w') = totalRentCollected (rd w)"
  using assms by (elim createDistribution_rd) simp

text \<open>
  C10. The only condition on funds of \<open>createDistribution\<close> is the balance of the contract:
  with a balance below the amount the call is rejected; a call that succeeds had a balance of
  at least the amount, and, every other part of the state kept, it is rejected with another
  table of balances exactly when the contract's balance there is below the amount.
  The per-property table of rent collected is neither read nor written: a call that succeeds
  leaves it as it was, and with any other table the call gives the same result, that table
  unchanged. So a distribution can commit more than was ever deposited for its property:
  B holds the 500 shares of the token of property 7; after a deposit of 1000 for property 0
  and none for property 7, the owner of property 7 creates a distribution of 1000 for
  property 7; the fees of 25 and 50 are paid, B is allocated 925 and claims it, all out of
  the rent of property 0; the table still records 1000 for property 0, whose owner can no
  longer distribute even 10.
\<close>

theorem distribution_can_exceed_rent_collected:
  "(eth w (rd_self (rd w)) < g \<longrightarrow> isl (createDistribution sender now pid g w)) \<and>
   (createDistribution sender now pid g w = Inr (w', evs) \<longrightarrow>
      g \<le> eth w (rd_self (rd w)) \<and>
      (isl (createDistribution sender now pid g (w\<lparr>eth := e\<rparr>)) \<longleftrightarrow> e (rd_self (rd w)) < g) \<and>
      totalRentCollected (rd w') = totalRentCollected (rd w)) \<and>
   createDistribution sender now pid g (with_totalRentCollected f w) =
     map_sum id (\<lambda>(w', evs). (with_totalRentCollected f w', evs))
       (createDistribution sender now pid g w) \<and>
   ft_reachable False 500 scn2_token_sold \<and>
   rd_reachable scn2_funded \<and>
   tokenAt scn2_funded (propertyToToken (rd scn2_funded) 7) = Some (tok scn2_token_sold) \<and>
   totalRentCollected (rd scn2_funded) 0 = 1000 \<and>
   totalRentCollected (rd scn2_funded) 7 = 0 \<and>
   eth scn2_funded (rd_self (rd scn2_funded)) = 1000 \<and>
   createDistribution addr_manager2 300 7 1000 scn2_funded =
     Inr (scn2_created, [DistributionCreated 0 7 925 1]) \<and>
   dist_propertyId (distributions (rd scn2_created) 0) = 7 \<and>
   dist_totalRentCollected (distributions (rd scn2_created) 0) = 1000 \<and>
   investorDistributions (distributions (rd scn2_created) 0) addr_B = 925 \<and>
   totalRentCollected (rd scn2_created) 7 = 0 \<and>
   totalRentCollected (rd scn2_created) 0 = 1000 \<and>
   eth scn2_created addr_operator = eth scn2_funded addr_operator + 25 \<and>
   eth scn2_created addr_manager2 = eth scn2_funded addr_manager2 + 50 \<and>
   eth scn2_created (rd_self (rd scn2_created)) = 925 \<and>
   claimDistribution addr_B 0 scn2_created =
     Inr (scn2_claimed, [RentDistributed 0 addr_B 925, DistributionCompleted 0 925]) \<and>
   eth scn2_claimed addr_B = eth scn2_created addr_B + 925 \<and>
   eth scn2_claimed (rd_self (rd scn2_claimed)) = 0 \<and>
   totalRentCollected (rd scn2_claimed) 0 = 1000 \<and>
   createDistribution addr_manager 400 0 10 scn2_claimed = Inl InsufficientContractBalance"
proof -
  have a: "eth w (rd_self (rd w)) < g \<longrightarrow> isl (createDistribution sender now pid g w)"
    by (simp add: createDistribution_insufficient)
  have b: "createDistribution sender now pid g w = Inr (w', evs) \<longrightarrow>
      g \<le> eth w (rd_self (rd w)) \<and>
      (isl (createDistribution sender now pid g (w\<lparr>eth := e\<rparr>)) \<longleftrightarrow> e (rd_self (rd w)) < g) \<and>
      totalRentCollected (rd w') = totalRentCollected (rd w)"
    using createDistribution_funds createDistribution_keeps_totalRentCollected
    by (blast elim: createDistribution_Inr)
  have c: "createDistribution addr_manager 400 0 10 scn2_claimed = Inl InsufficientContractBalance"
    using createDistribution_insufficient [of scn2_claimed 10 addr_manager 400 0]
    by (simp add: scn2_claimed_fields)
  have self: "rd_self (rd scn2_created) = addr_rent"
    by (simp add: scn2_created_def scn2_rd_eval)
  show ?thesis
    using a b c
    by (simp add: createDistribution_totalRentCollected scn2_funded_reachable scn2_funded_fields
      scn2_created_eq scn2_created_fields scn2_claimed_eq scn2_claimed_fields
      scn2_token_sold_reachable self scn2_token_def)
qed

theorem distribution_can_exceed_rent_collected_witness:
  "eth scn2_claimed (rd_self (rd scn2_claimed)) < 10 \<and>
   isl (createDistribution addr_manager 400 0 10 scn2_claimed) \<and>
   createDistribution addr_manager2 300 7 1000 scn2_funded =
     Inr (scn2_created, [DistributionCreated 0 7 925 1]) \<and>
   1000 \<le> eth scn2_funded (rd_self (rd scn2_funded)) \<and>
   isl (createDistribution addr_manager2 300 7 1000
          (scn2_funded\<lparr>eth := (eth scn2_funded)(addr_rent := 999)\<rparr>)) \<and>
   totalRentCollected (rd scn2_created) = totalRentCollected (rd scn2_funded)"
  using distribution_can_exceed_rent_collected
      [of scn2_claimed 10 addr_manager 400 0 scn2_claimed "[]" "eth scn2_claimed" id]
    distribution_can_exceed_rent_collected
      [of scn2_funded 1000 addr_manager2 300 7 scn2_created
          "[DistributionCreated 0 7 925 1]" "(eth scn2_funded)(addr_rent := 999)" id]
  by (simp add: scn2_claimed_fields scn2_funded_fields scn2_created_eq)

end
